(* ===== verification/Flipper_Prelude.thy ===== *)
theory Flipper_Prelude
  imports Main "HOL-Library.Word"
begin

unbundle bit_operations_syntax

text \<open>
  Shared foundations of the development: bytes, the exceptions the code raises, the
  state-and-exception actions in which every coroutine of the program is written, and a
  small calculus of frame relations by which one-line lemmas say what an action leaves
  alone.
\<close>

section \<open>Bytes\<close>

type_synonym byte = "8 word"
type_synonym bytes = "byte list"

section \<open>Exceptions\<close>

text \<open>
  The exceptions that the code raises, catches or lets through.  The text of an exception
  is kept where the code builds another message from it.  \<open>Cancelled\<close> is
  \<^verbatim>\<open>asyncio.CancelledError\<close>, which derives from \<^verbatim>\<open>BaseException\<close> and so passes every
  \<^verbatim>\<open>except Exception\<close>.  \<open>Deadlock\<close> is not a Python exception: it is the outcome of
  waiting for the non-reentrant I/O lock while the same task holds it, which never returns.
\<close>

datatype exn =
    OSError string
  | SerialException string
  | ConnectionResetError string
  | BrokenPipeError string
  | TimeoutError
  | RuntimeError string
  | ValueError string
  | DecodeError
  | KeyError string
  | TypeError
  | AttributeError
  | FlipperError string
  | FlipperNotConnectedError string
  | FlipperConnectionError string
  | FlipperTimeoutError string
  | FlipperProtocolError string
  | FlipperCLIUnavailableError string
  | FlipperCLIRefusedError string
  | BundleError string
  | FlashError string
  | HTTPError string
  | JSONDecodeError string
  | TarError string
  | ToolError string
  | Cancelled
  | Deadlock

text \<open>The class hierarchy, as far as some \<^verbatim>\<open>except\<close> clause of the code depends on it:
  \<^verbatim>\<open>TimeoutError\<close>, the connection errors and pyserial's \<^verbatim>\<open>SerialException\<close> are \<^verbatim>\<open>OSError\<close>s, and
  \<^verbatim>\<open>BundleError\<close> and \<^verbatim>\<open>FlashError\<close> are \<^verbatim>\<open>RuntimeError\<close>s.\<close>

fun is_os_error :: "exn \<Rightarrow> bool" where
  "is_os_error (OSError _) = True"
| "is_os_error (SerialException _) = True"
| "is_os_error (ConnectionResetError _) = True"
| "is_os_error (BrokenPipeError _) = True"
| "is_os_error TimeoutError = True"
| "is_os_error _ = False"

fun is_runtime_error :: "exn \<Rightarrow> bool" where
  "is_runtime_error (RuntimeError _) = True"
| "is_runtime_error (BundleError _) = True"
| "is_runtime_error (FlashError _) = True"
| "is_runtime_error _ = False"

text \<open>\<^verbatim>\<open>json.JSONDecodeError\<close> is a \<^verbatim>\<open>ValueError\<close>.\<close>

fun is_value_error :: "exn \<Rightarrow> bool" where
  "is_value_error (ValueError _) = True"
| "is_value_error (JSONDecodeError _) = True"
| "is_value_error _ = False"

definition is_os_or_runtime :: "exn \<Rightarrow> bool" where
  "is_os_or_runtime e \<longleftrightarrow> is_os_error e \<or> is_runtime_error e"

fun is_exception :: "exn \<Rightarrow> bool" where
  "is_exception Cancelled = False"
| "is_exception Deadlock = False"
| "is_exception _ = True"

lemma is_os_or_runtime_exception: "is_os_or_runtime e \<Longrightarrow> is_exception e"
  by (cases e) (simp_all add: is_os_or_runtime_def)

text \<open>\<^verbatim>\<open>str(exc)\<close>.\<close>

fun exn_text :: "exn \<Rightarrow> string" where
  "exn_text (OSError m) = m"
| "exn_text (SerialException m) = m"
| "exn_text (ConnectionResetError m) = m"
| "exn_text (BrokenPipeError m) = m"
| "exn_text TimeoutError = []"
| "exn_text (RuntimeError m) = m"
| "exn_text (ValueError m) = m"
| "exn_text DecodeError = ''Error parsing message''"
| "exn_text (KeyError m) = m"
| "exn_text TypeError = []"
| "exn_text AttributeError = []"
| "exn_text (FlipperError m) = m"
| "exn_text (FlipperNotConnectedError m) = m"
| "exn_text (FlipperConnectionError m) = m"
| "exn_text (FlipperTimeoutError m) = m"
| "exn_text (FlipperProtocolError m) = m"
| "exn_text (FlipperCLIUnavailableError m) = m"
| "exn_text (FlipperCLIRefusedError m) = m"
| "exn_text (BundleError m) = m"
| "exn_text (FlashError m) = m"
| "exn_text (HTTPError m) = m"
| "exn_text (JSONDecodeError m) = m"
| "exn_text (TarError m) = m"
| "exn_text (ToolError m) = m"
| "exn_text Cancelled = []"
| "exn_text Deadlock = []"

section \<open>Actions\<close>

text \<open>
  An action takes the state and returns its outcome, an exception or a value, together
  with the state it leaves behind.  The state survives an exception, as the mutated
  objects of the program do.
\<close>

type_synonym ('s, 'a) action = "'s \<Rightarrow> (exn + 'a) \<times> 's"

definition ret :: "'a \<Rightarrow> ('s, 'a) action" where
  "ret x s = (Inr x, s)"

definition raise :: "exn \<Rightarrow> ('s, 'a) action" where
  "raise e s = (Inl e, s)"

definition bindM :: "('s, 'a) action \<Rightarrow> ('a \<Rightarrow> ('s, 'b) action) \<Rightarrow> ('s, 'b) action" where
  "bindM m k s = (case m s of (Inl e, s') \<Rightarrow> (Inl e, s') | (Inr x, s') \<Rightarrow> k x s')"

definition thenM :: "('s, 'a) action \<Rightarrow> ('s, 'b) action \<Rightarrow> ('s, 'b) action" where
  "thenM m k = bindM m (\<lambda>_. k)"

definition get :: "('s \<Rightarrow> 'a) \<Rightarrow> ('s, 'a) action" where
  "get f s = (Inr (f s), s)"

definition modify :: "('s \<Rightarrow> 's) \<Rightarrow> ('s, unit) action" where
  "modify f s = (Inr (), f s)"

text \<open>A computation that needs no state but may raise.\<close>

definition lift_result :: "exn + 'a \<Rightarrow> ('s, 'a) action" where
  "lift_result r s = (r, s)"

text \<open>\<^verbatim>\<open>try: m except <those e with p e>: h\<close>, and \<^verbatim>\<open>try: m finally: f\<close>.\<close>

definition try_except :: "(exn \<Rightarrow> bool) \<Rightarrow> ('s, 'a) action \<Rightarrow> (exn \<Rightarrow> ('s, 'a) action) \<Rightarrow> ('s, 'a) action" where
  "try_except p m h s =
     (case m s of (Inl e, s') \<Rightarrow> (if p e then h e s' else (Inl e, s')) | (Inr x, s') \<Rightarrow> (Inr x, s'))"

definition try_finally :: "('s, 'a) action \<Rightarrow> ('s, unit) action \<Rightarrow> ('s, 'a) action" where
  "try_finally m f s =
     (case m s of (r, s') \<Rightarrow> (case f s' of (Inl e, s'') \<Rightarrow> (Inl e, s'') | (Inr _, s'') \<Rightarrow> (r, s'')))"

lemmas action_defs = ret_def raise_def bindM_def thenM_def get_def modify_def
  try_except_def try_finally_def

lemma bindM_ret [simp]: "bindM (ret x) k = k x"
  by (simp add: fun_eq_iff action_defs)

lemma bindM_raise [simp]: "bindM (raise e) k = raise e"
  by (simp add: fun_eq_iff action_defs)

lemma bindM_assoc: "bindM (bindM m k) h = bindM m (\<lambda>x. bindM (k x) h)"
  by (auto simp: fun_eq_iff action_defs split: sum.splits prod.splits)

lemma bindM_Inr: "m s = (Inr x, s') \<Longrightarrow> bindM m k s = k x s'"
  by (simp add: bindM_def)

lemma bindM_Inl: "m s = (Inl e, s') \<Longrightarrow> bindM m k s = (Inl e, s')"
  by (simp add: bindM_def)

lemma thenM_Inr: "m s = (Inr x, s') \<Longrightarrow> thenM m k s = k s'"
  by (simp add: thenM_def bindM_def)

lemma bindM_cong [fundef_cong]:
  assumes "m s = m' s'" and "\<And>x t. m' s' = (Inr x, t) \<Longrightarrow> k x t = k' x t" and "s = s'"
  shows "bindM m k s = bindM m' k' s'"
  using assms by (auto simp: bindM_def split: prod.splits sum.splits)

lemma bindM_InrE:
  assumes "bindM m k s = (Inr y, t)"
  obtains x s' where "m s = (Inr x, s')" and "k x s' = (Inr y, t)"
  using assms by (auto simp: bindM_def split: prod.splits sum.splits)

section \<open>Frame relations\<close>

text \<open>
  An action \<^emph>\<open>keeps\<close> a relation when every state it leaves behind, by returning or by
  raising, is related to the state it started from.  For a reflexive and transitive
  relation the combinators of actions inherit the property from their parts.
\<close>

definition keeps :: "('s \<Rightarrow> 's \<Rightarrow> bool) \<Rightarrow> ('s, 'a) action \<Rightarrow> bool" where
  "keeps R m \<longleftrightarrow> (\<forall>s. R s (snd (m s)))"

lemma keepsI: "(\<And>s r s'. m s = (r, s') \<Longrightarrow> R s s') \<Longrightarrow> keeps R m"
  by (metis keeps_def surjective_pairing)

lemma keepsD: "keeps R m \<Longrightarrow> m s = (r, s') \<Longrightarrow> R s s'"
  by (metis keeps_def snd_conv)

lemma keeps_mono: "keeps R m \<Longrightarrow> (\<And>s t. R s t \<Longrightarrow> Q s t) \<Longrightarrow> keeps Q m"
  by (simp add: keeps_def)

locale frame_rel =
  fixes R :: "'s \<Rightarrow> 's \<Rightarrow> bool"
  assumes refl: "R s s"
    and trans: "R s t \<Longrightarrow> R t u \<Longrightarrow> R s u"
begin

lemma keeps_ret: "keeps R (ret x)"
  by (simp add: keeps_def ret_def refl)

lemma keeps_raise: "keeps R (raise e)"
  by (simp add: keeps_def raise_def refl)

lemma keeps_get: "keeps R (get f)"
  by (simp add: keeps_def get_def refl)

lemma keeps_modify: "(\<And>s. R s (f s)) \<Longrightarrow> keeps R (modify f)"
  by (simp add: keeps_def modify_def)

lemma keeps_bindM:
  assumes "keeps R m" and "\<And>x. keeps R (k x)"
  shows "keeps R (bindM m k)"
proof (rule keepsI)
  fix s r s' assume "bindM m k s = (r, s')"
  then show "R s s'"
    using assms by (auto simp: bindM_def split: prod.splits sum.splits dest!: keepsD intro: trans)
qed

lemma keeps_thenM: "keeps R m \<Longrightarrow> keeps R k \<Longrightarrow> keeps R (thenM m k)"
  by (simp add: thenM_def keeps_bindM)

lemma keeps_try_except:
  assumes "keeps R m" and "\<And>e. keeps R (h e)"
  shows "keeps R (try_except p m h)"
proof (rule keepsI)
  fix s r s' assume "try_except p m h s = (r, s')"
  then show "R s s'"
    using assms
    by (auto simp: try_except_def split: prod.splits sum.splits if_splits dest!: keepsD intro: trans)
qed

lemma keeps_try_finally:
  assumes "keeps R m" and "keeps R f"
  shows "keeps R (try_finally m f)"
proof (rule keepsI)
  fix s r s' assume "try_finally m f s = (r, s')"
  then show "R s s'"
    using assms by (auto simp: try_finally_def split: prod.splits sum.splits dest!: keepsD intro: trans)
qed

lemma keeps_if: "(b \<Longrightarrow> keeps R m) \<Longrightarrow> (\<not> b \<Longrightarrow> keeps R m') \<Longrightarrow> keeps R (if b then m else m')"
  by simp

lemma keeps_option:
  "(z = None \<Longrightarrow> keeps R m) \<Longrightarrow> (\<And>x. z = Some x \<Longrightarrow> keeps R (k x)) \<Longrightarrow>
   keeps R (case z of None \<Rightarrow> m | Some x \<Rightarrow> k x)"
  by (simp split: option.split)

lemma keeps_prod: "(\<And>x y. z = (x, y) \<Longrightarrow> keeps R (k x y)) \<Longrightarrow> keeps R (case z of (x, y) \<Rightarrow> k x y)"
  by (simp split: prod.split)

lemma keeps_let: "keeps R (k x) \<Longrightarrow> keeps R (let y = x in k y)"
  by simp

lemmas keeps_rules = keeps_ret keeps_raise keeps_get keeps_bindM keeps_thenM keeps_try_except
  keeps_try_finally keeps_if keeps_option keeps_prod keeps_let

end

end
