(* ===== verification/Proto_Msg.thy ===== *)
theory Proto_Msg
  imports Flipper_Prelude
begin

text \<open>
  The protobuf messages the RPC layer builds and reads.  The classes are generated from the
  schemas under \<^verbatim>\<open>proto/\<close> and serialised by the protobuf library; neither is code of the
  program, so the wire encoding is a parameter of the model and only the fields that the
  code sets or reads appear here, as the cases of the \<^verbatim>\<open>content\<close> oneof of \<^verbatim>\<open>PB.Main\<close>, the
  requests and the responses apart.  Strings and bytes are the schema's; the unsigned fields are naturals.
  \<^verbatim>\<open>msg.HasField("system_ping_response")\<close> is the discriminator \<open>is_PingResponse\<close> of a
  response, and reading the field is the selector.
\<close>

datatype file_type = FILE | DIR

record pb_file =
  f_type :: file_type
  f_name :: string
  f_size :: nat
  f_data :: bytes
  f_md5sum :: string

record pb_datetime =
  dt_year :: nat
  dt_month :: nat
  dt_day :: nat
  dt_hour :: nat
  dt_minute :: nat
  dt_second :: nat
  dt_weekday :: nat

datatype (plugins only: code size) request_body =
    PingRequest bytes
  | RebootRequestUpdate
  | DeviceInfoRequest
  | GetDateTimeRequest
  | ProtobufVersionRequest
  | UpdateRequest string
  | PowerInfoRequest
  | StorageInfoRequest string
  | StorageTimestampRequest string
  | StorageStatRequest string
  | StorageListRequest string bool nat
  | StorageReadRequest string
  | StorageWriteRequest string bytes
  | StorageDeleteRequest string bool
  | StorageMkdirRequest string
  | StorageMd5sumRequest string
  | StorageRenameRequest string string
  | AppStartRequest string string
  | LockStatusRequest
  | GetErrorRequest
  | GpioGetPinMode int
  | GpioReadPin int
  | PropertyGetRequest string
  | IsLockedRequest

datatype (plugins only: code size) response_body =
    PingResponse (ping_data: bytes)
  | DeviceInfoResponse (info_key: string) (info_value: string)
  | GetDateTimeResponse (datetime_of: pb_datetime)
  | ProtobufVersionResponse (version_major: nat) (version_minor: nat)
  | UpdateResponse (update_code: nat)
  | PowerInfoResponse (power_key: string) (power_value: string)
  | StorageInfoResponse (total_space: nat) (free_space: nat)
  | StorageTimestampResponse (timestamp_of: nat)
  | StorageStatResponse (stat_file: pb_file)
  | StorageListResponse (list_files: "pb_file list")
  | StorageReadResponse (read_file_of: pb_file)
  | StorageMd5sumResponse (md5sum_of: string)
  | LockStatusResponse (lock_state: bool)
  | GetErrorResponse (error_code: nat) (error_text: string)
  | GpioGetPinModeResponse (pin_mode: int)
  | GpioReadPinResponse (pin_value: nat)
  | PropertyGetResponse (property_key: string) (property_value: string)

datatype content =
    NoContent
  | Empty
  | StopSession
  | Request request_body
  | Response response_body
  | OtherContent

text \<open>\<^verbatim>\<open>PB.Main\<close>.  \<^verbatim>\<open>CommandStatus\<close> is an open proto3 enum, so it is a number.\<close>

record main_msg =
  command_id :: nat
  command_status :: nat
  has_next :: bool
  content :: content

definition STATUS_OK :: nat where "STATUS_OK = 0"
definition STATUS_ERROR :: nat where "STATUS_ERROR = 1"
definition ERROR_GPIO_UNKNOWN_PIN_MODE :: nat where "ERROR_GPIO_UNKNOWN_PIN_MODE = 59"

definition main_request :: "nat \<Rightarrow> bool \<Rightarrow> content \<Rightarrow> main_msg" where
  "main_request cid nxt c =
     \<lparr>command_id = cid, command_status = STATUS_OK, has_next = nxt, content = c\<rparr>"

lemma main_request_simps [simp]:
  "command_id (main_request i b c) = i"
  "command_status (main_request i b c) = STATUS_OK"
  "has_next (main_request i b c) = b"
  "content (main_request i b c) = c"
  by (simp_all add: main_request_def)

text \<open>\<^verbatim>\<open>m.HasField(f)\<close>, and the field when it is set.\<close>

definition has_field :: "(response_body \<Rightarrow> bool) \<Rightarrow> main_msg \<Rightarrow> bool" where
  "has_field p m = (case content m of Response r \<Rightarrow> p r | _ \<Rightarrow> False)"

definition field :: "(response_body \<Rightarrow> bool) \<Rightarrow> (response_body \<Rightarrow> 'a) \<Rightarrow> main_msg \<Rightarrow> 'a option" where
  "field p f m = (case content m of Response r \<Rightarrow> (if p r then Some (f r) else None) | _ \<Rightarrow> None)"

lemma field_Response [simp]:
  "content m = Response r \<Longrightarrow> field p f m = (if p r then Some (f r) else None)"
  by (simp add: field_def)

lemma field_None_iff: "field p f m = None \<longleftrightarrow> \<not> has_field p m"
  by (simp add: field_def has_field_def split: content.split)

end
