(* ===== verification/Platform.thy ===== *)
theory Platform
  imports Proto_Msg
begin

text \<open>
  The platform the program runs on: the clock, the event loop's awaits, sleeps, timeouts and
  lock, and the operations of the libraries that reach the device.  Those libraries
  (pyserial, the operating system's sockets, the protobuf runtime) are a record of functions
  over an arbitrary device state, so that every theorem holds for every device and every
  schedule of answers.
\<close>

section \<open>The platform parameter\<close>

text \<open>
  An operation of the platform is told how long it may wait before it is cancelled (if at
  all) and the clock's reading; it returns its outcome, the nanoseconds it took, and the
  device state it leaves.
\<close>

type_synonym ('d, 'a) platform_op =
  "nat option \<Rightarrow> nat \<Rightarrow> 'd \<Rightarrow> (exn + 'a) \<times> nat \<times> 'd"

record port_info =
  pi_device :: string
  pi_vid :: "int option"
  pi_pid :: "int option"
  pi_description :: string

record 'd platform =
  serial_open :: "string \<Rightarrow> int \<Rightarrow> nat \<Rightarrow> ('d, unit) platform_op"
  serial_is_open :: "'d \<Rightarrow> bool"
  serial_close :: "('d, unit) platform_op"
  serial_write :: "bytes \<Rightarrow> ('d, unit) platform_op"
  serial_read :: "nat \<Rightarrow> nat \<Rightarrow> ('d, bytes) platform_op"
  comports :: "'d \<Rightarrow> port_info list"
  path_exists :: "string \<Rightarrow> 'd \<Rightarrow> bool"
  system_name :: string
  tcp_open :: "string \<Rightarrow> int \<Rightarrow> ('d, unit) platform_op"
  tcp_read :: "nat \<Rightarrow> ('d, bytes) platform_op"
  tcp_write :: "bytes \<Rightarrow> ('d, unit) platform_op"
  tcp_close :: "('d, unit) platform_op"
  tcp_is_closing :: "'d \<Rightarrow> bool"
  environ :: "string \<Rightarrow> string option"
  serialize :: "main_msg \<Rightarrow> bytes"
  parse :: "bytes \<Rightarrow> main_msg option"
  utf8_decode :: "bytes \<Rightarrow> string"
  utc_isoformat :: "nat \<Rightarrow> string"

section \<open>The world\<close>

text \<open>
  \<open>now\<close> is the monotonic clock in nanoseconds, \<open>cancel_at\<close> the deadline of the enclosing
  \<^verbatim>\<open>asyncio.wait_for\<close>s, \<open>io_locked\<close> the shared I/O lock.  \<open>tx_log\<close> is a ghost: the
  byte strings handed to the serial port or the socket, oldest first; \<open>tx_free\<close> is another: those of them
  that were written while nobody held the lock.  The later
  components extend this record with their own objects.
\<close>

record 'd world =
  dev :: 'd
  now :: nat
  cancel_at :: "nat option"
  io_locked :: bool
  tx_log :: "bytes list"
  tx_free :: "bytes list"

abbreviation seconds :: "nat \<Rightarrow> nat" where
  "seconds n \<equiv> n * 1000000000"

abbreviation millis :: "nat \<Rightarrow> nat" where
  "millis n \<equiv> n * 1000000"

section \<open>Awaiting, sleeping, reading the clock\<close>

text \<open>
  An await takes at least one tick.  When it would end after the cancellation deadline the
  task is woken at the deadline by \<open>Cancelled\<close>; the operation itself has been started, so
  its effect on the device stays.
\<close>

definition await_io :: "('d, 'a) platform_op \<Rightarrow> (('d, 'z) world_scheme, 'a) action" where
  "await_io f w =
     (case f (map_option (\<lambda>c. c - now w) (cancel_at w)) (now w) (dev w) of (r, dt, d) \<Rightarrow>
        (case cancel_at w of
           None \<Rightarrow> (r, w\<lparr>dev := d, now := now w + Suc dt\<rparr>)
         | Some c \<Rightarrow>
             (if c < now w + Suc dt then (Inl Cancelled, w\<lparr>dev := d, now := max (now w) c\<rparr>)
              else (r, w\<lparr>dev := d, now := now w + Suc dt\<rparr>))))"

text \<open>A blocking call of the same library, made without an await, is no cancellation point.\<close>

definition block_io :: "('d, 'a) platform_op \<Rightarrow> (('d, 'z) world_scheme, 'a) action" where
  "block_io f w =
     (case f None (now w) (dev w) of (r, dt, d) \<Rightarrow> (r, w\<lparr>dev := d, now := now w + Suc dt\<rparr>))"

definition sleep :: "nat \<Rightarrow> (('d, 'z) world_scheme, unit) action" where
  "sleep t = await_io (\<lambda>_ _ d. (Inr (), t, d))"

definition monotonic :: "(('d, 'z) world_scheme, nat) action" where
  "monotonic w = (Inr (now w), w\<lparr>now := Suc (now w)\<rparr>)"

text \<open>
  \<^verbatim>\<open>asyncio.wait_for(m, timeout)\<close>: the body runs under the nearer of its own and the
  enclosing deadline; a cancellation at its own deadline becomes \<^verbatim>\<open>TimeoutError\<close>, one at
  the enclosing deadline passes on.
\<close>

definition wait_for :: "nat \<Rightarrow> (('d, 'z) world_scheme, 'a) action \<Rightarrow> (('d, 'z) world_scheme, 'a) action" where
  "wait_for t m w =
     (let outer = cancel_at w; own = now w + t;
          mine = (case outer of None \<Rightarrow> True | Some c \<Rightarrow> own < c)
      in case m (w\<lparr>cancel_at := Some (if mine then own else the outer)\<rparr>) of
           (r, w') \<Rightarrow>
             (if r = Inl Cancelled \<and> mine then (Inl TimeoutError, w'\<lparr>cancel_at := outer\<rparr>)
              else (r, w'\<lparr>cancel_at := outer\<rparr>)))"

text \<open>
  \<^verbatim>\<open>async with self._io_lock\<close>.  The lock is not reentrant: acquiring it while the running
  task holds it never returns.
\<close>

definition with_lock :: "(('d, 'z) world_scheme, 'a) action \<Rightarrow> (('d, 'z) world_scheme, 'a) action" where
  "with_lock m w =
     (if io_locked w then (Inl Deadlock, w)
      else case m (w\<lparr>io_locked := True\<rparr>) of (r, w') \<Rightarrow> (r, w'\<lparr>io_locked := False\<rparr>))"

section \<open>What the primitives keep\<close>

text \<open>The frame of every lower layer: the clock does not go back, the enclosing deadline and
  the lock are as they were, the transmit log only grows, and what is written under the lock or not at all
  is not written without the lock.\<close>

definition io_frame :: "('d, 'z) world_scheme \<Rightarrow> ('d, 'z) world_scheme \<Rightarrow> bool" where
  "io_frame w w' \<longleftrightarrow> now w \<le> now w' \<and> cancel_at w' = cancel_at w \<and> io_locked w' = io_locked w \<and>
     (\<exists>sent. tx_log w' = tx_log w @ sent) \<and> (tx_log w' = tx_log w \<or> io_locked w \<longrightarrow> tx_free w' = tx_free w)"

interpretation io: frame_rel io_frame
proof
  fix w w' w'' :: "('d, 'z) world_scheme"
  show "io_frame w w" by (simp add: io_frame_def)
  assume "io_frame w w'" and "io_frame w' w''"
  then show "io_frame w w''" by (auto simp: io_frame_def)
qed

lemma io_frame_simps:
  "io_frame w w' \<Longrightarrow> now w \<le> now w'"
  "io_frame w w' \<Longrightarrow> cancel_at w' = cancel_at w"
  "io_frame w w' \<Longrightarrow> io_locked w' = io_locked w"
  by (simp_all add: io_frame_def)

lemma await_io_keeps [intro]: "keeps io_frame (await_io f)"
  by (auto simp: keeps_def await_io_def io_frame_def split: prod.splits option.splits)

lemma block_io_keeps [intro]: "keeps io_frame (block_io f)"
  by (auto simp: keeps_def block_io_def io_frame_def split: prod.splits)

lemma sleep_keeps [intro]: "keeps io_frame (sleep t)"
  by (auto simp: sleep_def)

lemma monotonic_keeps [intro]: "keeps io_frame monotonic"
  by (auto simp: keeps_def monotonic_def io_frame_def)

lemma wait_for_keeps [intro]:
  assumes "keeps io_frame m"
  shows "keeps io_frame (wait_for t m)"
proof (rule keepsI)
  fix w r w' assume run: "wait_for t m w = (r, w')"
  let ?v = "w\<lparr>cancel_at := Some (if case cancel_at w of None \<Rightarrow> True | Some c \<Rightarrow> now w + t < c
              then now w + t else the (cancel_at w))\<rparr>"
  obtain r' v where v: "m ?v = (r', v)" by fastforce
  with assms have "io_frame ?v v" by (rule keepsD)
  moreover have "w' = v\<lparr>cancel_at := cancel_at w\<rparr>"
    using run v by (auto simp: wait_for_def Let_def split: if_splits)
  ultimately show "io_frame w w'" by (auto simp: io_frame_def)
qed

lemma with_lock_keeps [intro]:
  assumes "keeps io_frame m"
  shows "keeps io_frame (with_lock m)"
proof (rule keepsI)
  fix w r w' assume run: "with_lock m w = (r, w')"
  obtain r' v where v: "m (w\<lparr>io_locked := True\<rparr>) = (r', v)" by fastforce
  with assms have "io_frame (w\<lparr>io_locked := True\<rparr>) v" by (rule keepsD)
  with run v show "io_frame w w'"
    by (auto simp: with_lock_def io_frame_def split: if_splits)
qed

text \<open>The clock moves on whenever an await returns a value.\<close>

lemma await_io_Inr_later: "await_io f w = (Inr x, w') \<Longrightarrow> now w < now w'"
  by (auto simp: await_io_def split: prod.splits option.splits if_splits)

lemma monotonic_run: "monotonic w = (Inr (now w), w\<lparr>now := Suc (now w)\<rparr>)"
  by (simp add: monotonic_def)

end
