(* ===== verification/Transport.thy ===== *)
theory Transport
  imports Platform Py_Text
begin

text \<open>
  The transports (\<^verbatim>\<open>transport/base.py\<close>, \<^verbatim>\<open>usb.py\<close>, \<^verbatim>\<open>wifi.py\<close>, \<^verbatim>\<open>auto.py\<close>).  The
  methods of the three classes act on the transport objects kept in the world; a call
  through the abstract base class is a case on the class of the client's transport.
\<close>

section \<open>Transport objects\<close>

record usb_config =
  uc_port :: "string option"
  uc_baudrate :: "int option"
  uc_timeout :: "nat option"

record wifi_config =
  wc_host :: "string option"
  wc_port :: "int option"
  wc_connect_timeout :: "nat option"
  wc_read_chunk_size :: "nat option"

record usb_transport =
  u_port :: string
  u_baudrate :: int
  u_timeout :: nat
  u_serial :: bool
  u_connected :: bool

record wifi_transport =
  w_host :: string
  w_port :: int
  w_connect_timeout :: nat
  w_read_chunk_size :: nat
  w_reader :: bool
  w_writer :: bool
  w_connected :: bool

datatype link_class = USB | WiFi

record auto_transport =
  a_usb_config :: usb_config
  a_wifi_config :: wifi_config
  a_active :: "link_class option"
  a_connected :: bool

datatype transport_class = USBTransport | WiFiTransport | AutoTransport

text \<open>
  \<open>t_class\<close> is the class of the client's transport.  The automatic transport holds at most
  one underlying object; \<open>t_usb\<close> and \<open>t_wifi\<close> are the most recent object of each class.
  \<open>rx_buffer\<close> is the receive buffer of the client's transport: \<^verbatim>\<open>receive_exact\<close> is only
  called on that object, so the buffers of the objects inside an automatic transport stay
  empty.
\<close>

record 'd tworld = "'d world" +
  t_class :: transport_class
  t_usb :: usb_transport
  t_wifi :: wifi_transport
  t_auto :: auto_transport
  rx_buffer :: bytes

definition clear_receive_buffer :: "(('d, 'z) tworld_scheme, unit) action" where
  "clear_receive_buffer = modify (\<lambda>w. w\<lparr>rx_buffer := []\<rparr>)"

section \<open>USB serial\<close>

definition FLIPPER_VID :: int where "FLIPPER_VID = 0x0483"
definition FLIPPER_PID :: int where "FLIPPER_PID = 0x5740"

definition is_flipper_port :: "string \<Rightarrow> port_info \<Rightarrow> bool" where
  "is_flipper_port system p \<longleftrightarrow>
     (pi_vid p = Some FLIPPER_VID \<and> pi_pid p = Some FLIPPER_PID) \<or>
     str_in ''Flipper'' (pi_description p) \<or>
     (system = ''Darwin'' \<and> str_in ''usbmodem'' (lower (pi_device p)) \<and>
      str_in ''flip'' (lower (pi_device p)))"

definition prefer_cu_device :: "'d platform \<Rightarrow> 'd \<Rightarrow> string \<Rightarrow> string" where
  "prefer_cu_device P d device =
     (if system_name P = ''Darwin'' \<and> startswith device ''/dev/tty.''
      then let cu = replace device ''/dev/tty.'' ''/dev/cu.''
           in if path_exists P cu d then cu else device
      else device)"

definition auto_detect_port :: "'d platform \<Rightarrow> 'd \<Rightarrow> string" where
  "auto_detect_port P d =
     (case filter (is_flipper_port (system_name P)) (comports P d) of
        p # _ \<Rightarrow> prefer_cu_device P d (pi_device p)
      | [] \<Rightarrow> (if system_name P = ''Darwin'' then ''/dev/tty.usbmodemflip_1'' else ''/dev/ttyACM0''))"

definition usb_new :: "'d platform \<Rightarrow> usb_config \<Rightarrow> 'd \<Rightarrow> usb_transport" where
  "usb_new P cfg d =
     \<lparr>u_port = (case uc_port cfg of
                  None \<Rightarrow> auto_detect_port P d
                | Some p \<Rightarrow> if p = [] then auto_detect_port P d else p),
      u_baudrate = (case uc_baudrate cfg of None \<Rightarrow> 115200 | Some b \<Rightarrow> b),
      u_timeout = (case uc_timeout cfg of None \<Rightarrow> seconds 1 | Some t \<Rightarrow> t),
      u_serial = False, u_connected = False\<rparr>"

definition usb_is_open :: "'d platform \<Rightarrow> ('d, 'z) tworld_scheme \<Rightarrow> bool" where
  "usb_is_open P w \<longleftrightarrow> u_serial (t_usb w) \<and> serial_is_open P (dev w)"

definition set_usb_connected :: "bool \<Rightarrow> (('d, 'z) tworld_scheme, unit) action" where
  "set_usb_connected b = modify (\<lambda>w. w\<lparr>t_usb := (t_usb w)\<lparr>u_connected := b\<rparr>\<rparr>)"

definition usb_connect :: "'d platform \<Rightarrow> (('d, 'z) tworld_scheme, bool) action" where
  "usb_connect P =
     try_except is_os_error
       (bindM (get t_usb) (\<lambda>u.
        thenM (block_io (serial_open P (u_port u) (u_baudrate u) (u_timeout u)))
        (thenM (modify (\<lambda>w. w\<lparr>t_usb := (t_usb w)\<lparr>u_serial := True\<rparr>\<rparr>))
        (thenM (sleep (millis 500))
        (thenM (set_usb_connected True) (ret True))))))
       (\<lambda>_. thenM (set_usb_connected False) (ret False))"

definition usb_disconnect :: "'d platform \<Rightarrow> (('d, 'z) tworld_scheme, unit) action" where
  "usb_disconnect P =
     bindM (get (usb_is_open P)) (\<lambda>is_open.
     thenM (if is_open then block_io (serial_close P) else ret ())
     (set_usb_connected False))"

definition log_tx :: "bytes \<Rightarrow> (('d, 'z) world_scheme, unit) action" where
  "log_tx data = modify (\<lambda>w. w\<lparr>tx_log := tx_log w @ [data], tx_free := tx_free w @ (if io_locked w then [] else [data])\<rparr>)"

definition usb_send :: "'d platform \<Rightarrow> bytes \<Rightarrow> (('d, 'z) tworld_scheme, unit) action" where
  "usb_send P data =
     bindM (get (usb_is_open P)) (\<lambda>is_open.
     if \<not> is_open then raise (RuntimeError ''USB not connected'')
     else thenM (log_tx data) (await_io (serial_write P data)))"

definition usb_receive :: "'d platform \<Rightarrow> nat option \<Rightarrow> (('d, 'z) tworld_scheme, bytes) action" where
  "usb_receive P timeout =
     bindM (get (usb_is_open P)) (\<lambda>is_open.
     if \<not> is_open then raise (RuntimeError ''USB not connected'')
     else bindM (get (u_timeout \<circ> t_usb)) (\<lambda>old_timeout.
          await_io (serial_read P 4096 (case timeout of None \<Rightarrow> old_timeout | Some t \<Rightarrow> t))))"

definition usb_is_connected :: "'d platform \<Rightarrow> (('d, 'z) tworld_scheme, bool) action" where
  "usb_is_connected P = get (\<lambda>w. u_connected (t_usb w) \<and> usb_is_open P w)"

section \<open>WiFi (TCP to the ESP32 bridge)\<close>

definition wifi_new :: "wifi_config \<Rightarrow> wifi_transport" where
  "wifi_new cfg =
     \<lparr>w_host = (case wc_host cfg of None \<Rightarrow> ''192.168.1.1'' | Some h \<Rightarrow> h),
      w_port = (case wc_port cfg of None \<Rightarrow> 8080 | Some p \<Rightarrow> p),
      w_connect_timeout = (case wc_connect_timeout cfg of None \<Rightarrow> seconds 3 | Some t \<Rightarrow> t),
      w_read_chunk_size = (case wc_read_chunk_size cfg of None \<Rightarrow> 4096 | Some n \<Rightarrow> n),
      w_reader = False, w_writer = False, w_connected = False\<rparr>"

definition set_wifi :: "(wifi_transport \<Rightarrow> wifi_transport) \<Rightarrow> (('d, 'z) tworld_scheme, unit) action" where
  "set_wifi f = modify (\<lambda>w. w\<lparr>t_wifi := f (t_wifi w)\<rparr>)"

text \<open>One pass of the drain reads with a timeout of 10 ms; \<open>None\<close> ends the loop.\<close>

definition drain_read :: "'d platform \<Rightarrow> (('d, 'z) tworld_scheme, bytes) action" where
  "drain_read P =
     bindM (get (w_read_chunk_size \<circ> t_wifi)) (\<lambda>n.
     try_except (\<lambda>e. e = TimeoutError) (wait_for (millis 10) (await_io (tcp_read P n))) (\<lambda>_. ret []))"

subsection \<open>The frame of the transport layer\<close>

text \<open>
  What every transport method leaves alone: the base frame, the class of the client's
  transport, and all that the later components keep in the world.
\<close>

definition t_frame :: "('d, 'z) tworld_scheme \<Rightarrow> ('d, 'z) tworld_scheme \<Rightarrow> bool" where
  "t_frame w w' \<longleftrightarrow> io_frame w w' \<and> t_class w' = t_class w \<and> tworld.more w' = tworld.more w"

interpretation tf: frame_rel t_frame
proof
  fix w w' w'' :: "('d, 'z) tworld_scheme"
  show "t_frame w w" by (simp add: t_frame_def io.refl)
  assume "t_frame w w'" and "t_frame w' w''"
  then show "t_frame w w''" by (auto simp: t_frame_def intro: io.trans)
qed

text \<open>The transport proper: the objects and the receive buffer too are as they were.\<close>

definition link_frame :: "('d, 'z) tworld_scheme \<Rightarrow> ('d, 'z) tworld_scheme \<Rightarrow> bool" where
  "link_frame w w' \<longleftrightarrow> io_frame w w' \<and> world.more w' = world.more w"

interpretation lf: frame_rel link_frame
proof
  fix w w' w'' :: "('d, 'z) tworld_scheme"
  show "link_frame w w" by (simp add: link_frame_def io.refl)
  assume "link_frame w w'" and "link_frame w' w''"
  then show "link_frame w w''" by (auto simp: link_frame_def intro: io.trans)
qed

lemma link_frame_fields:
  assumes "link_frame w w'"
  shows "t_class w' = t_class w" "t_usb w' = t_usb w" "t_wifi w' = t_wifi w" "t_auto w' = t_auto w"
    "rx_buffer w' = rx_buffer w" "tworld.more w' = tworld.more w"
  using assms by (cases w; cases w'; simp add: link_frame_def)+

lemma link_frame_t_frame: "link_frame w w' \<Longrightarrow> t_frame w w'"
  by (simp add: t_frame_def link_frame_fields) (simp add: link_frame_def)

lemma await_io_link [intro]: "keeps link_frame (await_io f)"
  using await_io_keeps [of f]
  by (auto simp: keeps_def link_frame_def) (auto simp: await_io_def split: prod.splits option.splits)

lemma block_io_link [intro]: "keeps link_frame (block_io f)"
  using block_io_keeps [of f]
  by (auto simp: keeps_def link_frame_def) (auto simp: block_io_def split: prod.splits)

lemma sleep_link [intro]: "keeps link_frame (sleep t)"
  by (auto simp: sleep_def)

lemma monotonic_link [intro]: "keeps link_frame monotonic"
  by (auto simp: keeps_def monotonic_def io_frame_def link_frame_def)

lemma log_tx_link [intro]: "keeps link_frame (log_tx data)"
  by (auto simp: keeps_def log_tx_def modify_def io_frame_def link_frame_def)

lemma wait_for_link [intro]:
  assumes "keeps link_frame m"
  shows "keeps link_frame (wait_for t m)"
proof (rule keepsI)
  fix w r w' assume run: "wait_for t m w = (r, w')"
  have "keeps io_frame m" using assms by (rule keeps_mono) (simp add: link_frame_def)
  then have "io_frame w w'" using run by (blast dest: keepsD wait_for_keeps)
  moreover have "world.more w' = world.more w"
    using run assms [THEN keepsD]
    by (auto simp: wait_for_def Let_def link_frame_def split: if_splits prod.splits)
  ultimately show "link_frame w w'" by (simp add: link_frame_def)
qed

lemma link_keeps_t_frame: "keeps link_frame m \<Longrightarrow> keeps t_frame m"
  by (erule keeps_mono) (rule link_frame_t_frame)

lemmas link_rules = lf.keeps_rules await_io_link block_io_link sleep_link monotonic_link log_tx_link
  wait_for_link

lemma modify_t_frame:
  "(\<And>w. io_frame w (f w) \<and> t_class (f w) = t_class w \<and> tworld.more (f w) = tworld.more w) \<Longrightarrow>
   keeps t_frame (modify f)"
  by (simp add: keeps_def modify_def t_frame_def)

lemma t_modifies [intro]:
  "keeps t_frame (modify (\<lambda>w. w\<lparr>t_usb := g1 w\<rparr>))"
  "keeps t_frame (modify (\<lambda>w. w\<lparr>t_wifi := g2 w\<rparr>))"
  "keeps t_frame (modify (\<lambda>w. w\<lparr>t_auto := g3 w\<rparr>))"
  "keeps t_frame (modify (\<lambda>w. w\<lparr>rx_buffer := g4 w\<rparr>))"
  by (simp_all add: modify_t_frame io_frame_def)

lemma usb_send_link [intro]: "keeps link_frame (usb_send P data)"
  unfolding usb_send_def by (intro link_rules)

lemma usb_receive_link [intro]: "keeps link_frame (usb_receive P timeout)"
  unfolding usb_receive_def by (intro link_rules)

lemma drain_read_link [intro]: "keeps link_frame (drain_read P)"
  unfolding drain_read_def by (intro link_rules)

lemma drain_read_later: "(r, w') = drain_read P (w\<lparr>now := Suc (now w)\<rparr>) \<Longrightarrow> now w < now w'"
  using keepsD [OF drain_read_link [of P], of "w\<lparr>now := Suc (now w)\<rparr>" r w']
  by (simp add: link_frame_def io_frame_def)

subsection \<open>WiFi, continued\<close>

text \<open>\<^verbatim>\<open>_drain_socket_buffer\<close>: read while data is there and the deadline has not passed.\<close>

function drain_socket_loop ::
  "'d platform \<Rightarrow> nat \<Rightarrow> ('d, 'z) tworld_scheme \<Rightarrow> (exn + unit) \<times> ('d, 'z) tworld_scheme" where
  "drain_socket_loop P deadline w =
     (if now w < deadline
      then case drain_read P (w\<lparr>now := Suc (now w)\<rparr>) of
             (Inl e, w') \<Rightarrow> (Inl e, w')
           | (Inr chunk, w') \<Rightarrow> (if chunk = [] then sleep 0 w' else drain_socket_loop P deadline w')
      else (Inr (), w\<lparr>now := Suc (now w)\<rparr>))"
  by pat_completeness auto
termination
  by (relation "measure (\<lambda>(P, deadline, w). deadline - now w)") (auto dest!: drain_read_later)

declare drain_socket_loop.simps [simp del]

definition drain_socket_buffer :: "'d platform \<Rightarrow> nat \<Rightarrow> (('d, 'z) tworld_scheme, unit) action" where
  "drain_socket_buffer P max_ns =
     bindM (get (w_reader \<circ> t_wifi)) (\<lambda>reader.
     if \<not> reader then ret ()
     else try_except is_os_error
            (bindM monotonic (\<lambda>t. drain_socket_loop P (t + max_ns)))
            (\<lambda>_. ret ()))"

definition wifi_connect :: "'d platform \<Rightarrow> (('d, 'z) tworld_scheme, bool) action" where
  "wifi_connect P =
     try_except is_os_error
       (bindM (get t_wifi) (\<lambda>t.
        thenM (wait_for (w_connect_timeout t) (await_io (tcp_open P (w_host t) (w_port t))))
        (thenM (set_wifi (\<lambda>t. t\<lparr>w_reader := True, w_writer := True\<rparr>))
        (thenM (set_wifi (\<lambda>t. t\<lparr>w_connected := True\<rparr>))
        (thenM clear_receive_buffer
        (thenM (drain_socket_buffer P (millis 200)) (ret True)))))))
       (\<lambda>_. thenM (set_wifi (\<lambda>t. t\<lparr>w_connected := False\<rparr>)) (ret False))"

definition wifi_disconnect :: "'d platform \<Rightarrow> (('d, 'z) tworld_scheme, unit) action" where
  "wifi_disconnect P =
     thenM (try_finally
              (bindM (get (w_writer \<circ> t_wifi)) (\<lambda>writer.
               if writer then await_io (tcp_close P) else ret ()))
              (set_wifi (\<lambda>t. t\<lparr>w_reader := False, w_writer := False\<rparr>)))
     (set_wifi (\<lambda>t. t\<lparr>w_connected := False\<rparr>))"

definition wifi_send :: "'d platform \<Rightarrow> bytes \<Rightarrow> (('d, 'z) tworld_scheme, unit) action" where
  "wifi_send P data =
     bindM (get (w_writer \<circ> t_wifi)) (\<lambda>writer.
     if \<not> writer then raise (RuntimeError ''WiFi not connected'')
     else thenM (log_tx data) (await_io (tcp_write P data)))"

definition is_connection_dropped :: "exn \<Rightarrow> bool" where
  "is_connection_dropped e \<longleftrightarrow> (\<exists>m. e = ConnectionResetError m) \<or> (\<exists>m. e = BrokenPipeError m)"

definition wifi_receive :: "'d platform \<Rightarrow> nat option \<Rightarrow> (('d, 'z) tworld_scheme, bytes) action" where
  "wifi_receive P timeout =
     bindM (get (w_reader \<circ> t_wifi)) (\<lambda>reader.
     if \<not> reader then raise (RuntimeError ''WiFi not connected'')
     else try_except is_connection_dropped
            (try_except (\<lambda>e. e = TimeoutError)
               (bindM (get (w_read_chunk_size \<circ> t_wifi)) (\<lambda>n.
                case timeout of
                  None \<Rightarrow> await_io (tcp_read P n)
                | Some t \<Rightarrow> (if t = 0 then ret [] else wait_for t (await_io (tcp_read P n)))))
               (\<lambda>_. ret []))
            (\<lambda>_. thenM (set_wifi (\<lambda>t. t\<lparr>w_connected := False\<rparr>)) (ret [])))"

definition wifi_is_connected :: "'d platform \<Rightarrow> (('d, 'z) tworld_scheme, bool) action" where
  "wifi_is_connected P =
     get (\<lambda>w. w_connected (t_wifi w) \<and> w_writer (t_wifi w) \<and> \<not> tcp_is_closing P (dev w))"

lemma is_connection_dropped_code [code]:
  "is_connection_dropped e \<longleftrightarrow>
     (case e of ConnectionResetError _ \<Rightarrow> True | BrokenPipeError _ \<Rightarrow> True | _ \<Rightarrow> False)"
  by (cases e) (simp_all add: is_connection_dropped_def)

section \<open>Automatic selection\<close>

definition set_auto :: "(auto_transport \<Rightarrow> auto_transport) \<Rightarrow> (('d, 'z) tworld_scheme, unit) action" where
  "set_auto f = modify (\<lambda>w. w\<lparr>t_auto := f (t_auto w)\<rparr>)"

definition wifi_is_configured :: "auto_transport \<Rightarrow> bool" where
  "wifi_is_configured a =
     (case wc_host (a_wifi_config a) of None \<Rightarrow> False | Some h \<Rightarrow> h \<noteq> [] \<and> strip h \<noteq> [])"

definition auto_select :: "link_class \<Rightarrow> (('d, 'z) tworld_scheme, bool) action" where
  "auto_select c =
     thenM (set_auto (\<lambda>a. a\<lparr>a_active := Some c\<rparr>))
     (thenM (set_auto (\<lambda>a. a\<lparr>a_connected := True\<rparr>))
     (thenM clear_receive_buffer (ret True)))"

definition auto_connect :: "'d platform \<Rightarrow> (('d, 'z) tworld_scheme, bool) action" where
  "auto_connect P =
     thenM (modify (\<lambda>w. w\<lparr>t_usb := usb_new P (a_usb_config (t_auto w)) (dev w)\<rparr>))
     (bindM (usb_connect P) (\<lambda>ok.
      if ok then auto_select USB
      else bindM (get (wifi_is_configured \<circ> t_auto)) (\<lambda>configured.
           bindM (if configured
                  then thenM (modify (\<lambda>w. w\<lparr>t_wifi := wifi_new (a_wifi_config (t_auto w))\<rparr>)) (wifi_connect P)
                  else ret False) (\<lambda>ok.
           if ok then auto_select WiFi
           else thenM (set_auto (\<lambda>a. a\<lparr>a_active := None, a_connected := False\<rparr>)) (ret False)))))"

definition auto_disconnect :: "'d platform \<Rightarrow> (('d, 'z) tworld_scheme, unit) action" where
  "auto_disconnect P =
     try_finally
       (bindM (get (a_active \<circ> t_auto)) (\<lambda>active.
        case active of None \<Rightarrow> ret ()
        | Some c \<Rightarrow> (case c of USB \<Rightarrow> usb_disconnect P | WiFi \<Rightarrow> wifi_disconnect P)))
       (thenM (set_auto (\<lambda>a. a\<lparr>a_active := None, a_connected := False\<rparr>)) clear_receive_buffer)"

definition auto_send :: "'d platform \<Rightarrow> bytes \<Rightarrow> (('d, 'z) tworld_scheme, unit) action" where
  "auto_send P data =
     bindM (get (a_active \<circ> t_auto)) (\<lambda>active.
     case active of None \<Rightarrow> raise (RuntimeError ''Auto transport has no active connection'')
     | Some c \<Rightarrow> (case c of USB \<Rightarrow> usb_send P data | WiFi \<Rightarrow> wifi_send P data))"

definition auto_receive :: "'d platform \<Rightarrow> nat option \<Rightarrow> (('d, 'z) tworld_scheme, bytes) action" where
  "auto_receive P timeout =
     bindM (get (a_active \<circ> t_auto)) (\<lambda>active.
     case active of None \<Rightarrow> raise (RuntimeError ''Auto transport has no active connection'')
     | Some c \<Rightarrow> (case c of USB \<Rightarrow> usb_receive P timeout | WiFi \<Rightarrow> wifi_receive P timeout))"

definition auto_is_connected :: "'d platform \<Rightarrow> (('d, 'z) tworld_scheme, bool) action" where
  "auto_is_connected P =
     bindM (get (a_active \<circ> t_auto)) (\<lambda>active.
     case active of None \<Rightarrow> ret False
     | Some c \<Rightarrow> try_except is_os_or_runtime
                   (case c of USB \<Rightarrow> usb_is_connected P | WiFi \<Rightarrow> wifi_is_connected P)
                   (\<lambda>_. ret False))"

section \<open>Calls through the base class\<close>

definition transport_connect :: "'d platform \<Rightarrow> (('d, 'z) tworld_scheme, bool) action" where
  "transport_connect P w =
     (case t_class w of USBTransport \<Rightarrow> usb_connect P w | WiFiTransport \<Rightarrow> wifi_connect P w
      | AutoTransport \<Rightarrow> auto_connect P w)"

definition transport_disconnect :: "'d platform \<Rightarrow> (('d, 'z) tworld_scheme, unit) action" where
  "transport_disconnect P w =
     (case t_class w of USBTransport \<Rightarrow> usb_disconnect P w | WiFiTransport \<Rightarrow> wifi_disconnect P w
      | AutoTransport \<Rightarrow> auto_disconnect P w)"

definition transport_send :: "'d platform \<Rightarrow> bytes \<Rightarrow> (('d, 'z) tworld_scheme, unit) action" where
  "transport_send P data w =
     (case t_class w of USBTransport \<Rightarrow> usb_send P data w | WiFiTransport \<Rightarrow> wifi_send P data w
      | AutoTransport \<Rightarrow> auto_send P data w)"

definition transport_receive :: "'d platform \<Rightarrow> nat option \<Rightarrow> (('d, 'z) tworld_scheme, bytes) action" where
  "transport_receive P timeout w =
     (case t_class w of USBTransport \<Rightarrow> usb_receive P timeout w
      | WiFiTransport \<Rightarrow> wifi_receive P timeout w | AutoTransport \<Rightarrow> auto_receive P timeout w)"

definition transport_is_connected :: "'d platform \<Rightarrow> (('d, 'z) tworld_scheme, bool) action" where
  "transport_is_connected P w =
     (case t_class w of USBTransport \<Rightarrow> usb_is_connected P w
      | WiFiTransport \<Rightarrow> wifi_is_connected P w | AutoTransport \<Rightarrow> auto_is_connected P w)"

definition get_name :: "('d, 'z) tworld_scheme \<Rightarrow> string" where
  "get_name w =
     (case t_class w of USBTransport \<Rightarrow> ''USB'' | WiFiTransport \<Rightarrow> ''WiFi''
      | AutoTransport \<Rightarrow> (case a_active (t_auto w) of None \<Rightarrow> ''Auto''
                          | Some USB \<Rightarrow> ''USB'' | Some WiFi \<Rightarrow> ''WiFi''))"

text \<open>\<^verbatim>\<open>WiFiTransport\<close> overrides the property of the base class; \<^verbatim>\<open>AutoTransport\<close> does not.\<close>

definition supports_cli_text_mode :: "('d, 'z) tworld_scheme \<Rightarrow> bool" where
  "supports_cli_text_mode w = (case t_class w of WiFiTransport \<Rightarrow> False | _ \<Rightarrow> True)"

text \<open>\<^verbatim>\<open>hasattr(transport, "host")\<close>.\<close>

definition has_host :: "('d, 'z) tworld_scheme \<Rightarrow> bool" where
  "has_host w \<longleftrightarrow> t_class w = WiFiTransport"

end
