(* ===== verification/Transport_Base.thy ===== *)
theory Transport_Base
  imports Transport
begin

text \<open>
  The abstract base class \<^verbatim>\<open>FlipperTransport\<close> as an interface: what its clients may rely on
  when they send and receive, shown for the three transports and for the dispatching calls,
  and \<^verbatim>\<open>receive_exact\<close>, the buffered read on which all framing rests.
\<close>

section \<open>The contract of a transport\<close>

locale flipper_transport =
  fixes send :: "bytes \<Rightarrow> (('d, 'z) tworld_scheme, unit) action"
    and receive :: "nat option \<Rightarrow> (('d, 'z) tworld_scheme, bytes) action"
  assumes send_link: "keeps link_frame (send data)"
    and send_logged: "send data w = (Inr x, w') \<Longrightarrow> tx_log w' = tx_log w @ [data]"
    and send_log_cases: "send data w = (r, w') \<Longrightarrow> tx_log w' = tx_log w \<or> tx_log w' = tx_log w @ [data]"
    and receive_frame: "keeps t_frame (receive timeout)"
    and receive_quiet: "receive timeout w = (y, w') \<Longrightarrow> rx_buffer w' = rx_buffer w \<and> tx_log w' = tx_log w"
begin

primrec send_all :: "bytes list \<Rightarrow> (('d, 'z) tworld_scheme, unit) action" where
  "send_all [] = ret ()"
| "send_all (b # bs) = thenM (send b) (send_all bs)"

lemma send_buffer: "send data w = (r, w') \<Longrightarrow> rx_buffer w' = rx_buffer w"
  using keepsD [OF send_link] link_frame_fields(5) by blast

lemma send_all_link: "keeps link_frame (send_all bs)"
  by (induction bs) (auto intro!: lf.keeps_rules send_link)

text \<open>A sequence of sends puts exactly these byte strings on the wire, in order; an exception
  part way leaves a prefix of them there.\<close>

lemma send_all_logged: "send_all bs w = (Inr x, w') \<Longrightarrow> tx_log w' = tx_log w @ bs"
  by (induction bs arbitrary: w)
    (auto simp: ret_def thenM_def elim!: bindM_InrE dest!: send_logged)

lemma send_all_prefix: "send_all bs w = (r, w') \<Longrightarrow> \<exists>sent rest. bs = sent @ rest \<and> tx_log w' = tx_log w @ sent"
proof (induction bs arbitrary: w)
  case (Cons b bs)
  obtain r1 w1 where w1: "send b w = (r1, w1)" by fastforce
  show ?case
  proof (cases r1)
    case (Inl e)
    with Cons.prems w1 have "w' = w1" by (simp add: thenM_def bindM_def)
    with send_log_cases [OF w1] have "tx_log w' = tx_log w @ [] \<or> tx_log w' = tx_log w @ [b]" by simp
    then show ?thesis by (metis append_Cons append_Nil)
  next
    case (Inr x)
    with Cons.prems w1 have "send_all bs w1 = (r, w')" by (simp add: thenM_def bindM_def)
    then obtain sent rest where "bs = sent @ rest" and "tx_log w' = tx_log w1 @ sent"
      using Cons.IH by blast
    moreover from w1 Inr have "tx_log w1 = tx_log w @ [b]" by (simp add: send_logged)
    ultimately show ?thesis by (intro exI [of _ "b # sent"] exI [of _ rest]) simp
  qed
qed (simp add: ret_def)

end

section \<open>The three transports meet the contract\<close>

text \<open>A quiet action sends nothing and leaves the receive buffer alone.\<close>

definition quiet :: "('d, 'z) tworld_scheme \<Rightarrow> ('d, 'z) tworld_scheme \<Rightarrow> bool" where
  "quiet w w' \<longleftrightarrow> t_frame w w' \<and> rx_buffer w' = rx_buffer w \<and> tx_log w' = tx_log w"

interpretation qf: frame_rel quiet
proof
  fix w w' w'' :: "('d, 'z) tworld_scheme"
  show "quiet w w" by (simp add: quiet_def tf.refl)
  assume "quiet w w'" and "quiet w' w''"
  then show "quiet w w''" by (auto simp: quiet_def intro: tf.trans)
qed

lemma link_quiet: "link_frame w w' \<Longrightarrow> tx_log w' = tx_log w \<Longrightarrow> quiet w w'"
  by (simp add: quiet_def link_frame_t_frame link_frame_fields)

lemma await_io_log: "await_io f w = (r, w') \<Longrightarrow> tx_log w' = tx_log w"
  by (auto simp: await_io_def split: prod.splits option.splits if_splits)

lemma block_io_log: "block_io f w = (r, w') \<Longrightarrow> tx_log w' = tx_log w"
  by (auto simp: block_io_def split: prod.splits)

lemma await_io_quiet [intro]: "keeps quiet (await_io f)"
  using keepsD [OF await_io_link] by (blast intro: keepsI link_quiet await_io_log)

lemma block_io_quiet [intro]: "keeps quiet (block_io f)"
  using keepsD [OF block_io_link] by (blast intro: keepsI link_quiet block_io_log)

lemma quietD: "keeps quiet m \<Longrightarrow> m w = (r, w') \<Longrightarrow> rx_buffer w' = rx_buffer w \<and> tx_log w' = tx_log w"
  using keepsD [of quiet m w r w'] by (simp add: quiet_def)

lemma sleep_quiet [intro]: "keeps quiet (sleep t)"
  by (auto simp: sleep_def)

lemma monotonic_quiet [intro]: "keeps quiet monotonic"
  using monotonic_link by (auto simp: keeps_def monotonic_def intro!: link_quiet)

lemma wait_for_quiet [intro]:
  assumes "keeps quiet m"
  shows "keeps quiet (wait_for t m)"
proof (rule keepsI)
  fix w r w' assume run: "wait_for t m w = (r, w')"
  have "keeps io_frame m" using assms by (rule keeps_mono) (simp add: quiet_def t_frame_def)
  then have "io_frame w w'" using run by (blast dest: keepsD wait_for_keeps)
  moreover have "t_class w' = t_class w \<and> tworld.more w' = tworld.more w \<and> rx_buffer w' = rx_buffer w \<and>
      tx_log w' = tx_log w"
    using run assms [THEN keepsD]
    by (auto simp: wait_for_def Let_def quiet_def t_frame_def split: if_splits prod.splits)
  ultimately show "quiet w w'" by (simp add: quiet_def t_frame_def)
qed

lemma set_objects_quiet [intro]:
  "keeps quiet (set_wifi f)" "keeps quiet (set_usb_connected b)" "keeps quiet (set_auto g)"
  "keeps quiet (modify (\<lambda>w. w\<lparr>t_usb := h w\<rparr>))" "keeps quiet (modify (\<lambda>w. w\<lparr>t_wifi := h' w\<rparr>))"
  by (auto simp: keeps_def set_wifi_def set_usb_connected_def set_auto_def modify_def quiet_def
      t_frame_def io_frame_def)

lemmas quiet_rules = qf.keeps_rules await_io_quiet block_io_quiet sleep_quiet monotonic_quiet
  wait_for_quiet set_objects_quiet

lemma usb_receive_quiet [intro]: "keeps quiet (usb_receive P timeout)"
  unfolding usb_receive_def by (intro quiet_rules)

lemma wifi_receive_quiet [intro]: "keeps quiet (wifi_receive P timeout)"
  unfolding wifi_receive_def by (intro quiet_rules)

lemma auto_receive_quiet [intro]: "keeps quiet (auto_receive P timeout)"
  unfolding auto_receive_def
  by (auto intro!: quiet_rules usb_receive_quiet wifi_receive_quiet split: link_class.split)

lemma transport_receive_quiet [intro]: "keeps quiet (transport_receive P timeout)"
  using usb_receive_quiet [of P timeout] wifi_receive_quiet [of P timeout] auto_receive_quiet [of P timeout]
  by (auto simp: keeps_def transport_receive_def split: transport_class.split)

lemma wifi_send_link [intro]: "keeps link_frame (wifi_send P data)"
  unfolding wifi_send_def by (intro link_rules)

lemma auto_send_link [intro]: "keeps link_frame (auto_send P data)"
  unfolding auto_send_def
  by (auto intro!: link_rules usb_send_link wifi_send_link split: link_class.split)

lemma transport_send_link [intro]: "keeps link_frame (transport_send P data)"
  using usb_send_link [of P data] wifi_send_link [of P data] auto_send_link [of P data]
  by (auto simp: keeps_def transport_send_def split: transport_class.split)

lemmas send_defs = usb_send_def wifi_send_def auto_send_def

lemma usb_send_log:
  "usb_send P data w = (r, w') \<Longrightarrow> tx_log w' = tx_log w @ (if usb_is_open P w then [data] else [])"
  by (auto simp: usb_send_def action_defs log_tx_def dest!: await_io_log split: if_splits)

lemma wifi_send_log:
  "wifi_send P data w = (r, w') \<Longrightarrow> tx_log w' = tx_log w @ (if w_writer (t_wifi w) then [data] else [])"
  by (auto simp: wifi_send_def action_defs log_tx_def dest!: await_io_log split: if_splits)

lemma usb_send_closed: "\<not> usb_is_open P w \<Longrightarrow> usb_send P data w = (Inl (RuntimeError ''USB not connected''), w)"
  by (simp add: usb_send_def action_defs)

lemma wifi_send_closed:
  "\<not> w_writer (t_wifi w) \<Longrightarrow> wifi_send P data w = (Inl (RuntimeError ''WiFi not connected''), w)"
  by (simp add: wifi_send_def action_defs)

lemma auto_send_eq:
  "auto_send P data w =
     (case a_active (t_auto w) of
        None \<Rightarrow> (Inl (RuntimeError ''Auto transport has no active connection''), w)
      | Some USB \<Rightarrow> usb_send P data w | Some WiFi \<Rightarrow> wifi_send P data w)"
  by (auto simp: auto_send_def action_defs split: option.split link_class.split)

interpretation usb_link: flipper_transport "usb_send P" "usb_receive P" for P
proof
  fix data w x w' and timeout
  show "keeps link_frame (usb_send P data)" by blast
  show "keeps t_frame (usb_receive P timeout)"
    by (rule keeps_mono [OF usb_receive_quiet]) (simp add: quiet_def)
  show "usb_receive P timeout w = (r, w') \<Longrightarrow> rx_buffer w' = rx_buffer w \<and> tx_log w' = tx_log w" for r
    by (rule quietD [OF usb_receive_quiet])
  show "usb_send P data w = (Inr x, w') \<Longrightarrow> tx_log w' = tx_log w @ [data]"
    by (cases "usb_is_open P w") (auto dest: usb_send_log simp: usb_send_closed)
  show "usb_send P data w = (r, w') \<Longrightarrow> tx_log w' = tx_log w \<or> tx_log w' = tx_log w @ [data]" for r
    by (drule usb_send_log) simp
qed

interpretation wifi_link: flipper_transport "wifi_send P" "wifi_receive P" for P
proof
  fix data w x w' and timeout
  show "keeps link_frame (wifi_send P data)" by blast
  show "keeps t_frame (wifi_receive P timeout)"
    by (rule keeps_mono [OF wifi_receive_quiet]) (simp add: quiet_def)
  show "wifi_receive P timeout w = (r, w') \<Longrightarrow> rx_buffer w' = rx_buffer w \<and> tx_log w' = tx_log w" for r
    by (rule quietD [OF wifi_receive_quiet])
  show "wifi_send P data w = (Inr x, w') \<Longrightarrow> tx_log w' = tx_log w @ [data]"
    by (cases "w_writer (t_wifi w)") (auto dest: wifi_send_log simp: wifi_send_closed)
  show "wifi_send P data w = (r, w') \<Longrightarrow> tx_log w' = tx_log w \<or> tx_log w' = tx_log w @ [data]" for r
    by (drule wifi_send_log) simp
qed

interpretation auto_link: flipper_transport "auto_send P" "auto_receive P" for P
proof
  fix data w x w' and timeout
  show "keeps link_frame (auto_send P data)" by blast
  show "keeps t_frame (auto_receive P timeout)"
    by (rule keeps_mono [OF auto_receive_quiet]) (simp add: quiet_def)
  show "auto_receive P timeout w = (r, w') \<Longrightarrow> rx_buffer w' = rx_buffer w \<and> tx_log w' = tx_log w" for r
    by (rule quietD [OF auto_receive_quiet])
  show "auto_send P data w = (Inr x, w') \<Longrightarrow> tx_log w' = tx_log w @ [data]"
    by (auto simp: auto_send_eq dest: usb_link.send_logged wifi_link.send_logged
        split: option.splits link_class.splits)
  show "auto_send P data w = (r, w') \<Longrightarrow> tx_log w' = tx_log w \<or> tx_log w' = tx_log w @ [data]" for r
    using usb_link.send_log_cases wifi_link.send_log_cases
    by (auto simp: auto_send_eq split: option.splits link_class.splits) blast+
qed

interpretation tr: flipper_transport "transport_send P" "transport_receive P" for P
proof
  fix data w x w' and timeout
  show "keeps link_frame (transport_send P data)" by blast
  show "keeps t_frame (transport_receive P timeout)"
    by (rule keeps_mono [OF transport_receive_quiet]) (simp add: quiet_def)
  show "transport_receive P timeout w = (r, w') \<Longrightarrow> rx_buffer w' = rx_buffer w \<and> tx_log w' = tx_log w" for r
    by (rule quietD [OF transport_receive_quiet])
  show "transport_send P data w = (Inr x, w') \<Longrightarrow> tx_log w' = tx_log w @ [data]"
    by (auto simp: transport_send_def dest: usb_link.send_logged wifi_link.send_logged auto_link.send_logged
        split: transport_class.splits)
  show "transport_send P data w = (r, w') \<Longrightarrow> tx_log w' = tx_log w \<or> tx_log w' = tx_log w @ [data]" for r
    using usb_link.send_log_cases wifi_link.send_log_cases auto_link.send_log_cases
    by (auto simp: transport_send_def split: transport_class.splits) blast+
qed

lemma quiet_frame [simp]: "quiet w w' \<Longrightarrow> now w \<le> now w'"
  by (simp add: quiet_def t_frame_def io_frame_def)

section \<open>Exact reads\<close>

lemma transport_receive_later:
  "(r, w') = transport_receive P timeout (w\<lparr>now := Suc (now w)\<rparr>) \<Longrightarrow> now w < now w'"
  using keepsD [OF transport_receive_quiet, of P timeout "w\<lparr>now := Suc (now w)\<rparr>" r w'] quiet_frame
  by fastforce

lemma sleep_later: "(r, w') = sleep t w \<Longrightarrow> now w \<le> now w'"
  using keepsD [OF sleep_keeps, of t w r w'] by (simp add: io_frame_def)

text \<open>
  The loop of \<^verbatim>\<open>receive_exact\<close> under a deadline.  Each pass reads the clock once; an empty
  chunk yields to the event loop (\<^verbatim>\<open>asyncio.sleep(0)\<close>) before the next pass.  Every caller in
  the program passes a timeout; the form without one is not modelled.
\<close>

function receive_loop ::
  "'d platform \<Rightarrow> nat \<Rightarrow> nat \<Rightarrow> ('d, 'z) tworld_scheme \<Rightarrow> (exn + unit) \<times> ('d, 'z) tworld_scheme" where
  "receive_loop P n deadline w =
     (if n \<le> length (rx_buffer w) then (Inr (), w)
      else if deadline \<le> now w then (Inr (), w\<lparr>now := Suc (now w)\<rparr>)
      else case transport_receive P (Some (deadline - now w)) (w\<lparr>now := Suc (now w)\<rparr>) of
             (Inl e, w1) \<Rightarrow> (Inl e, w1)
           | (Inr chunk, w1) \<Rightarrow>
               (if chunk = []
                then case sleep 0 w1 of
                       (Inl e, w2) \<Rightarrow> (Inl e, w2)
                     | (Inr _, w2) \<Rightarrow> receive_loop P n deadline w2
                else receive_loop P n deadline (w1\<lparr>rx_buffer := rx_buffer w1 @ chunk\<rparr>)))"
  by pat_completeness auto
termination
  by (relation "measure (\<lambda>(P, n, deadline, w). deadline - now w)")
    (auto dest!: transport_receive_later sleep_later)

declare receive_loop.simps [simp del]

definition take_buffer :: "nat \<Rightarrow> (('d, 'z) tworld_scheme, bytes) action" where
  "take_buffer n w =
     (if length (rx_buffer w) < n then (Inr [], w)
      else (Inr (take n (rx_buffer w)), w\<lparr>rx_buffer := drop n (rx_buffer w)\<rparr>))"

definition receive_exact :: "'d platform \<Rightarrow> nat \<Rightarrow> nat \<Rightarrow> (('d, 'z) tworld_scheme, bytes) action" where
  "receive_exact P n timeout =
     (if n = 0 then ret []
      else bindM monotonic (\<lambda>t. thenM (receive_loop P n (t + timeout)) (take_buffer n)))"

subsection \<open>Frame\<close>

text \<open>Receiving changes nothing but the clock, the device, the transport objects and the
  receive buffer; it never sends.\<close>

definition rx_frame :: "('d, 'z) tworld_scheme \<Rightarrow> ('d, 'z) tworld_scheme \<Rightarrow> bool" where
  "rx_frame w w' \<longleftrightarrow> t_frame w w' \<and> tx_log w' = tx_log w"

interpretation rf: frame_rel rx_frame
proof
  fix w w' w'' :: "('d, 'z) tworld_scheme"
  show "rx_frame w w" by (simp add: rx_frame_def tf.refl)
  assume "rx_frame w w'" and "rx_frame w' w''"
  then show "rx_frame w w''" by (auto simp: rx_frame_def intro: tf.trans)
qed

lemma quiet_rx_frame: "keeps quiet m \<Longrightarrow> keeps rx_frame m"
  by (erule keeps_mono) (simp add: quiet_def rx_frame_def)

lemma rx_frame_tick [simp]: "rx_frame w (w\<lparr>now := Suc (now w)\<rparr>)"
  by (simp add: rx_frame_def t_frame_def io_frame_def)

lemma rx_frame_buffer [simp]: "rx_frame w (w\<lparr>rx_buffer := b\<rparr>)"
  by (simp add: rx_frame_def t_frame_def io_frame_def)

lemma receive_step_rx:
  "transport_receive P t (w\<lparr>now := Suc (now w)\<rparr>) = (r, w') \<Longrightarrow> rx_frame w w'"
  using keepsD [OF quiet_rx_frame [OF transport_receive_quiet]] rf.trans [OF rx_frame_tick] by blast

lemma sleep_rx: "sleep t w = (r, w') \<Longrightarrow> rx_frame w w'"
  using keepsD [OF quiet_rx_frame [OF sleep_quiet]] by blast

text \<open>One rule for every fact about the loop: its five ways to go on or to end.\<close>

lemma receive_loop_run_induct [consumes 1, case_names enough late failed cancelled idle chunk]:
  assumes "receive_loop P n deadline w = (r, w')"
    and enough: "\<And>w. n \<le> length (rx_buffer w) \<Longrightarrow> Q w (Inr ()) w"
    and late: "\<And>w. length (rx_buffer w) < n \<Longrightarrow> deadline \<le> now w \<Longrightarrow> Q w (Inr ()) (w\<lparr>now := Suc (now w)\<rparr>)"
    and failed: "\<And>w e w1. length (rx_buffer w) < n \<Longrightarrow> now w < deadline \<Longrightarrow>
       transport_receive P (Some (deadline - now w)) (w\<lparr>now := Suc (now w)\<rparr>) = (Inl e, w1) \<Longrightarrow> Q w (Inl e) w1"
    and cancelled: "\<And>w w1 e w2. length (rx_buffer w) < n \<Longrightarrow> now w < deadline \<Longrightarrow>
       transport_receive P (Some (deadline - now w)) (w\<lparr>now := Suc (now w)\<rparr>) = (Inr [], w1) \<Longrightarrow>
       sleep 0 w1 = (Inl e, w2) \<Longrightarrow> Q w (Inl e) w2"
    and idle: "\<And>w w1 u w2 r w'. length (rx_buffer w) < n \<Longrightarrow> now w < deadline \<Longrightarrow>
       transport_receive P (Some (deadline - now w)) (w\<lparr>now := Suc (now w)\<rparr>) = (Inr [], w1) \<Longrightarrow>
       sleep 0 w1 = (Inr u, w2) \<Longrightarrow> Q w2 r w' \<Longrightarrow> Q w r w'"
    and chunk: "\<And>w w1 c r w'. length (rx_buffer w) < n \<Longrightarrow> now w < deadline \<Longrightarrow>
       transport_receive P (Some (deadline - now w)) (w\<lparr>now := Suc (now w)\<rparr>) = (Inr c, w1) \<Longrightarrow>
       c \<noteq> [] \<Longrightarrow> Q (w1\<lparr>rx_buffer := rx_buffer w1 @ c\<rparr>) r w' \<Longrightarrow> Q w r w'"
  shows "Q w r w'"
  using assms(1)
proof (induction "deadline - now w" arbitrary: w r w' rule: less_induct)
  case less
  consider (stop) "n \<le> length (rx_buffer w)" | (over) "\<not> n \<le> length (rx_buffer w)" "deadline \<le> now w"
    | (go) "length (rx_buffer w) < n" "now w < deadline" by linarith
  then show ?case
  proof cases
    case stop
    with less.prems enough show ?thesis by (simp add: receive_loop.simps)
  next
    case over
    with less.prems late [of w] show ?thesis by (simp add: receive_loop.simps)
  next
    case go
    obtain r1 w1 where w1: "transport_receive P (Some (deadline - now w)) (w\<lparr>now := Suc (now w)\<rparr>) = (r1, w1)"
      by fastforce
    have later: "now w < now w1" using w1 [symmetric] by (rule transport_receive_later)
    show ?thesis
    proof (cases r1)
      case (Inl e)
      with less.prems go w1 failed [of w e w1] show ?thesis
        by (simp add: receive_loop.simps [of P n deadline w])
    next
      case (Inr c)
      obtain r2 w2 where w2: "sleep 0 w1 = (r2, w2)" by fastforce
      have later2: "now w1 \<le> now w2" using w2 [symmetric] by (rule sleep_later)
      consider (c) "c \<noteq> []" | (f) e where "c = []" "r2 = Inl e" | (i) "c = []" "r2 = Inr ()"
        by (cases r2) auto
      then show ?thesis
      proof cases
        case c
        with less.prems go w1 Inr have "receive_loop P n deadline (w1\<lparr>rx_buffer := rx_buffer w1 @ c\<rparr>) = (r, w')"
          by (simp add: receive_loop.simps [of P n deadline w])
        then have "Q (w1\<lparr>rx_buffer := rx_buffer w1 @ c\<rparr>) r w'"
          using less.hyps later go by simp
        with chunk go w1 Inr c show ?thesis by blast
      next
        case f
        with less.prems go w1 Inr w2 have "r = Inl e" and "w' = w2"
          by (simp_all add: receive_loop.simps [of P n deadline w])
        with cancelled go w1 Inr w2 f show ?thesis by blast
      next
        case i
        with less.prems go w1 Inr w2 have "receive_loop P n deadline w2 = (r, w')"
          by (simp add: receive_loop.simps [of P n deadline w])
        then have "Q w2 r w'" using less.hyps later later2 go by simp
        with idle go w1 Inr w2 i show ?thesis by blast
      qed
    qed
  qed
qed

lemma receive_loop_rx: "receive_loop P n deadline w = (r, w') \<Longrightarrow> rx_frame w w'"
proof (induction rule: receive_loop_run_induct)
  case (idle w w1 u w2 r w')
  show ?case by (rule rf.trans [OF receive_step_rx [OF idle(3)] rf.trans [OF sleep_rx [OF idle(4)] idle(5)]])
next
  case (chunk w w1 c r w')
  show ?case by (rule rf.trans [OF receive_step_rx [OF chunk(3)] rf.trans [OF rx_frame_buffer chunk(5)]])
next
  case (cancelled w w1 e w2)
  show ?case by (rule rf.trans [OF receive_step_rx [OF cancelled(3)] sleep_rx [OF cancelled(4)]])
qed (simp_all add: rf.refl receive_step_rx)

lemma receive_exact_rx [intro]: "keeps rx_frame (receive_exact P n timeout)"
proof -
  have "keeps rx_frame (take_buffer n)" for n
    by (auto simp: keeps_def take_buffer_def rf.refl)
  moreover have "keeps rx_frame (receive_loop P n d)" for d
    by (blast intro: keepsI receive_loop_rx)
  ultimately show ?thesis
    unfolding receive_exact_def
    by (intro rf.keeps_rules quiet_rx_frame [OF monotonic_quiet])
qed

subsection \<open>Results\<close>

lemma receive_exact_shape:
  "receive_exact P n timeout w = (Inr b, w') \<Longrightarrow> b = [] \<or> length b = n"
  by (auto simp: receive_exact_def ret_def thenM_def take_buffer_def elim!: bindM_InrE split: if_splits)

lemma receive_loop_enough: "n \<le> length (rx_buffer w) \<Longrightarrow> receive_loop P n deadline w = (Inr (), w)"
  by (simp add: receive_loop.simps)

text \<open>Bytes that are already buffered are handed out without any transport call.\<close>

lemma receive_exact_buffered:
  assumes "0 < n" and "n \<le> length (rx_buffer w)"
  shows "receive_exact P n timeout w =
           (Inr (take n (rx_buffer w)), w\<lparr>now := Suc (now w), rx_buffer := drop n (rx_buffer w)\<rparr>)"
  using assms
  by (simp add: receive_exact_def thenM_def bindM_def monotonic_def receive_loop_enough take_buffer_def)

subsection \<open>No byte is lost, repeated or reordered\<close>

text \<open>
  A platform is lossless, for a view \<open>pending\<close> of the bytes that the device has yet to
  deliver, when a read takes its bytes from the front of the pending ones; a socket read that
  is cancelled before it completes takes none.
\<close>

definition lossless :: "'d platform \<Rightarrow> ('d \<Rightarrow> bytes) \<Rightarrow> bool" where
  "lossless P pending \<longleftrightarrow>
     (\<forall>n t lim c d r dt d'. serial_read P n t lim c d = (r, dt, d') \<longrightarrow>
        pending d = (case r of Inl _ \<Rightarrow> [] | Inr b \<Rightarrow> b) @ pending d') \<and>
     (\<forall>n lim c d r dt d'. tcp_read P n lim c d = (r, dt, d') \<longrightarrow>
        pending d = (if \<exists>l. lim = Some l \<and> l \<le> dt then [] else case r of Inl _ \<Rightarrow> [] | Inr b \<Rightarrow> b) @ pending d')"

lemma usb_receive_lossless:
  assumes "lossless P pending" and "usb_receive P timeout w = (Inr b, w')"
  shows "pending (dev w) = b @ pending (dev w')"
  using assms
  by (auto simp: lossless_def usb_receive_def action_defs await_io_def
      split: if_splits prod.splits option.splits)

lemma await_tcp_lossless:
  assumes "lossless P pending" and "await_io (tcp_read P n) w = (r, w')"
  shows "pending (dev w) = (case r of Inl _ \<Rightarrow> [] | Inr b \<Rightarrow> b) @ pending (dev w')"
proof -
  let ?lim = "map_option (\<lambda>c. c - now w) (cancel_at w)"
  obtain r0 dt d where op: "tcp_read P n ?lim (now w) (dev w) = (r0, dt, d)" by (cases "tcp_read P n ?lim (now w) (dev w)") auto
  with assms(1) have "pending (dev w) =
      (if \<exists>l. ?lim = Some l \<and> l \<le> dt then [] else case r0 of Inl _ \<Rightarrow> [] | Inr b \<Rightarrow> b) @ pending d"
    unfolding lossless_def by blast
  with assms(2) op show ?thesis
    by (auto simp: await_io_def split: option.splits if_splits)
qed

lemma wait_tcp_lossless:
  assumes "lossless P pending" and "wait_for t (await_io (tcp_read P n)) w = (r, w')"
  shows "pending (dev w) = (case r of Inl _ \<Rightarrow> [] | Inr b \<Rightarrow> b) @ pending (dev w')"
  using assms(2)
  by (auto simp: wait_for_def Let_def split: prod.splits if_splits dest!: await_tcp_lossless [OF assms(1)])

lemma wifi_receive_lossless:
  assumes "lossless P pending" and "wifi_receive P timeout w = (Inr b, w')"
  shows "pending (dev w) = b @ pending (dev w')"
  using assms(2)
  by (auto simp: wifi_receive_def action_defs set_wifi_def
      split: if_splits option.splits prod.splits sum.splits
      dest!: await_tcp_lossless [OF assms(1)] wait_tcp_lossless [OF assms(1)])

lemma transport_receive_lossless:
  assumes "lossless P pending" and "transport_receive P timeout w = (Inr b, w')"
  shows "pending (dev w) = b @ pending (dev w')"
  using assms(2) usb_receive_lossless [OF assms(1)] wifi_receive_lossless [OF assms(1)]
  by (auto simp: transport_receive_def auto_receive_def action_defs
      split: transport_class.splits option.splits link_class.splits)

lemma sleep_dev: "sleep t w = (r, w') \<Longrightarrow> dev w' = dev w"
  by (auto simp: sleep_def await_io_def split: option.splits if_splits)

lemma receive_loop_lossless:
  assumes lossless: "lossless P pending" and run: "receive_loop P n deadline w = (r, w')"
    and ok: "r = Inr x"
  shows "rx_buffer w @ pending (dev w) = rx_buffer w' @ pending (dev w')"
  using run ok
proof (induction rule: receive_loop_run_induct)
  case (idle w w1 u w2 r w')
  note rx = transport_receive_quiet [THEN quietD, OF idle(3)] sleep_quiet [THEN quietD, OF idle(4)]
  from idle rx transport_receive_lossless [OF lossless idle(3)] sleep_dev [OF idle(4)]
  show ?case by simp
next
  case (chunk w w1 c r w')
  note rx = transport_receive_quiet [THEN quietD, OF chunk(3)]
  from chunk rx transport_receive_lossless [OF lossless chunk(3)] show ?case by simp
qed simp_all

lemma receive_exact_lossless:
  assumes "lossless P pending" and "receive_exact P n timeout w = (Inr b, w')"
  shows "rx_buffer w @ pending (dev w) = b @ rx_buffer w' @ pending (dev w')"
proof (cases "n = 0")
  case True
  with assms(2) show ?thesis by (simp add: receive_exact_def ret_def)
next
  case False
  with assms(2) obtain x w1 where loop: "receive_loop P n (now w + timeout) (w\<lparr>now := Suc (now w)\<rparr>) = (Inr x, w1)"
    and t: "take_buffer n w1 = (Inr b, w')"
    by (auto simp: receive_exact_def thenM_def monotonic_def elim!: bindM_InrE)
  from receive_loop_lossless [OF assms(1) loop refl]
  have "rx_buffer w @ pending (dev w) = rx_buffer w1 @ pending (dev w1)" by simp
  with t show ?thesis by (auto simp: take_buffer_def split: if_splits)
qed

subsection \<open>Reads end in time\<close>

text \<open>A serial port is punctual when a read lasts no longer than the timeout it was given.\<close>

definition punctual :: "'d platform \<Rightarrow> bool" where
  "punctual P \<longleftrightarrow> (\<forall>n t lim c d. fst (snd (serial_read P n t lim c d)) \<le> t)"

lemma await_io_time:
  assumes "\<And>lim c d. fst (snd (f lim c d)) \<le> t" and "await_io f w = (r, w')"
  shows "now w' \<le> now w + t + 1"
proof -
  let ?res = "f (map_option (\<lambda>c. c - now w) (cancel_at w)) (now w) (dev w)"
  have "fst (snd ?res) \<le> t" by (rule assms(1))
  with assms(2) show ?thesis
    by (auto simp: await_io_def split: option.splits if_splits prod.splits)
qed

lemma usb_receive_time:
  assumes "punctual P" and "usb_receive P (Some t) w = (r, w')"
  shows "now w' \<le> now w + t + 1"
proof (cases "usb_is_open P w")
  case True
  with assms(2) have "await_io (serial_read P 4096 t) w = (r, w')"
    by (simp add: usb_receive_def action_defs)
  then show ?thesis using assms(1) by (intro await_io_time) (auto simp: punctual_def)
next
  case False
  with assms(2) show ?thesis by (auto simp: usb_receive_def action_defs)
qed

lemma wait_await_time: "wait_for t (await_io f) w = (r, w') \<Longrightarrow> now w' \<le> now w + t"
  by (auto simp: wait_for_def await_io_def Let_def split: prod.splits if_splits option.splits)

lemma wifi_receive_time: "wifi_receive P (Some t) w = (r, w') \<Longrightarrow> now w' \<le> now w + t + 1"
  by (auto simp: wifi_receive_def action_defs set_wifi_def
      split: if_splits prod.splits sum.splits dest!: wait_await_time)

lemma transport_receive_time:
  assumes "punctual P" and "transport_receive P (Some t) w = (r, w')"
  shows "now w' \<le> now w + t + 1"
  using assms(2) usb_receive_time [OF assms(1)] wifi_receive_time
  by (auto simp: transport_receive_def auto_receive_def action_defs
      split: transport_class.splits option.splits link_class.splits)

lemma sleep_time: "sleep t w = (r, w') \<Longrightarrow> now w' \<le> now w + t + 1"
  by (auto simp: sleep_def await_io_def split: option.splits if_splits)

lemma receive_loop_time:
  assumes punctual: "punctual P" and run: "receive_loop P n deadline w = (r, w')"
  shows "now w' \<le> max (now w + 1) (deadline + 4)"
  using run
proof (induction rule: receive_loop_run_induct)
  case (failed w e w1)
  with transport_receive_time [OF punctual failed(3)] show ?case by simp
next
  case (cancelled w w1 e w2)
  with transport_receive_time [OF punctual cancelled(3)] sleep_time [OF cancelled(4)] show ?case by simp
next
  case (idle w w1 u w2 r w')
  with transport_receive_time [OF punctual idle(3)] sleep_time [OF idle(4)] show ?case by simp
next
  case (chunk w w1 c r w')
  with transport_receive_time [OF punctual chunk(3)] show ?case by simp
qed simp_all

lemma receive_exact_time:
  assumes "punctual P" and "receive_exact P n timeout w = (r, w')"
  shows "now w' \<le> now w + timeout + 4"
proof (cases "n = 0")
  case True
  with assms(2) show ?thesis by (simp add: receive_exact_def ret_def)
next
  case False
  obtain r1 w1 where loop: "receive_loop P n (now w + timeout) (w\<lparr>now := Suc (now w)\<rparr>) = (r1, w1)"
    by fastforce
  with False assms(2) have "now w' = now w1"
    by (cases r1) (auto simp: receive_exact_def thenM_def monotonic_def bindM_def take_buffer_def split: if_splits)
  with receive_loop_time [OF assms(1) loop] show ?thesis by simp
qed

end
