(* ===== verification/Framing.thy ===== *)
theory Framing
  imports Transport_Base
begin

unbundle bit_operations_syntax

text \<open>
  The delimited framing of the RPC link: base-128 length prefixes and length-prefixed
  messages (\<^verbatim>\<open>_encode_varint\<close>, \<^verbatim>\<open>_read_varint\<close>, \<^verbatim>\<open>_receive_main_message\<close> and \<^verbatim>\<open>_chunk\<close> of
  \<^verbatim>\<open>rpc/protobuf_rpc.py\<close>), with the reference meaning of a length prefix and the round trip.
\<close>

section \<open>Length prefixes\<close>

function encode_varint :: "nat \<Rightarrow> bytes" where
  "encode_varint n =
     (let b = n AND 0x7F; n' = drop_bit 7 n
      in if n' \<noteq> 0 then of_nat (b OR 0x80) # encode_varint n' else [of_nat b])"
  by pat_completeness auto
termination
  by (relation "measure id") (auto simp: drop_bit_eq_div)

declare encode_varint.simps [simp del]

fun read_varint_loop ::
  "'d platform \<Rightarrow> nat \<Rightarrow> nat \<Rightarrow> nat \<Rightarrow> nat \<Rightarrow> (('d, 'z) tworld_scheme, nat option) action" where
  "read_varint_loop P timeout 0 acc shift = ret None"
| "read_varint_loop P timeout (Suc k) acc shift =
     bindM (receive_exact P 1 timeout) (\<lambda>b.
     case b of
       [] \<Rightarrow> ret None
     | byte # _ \<Rightarrow>
         (let acc' = acc OR push_bit shift (unat (byte AND 0x7F))
          in if byte AND 0x80 = 0 then ret (Some acc')
             else read_varint_loop P timeout k acc' (shift + 7)))"

definition read_varint :: "'d platform \<Rightarrow> nat \<Rightarrow> (('d, 'z) tworld_scheme, nat option) action" where
  "read_varint P timeout =
     try_except is_exception (read_varint_loop P timeout 5 0 0) (\<lambda>_. ret None)"

section \<open>Messages\<close>

definition receive_main_message :: "'d platform \<Rightarrow> nat \<Rightarrow> (('d, 'z) tworld_scheme, main_msg option) action" where
  "receive_main_message P timeout =
     try_except is_exception
       (bindM (read_varint P timeout) (\<lambda>payload_len.
        case payload_len of
          None \<Rightarrow> ret None
        | Some n \<Rightarrow>
            (if n \<le> 0 \<or> 1000000 < n then ret None
             else bindM (receive_exact P n timeout) (\<lambda>payload.
                  if payload = [] \<or> length payload \<noteq> n then ret None
                  else case parse P payload of
                         None \<Rightarrow> raise DecodeError
                       | Some msg \<Rightarrow> ret (Some msg)))))
       (\<lambda>_. ret None)"

text \<open>\<^verbatim>\<open>self._encode_varint(len(payload)) + payload\<close>, written out at every sender.\<close>

definition framed :: "bytes \<Rightarrow> bytes" where
  "framed payload = encode_varint (length payload) @ payload"

section \<open>Chunks\<close>

definition range_step :: "nat \<Rightarrow> nat \<Rightarrow> nat list" where
  "range_step stop step = map (\<lambda>k. k * step) [0..<(stop + step - 1) div step]"

definition chunk :: "bytes \<Rightarrow> nat \<Rightarrow> bytes list" where
  "chunk data k =
     (if data = [] then [[]]
      else map (\<lambda>i. take k (drop i data)) (range_step (length data) k))"

section \<open>The reference meaning of a length prefix\<close>

text \<open>Little-endian groups of seven bits; the top bit of a byte says that another follows.\<close>

fun leb_value :: "bytes \<Rightarrow> nat" where
  "leb_value [] = 0"
| "leb_value (b # bs) = unat b mod 128 + 128 * leb_value bs"

fun leb_form :: "bytes \<Rightarrow> bool" where
  "leb_form [] = False"
| "leb_form [b] = (unat b < 128)"
| "leb_form (b # bs) = (128 \<le> unat b \<and> leb_form bs)"

lemma or_push_bit_add:
  fixes v x :: nat
  assumes "v < 2 ^ k"
  shows "v OR push_bit k x = v + x * 2 ^ k"
proof -
  have "take_bit k v AND push_bit k x = 0" by (rule bit_eqI) (auto simp: bit_simps)
  then have "v AND push_bit k x = 0" using assms by (simp add: take_bit_nat_eq_self)
  then show ?thesis by (simp add: disjunctive_add_eq_or [symmetric] push_bit_eq_mult)
qed

lemma and_127: "n AND 0x7F = n mod (128 :: nat)"
  using take_bit_eq_mask [of 7 n] by (simp add: take_bit_eq_mod mask_eq_exp_minus_1)

lemma or_128: "n < 128 \<Longrightarrow> n OR 0x80 = n + (128 :: nat)"
  using or_push_bit_add [of n 7 1] by (simp add: push_bit_eq_mult)

lemma encode_varint_eq:
  "encode_varint n = (if n < 128 then [of_nat n] else of_nat (n mod 128 + 128) # encode_varint (n div 128))"
  by (subst encode_varint.simps) (simp add: and_127 or_128 drop_bit_eq_div Let_def div_eq_0_iff)

lemma unat_of_nat_byte: "n < 256 \<Longrightarrow> unat (of_nat n :: byte) = n"
  by (simp add: unat_of_nat)

lemma encode_varint_value: "leb_value (encode_varint n) = n"
proof (induction n rule: less_induct)
  case (less n)
  show ?case
  proof (cases "n < 128")
    case True
    then show ?thesis by (subst encode_varint_eq) (simp add: unat_of_nat_byte)
  next
    case False
    then have "leb_value (encode_varint (n div 128)) = n div 128" by (intro less.IH) simp
    with False show ?thesis
      by (subst encode_varint_eq) (simp add: unat_of_nat_byte del: of_nat_add)
  qed
qed

lemma encode_varint_nonempty [simp]: "encode_varint n \<noteq> []"
  by (subst encode_varint_eq) simp

lemma leb_form_Cons: "leb_form (b # bs) \<longleftrightarrow> (if bs = [] then unat b < 128 else 128 \<le> unat b \<and> leb_form bs)"
  by (cases bs) auto

lemma encode_varint_form: "leb_form (encode_varint n)"
proof (induction n rule: less_induct)
  case (less n)
  show ?case
  proof (cases "n < 128")
    case True
    then show ?thesis by (subst encode_varint_eq) (simp add: unat_of_nat_byte)
  next
    case False
    then have "leb_form (encode_varint (n div 128))" by (intro less.IH) simp
    with False show ?thesis
      by (subst encode_varint_eq) (simp add: leb_form_Cons unat_of_nat_byte del: of_nat_add)
  qed
qed

lemma encode_varint_length: "length (encode_varint n) \<le> k \<longleftrightarrow> 0 < k \<and> n < 128 ^ k"
proof (induction k arbitrary: n)
  case (Suc k)
  show ?case
  proof (cases "n < 128")
    case True
    have "n < 128 * 128 ^ k" by (rule less_le_trans [OF True]) simp
    with True show ?thesis by (subst encode_varint_eq) simp
  next
    case False
    have "0 < k \<and> n div 128 < 128 ^ k \<longleftrightarrow> n < 128 * 128 ^ k"
      using False by (cases k) (auto simp: div_less_iff_less_mult mult.commute)
    with False Suc.IH [of "n div 128"] show ?thesis by (subst encode_varint_eq) simp
  qed
qed simp

lemma leb_value_bound: "leb_value bs < 128 ^ length bs"
proof (induction bs)
  case (Cons b bs)
  have "unat b mod 128 < 128" by simp
  with Cons show ?case by simp
qed simp

text \<open>Length prefixes are prefix-free, so a stream of frames is read unambiguously.\<close>

lemma leb_form_prefix_free: "leb_form a \<Longrightarrow> leb_form b \<Longrightarrow> a @ x = b @ y \<Longrightarrow> a = b"
proof (induction a arbitrary: b)
  case (Cons c a)
  from Cons.prems obtain b' where b: "b = c # b'" and eq: "a @ x = b' @ y" by (cases b) auto
  from Cons.prems b have "a = [] \<longleftrightarrow> b' = []" by (auto simp: leb_form_Cons split: if_splits)
  with Cons.IH [OF _ _ eq] Cons.prems b show ?case by (cases "a = []") (auto simp: leb_form_Cons)
qed simp

section \<open>Reading back what was framed\<close>

lemma byte_and_127: "unat ((b :: byte) AND 0x7F) = unat b mod 128"
  by (simp add: unsigned_and_eq and_127)

lemma byte_and_128: "(b :: byte) AND 0x80 = 0 \<longleftrightarrow> unat b < 128"
proof -
  have "b AND 0x80 = 0 \<longleftrightarrow> \<not> bit b 7"
    using and_exp_eq_0_iff_not_bit [of b 7] by simp
  also have "bit b 7 = bit (unat b) 7" by (simp add: bit_unsigned_iff)
  also have "\<not> bit (unat b) 7 \<longleftrightarrow> unat b < 128"
  proof -
    have "unat b < 256" using unsigned_less [of b] by simp
    then have "unat b div 128 = (if unat b < 128 then 0 else 1)" by auto
    then show ?thesis by (simp add: bit_iff_odd)
  qed
  finally show ?thesis .
qed

lemma acc_step: "(v :: nat) < 2 ^ k \<Longrightarrow> v + (x mod 128) * 2 ^ k < 2 ^ (k + 7)"
proof -
  assume v: "v < 2 ^ k"
  have "x mod 128 \<le> 127" by simp
  then have "(x mod 128) * 2 ^ k \<le> 127 * 2 ^ k" by (rule mult_le_mono1)
  with v have "v + (x mod 128) * 2 ^ k < 2 ^ k + 127 * 2 ^ k" by linarith
  then show ?thesis by (simp add: power_add)
qed

lemma read_varint_loop_buffered:
  assumes "leb_form bs" and "rx_buffer w = bs @ rest" and "length bs \<le> k" and "acc < 2 ^ shift"
  shows "read_varint_loop P timeout k acc shift w =
           (Inr (Some (acc + leb_value bs * 2 ^ shift)), w\<lparr>now := now w + length bs, rx_buffer := rest\<rparr>)"
  using assms
proof (induction bs arbitrary: k acc shift w)
  case (Cons b bs)
  from Cons.prems obtain k' where k: "k = Suc k'" by (cases k) auto
  let ?w = "w\<lparr>now := Suc (now w), rx_buffer := bs @ rest\<rparr>"
  let ?v = "acc + (unat b mod 128) * 2 ^ shift"
  have recv: "receive_exact P 1 timeout w = (Inr [b], ?w)"
    using Cons.prems by (simp add: receive_exact_buffered)
  have val: "acc OR push_bit shift (unat (b AND 0x7F)) = ?v"
    using Cons.prems by (simp add: byte_and_127 or_push_bit_add)
  show ?case
  proof (cases "bs = []")
    case True
    with Cons.prems k recv val show ?thesis
      by (simp add: bindM_def Let_def ret_def byte_and_128)
  next
    case False
    have "?v < 2 ^ (shift + 7)" using Cons.prems(4) by (rule acc_step)
    moreover from False Cons.prems have "leb_form bs" and "\<not> unat b < 128" by (auto simp: leb_form_Cons)
    ultimately have "read_varint_loop P timeout k' ?v (shift + 7) ?w =
        (Inr (Some (?v + leb_value bs * 2 ^ (shift + 7))), ?w\<lparr>now := now ?w + length bs, rx_buffer := rest\<rparr>)"
      using Cons.prems k by (intro Cons.IH) auto
    with \<open>\<not> unat b < 128\<close> k recv val show ?thesis
      by (simp add: bindM_def Let_def byte_and_128 power_add algebra_simps)
  qed
qed simp

lemma read_varint_buffered:
  assumes "n < 2 ^ 35" and "rx_buffer w = encode_varint n @ rest"
  shows "read_varint P timeout w =
           (Inr (Some n), w\<lparr>now := now w + length (encode_varint n), rx_buffer := rest\<rparr>)"
proof -
  have "length (encode_varint n) \<le> 5" using assms(1) by (subst encode_varint_length) simp
  from read_varint_loop_buffered [OF encode_varint_form assms(2) this, of 0 0]
  show ?thesis by (simp add: read_varint_def try_except_def encode_varint_value)
qed

lemma receive_main_message_framed:
  assumes "rx_buffer w = framed payload @ rest" and "0 < length payload" and "length payload \<le> 1000000"
    and "parse P payload = Some msg"
  shows "receive_main_message P timeout w =
           (Inr (Some msg), w\<lparr>now := now w + Suc (length (encode_varint (length payload))), rx_buffer := rest\<rparr>)"
proof -
  let ?n = "length payload"
  let ?w = "w\<lparr>now := now w + length (encode_varint ?n), rx_buffer := payload @ rest\<rparr>"
  have "read_varint P timeout w = (Inr (Some ?n), ?w)"
    using assms by (intro read_varint_buffered) (auto simp: framed_def)
  moreover have "receive_exact P ?n timeout ?w = (Inr payload, ?w\<lparr>now := Suc (now ?w), rx_buffer := rest\<rparr>)"
    using assms by (simp add: receive_exact_buffered)
  ultimately show ?thesis
    using assms by (simp add: receive_main_message_def try_except_def bindM_def ret_def)
qed

section \<open>What a read of a message may do\<close>

lemma read_varint_rx [intro]: "keeps rx_frame (read_varint P timeout)"
proof -
  have "keeps rx_frame (read_varint_loop P timeout k acc shift)" for k acc shift
    by (induction k arbitrary: acc shift)
      (auto intro!: rf.keeps_rules receive_exact_rx split: list.split)
  then show ?thesis unfolding read_varint_def by (intro rf.keeps_rules)
qed

lemma receive_main_message_rx [intro]: "keeps rx_frame (receive_main_message P timeout)"
  unfolding receive_main_message_def by (intro rf.keeps_rules read_varint_rx receive_exact_rx)

lemma receive_main_message_Inl: "receive_main_message P timeout w = (Inl e, w') \<Longrightarrow> \<not> is_exception e"
  by (auto simp: receive_main_message_def try_except_def ret_def split: prod.splits sum.splits if_splits)

text \<open>The length read is below \<open>2 ^ 35\<close>, and a message is only parsed from exactly that many
  bytes, at least one and at most a million.\<close>

lemma read_varint_loop_bound:
  "read_varint_loop P timeout k acc shift w = (Inr (Some n), w') \<Longrightarrow> acc < 2 ^ shift \<Longrightarrow> n < 2 ^ (shift + 7 * k)"
proof (induction k arbitrary: acc shift w)
  case (Suc k)
  from Suc.prems(1) obtain b w1 where "receive_exact P 1 timeout w = (Inr b, w1)" and
    rest: "(case b of [] \<Rightarrow> ret None
       | byte # _ \<Rightarrow> let acc' = acc OR push_bit shift (unat (byte AND 0x7F))
          in if byte AND 0x80 = 0 then ret (Some acc')
             else read_varint_loop P timeout k acc' (shift + 7)) w1 = (Inr (Some n), w')"
    by (auto elim: bindM_InrE)
  then obtain byte bs where b: "b = byte # bs" by (cases b) (auto simp: ret_def)
  let ?v = "acc OR push_bit shift (unat (byte AND 0x7F))"
  have v: "?v < 2 ^ (shift + 7)"
    using Suc.prems(2) by (simp add: byte_and_127 or_push_bit_add acc_step)
  have "2 ^ (shift + 7) \<le> (2 :: nat) ^ (shift + 7 * Suc k)" by (intro power_increasing) auto
  with v have small: "?v < 2 ^ (shift + 7 * Suc k)" by linarith
  show ?case
  proof (cases "byte AND 0x80 = 0")
    case True
    with rest b small show ?thesis by (simp add: Let_def ret_def)
  next
    case False
    with rest b have "read_varint_loop P timeout k ?v (shift + 7) w1 = (Inr (Some n), w')"
      by (simp add: Let_def)
    from Suc.IH [OF this v] show ?thesis by (simp add: ac_simps)
  qed
qed (simp add: ret_def)

lemma read_varint_bound: "read_varint P timeout w = (Inr (Some n), w') \<Longrightarrow> n < 2 ^ 35"
  using read_varint_loop_bound [of P timeout 5 0 0]
  by (auto simp: read_varint_def try_except_def ret_def split: prod.splits sum.splits if_splits)

text \<open>What a read of a length takes from the stream is one complete length prefix.\<close>

lemma read_varint_loop_stream:
  assumes lossless: "lossless P pending"
  shows "read_varint_loop P timeout k acc shift w = (Inr (Some n), w') \<Longrightarrow> acc < 2 ^ shift \<Longrightarrow>
    \<exists>bs. leb_form bs \<and> length bs \<le> k \<and> n = acc + leb_value bs * 2 ^ shift \<and>
         rx_buffer w @ pending (dev w) = bs @ rx_buffer w' @ pending (dev w')"
proof (induction k arbitrary: acc shift w)
  case (Suc k)
  from Suc.prems(1) obtain b w1 where recv: "receive_exact P 1 timeout w = (Inr b, w1)" and
    rest: "(case b of [] \<Rightarrow> ret None
       | byte # _ \<Rightarrow> let acc' = acc OR push_bit shift (unat (byte AND 0x7F))
          in if byte AND 0x80 = 0 then ret (Some acc')
             else read_varint_loop P timeout k acc' (shift + 7)) w1 = (Inr (Some n), w')"
    by (auto elim: bindM_InrE)
  then obtain byte where b: "b = [byte]"
    using receive_exact_shape [OF recv] by (cases b) (auto simp: ret_def)
  let ?v = "acc OR push_bit shift (unat (byte AND 0x7F))"
  have val: "?v = acc + (unat byte mod 128) * 2 ^ shift"
    using Suc.prems(2) by (simp add: byte_and_127 or_push_bit_add)
  have stream: "rx_buffer w @ pending (dev w) = [byte] @ rx_buffer w1 @ pending (dev w1)"
    using receive_exact_lossless [OF lossless recv] b by simp
  show ?case
  proof (cases "byte AND 0x80 = 0")
    case True
    with rest b val have "n = acc + leb_value [byte] * 2 ^ shift" and "w' = w1"
      by (simp_all add: Let_def ret_def)
    with True stream show ?thesis by (intro exI [of _ "[byte]"]) (simp add: byte_and_128)
  next
    case False
    with rest b have run: "read_varint_loop P timeout k ?v (shift + 7) w1 = (Inr (Some n), w')"
      by (simp add: Let_def)
    have "?v < 2 ^ (shift + 7)" using Suc.prems(2) val by (simp add: acc_step)
    from Suc.IH [OF run this] obtain bs where bs: "leb_form bs" "length bs \<le> k"
      "n = ?v + leb_value bs * 2 ^ (shift + 7)"
      "rx_buffer w1 @ pending (dev w1) = bs @ rx_buffer w' @ pending (dev w')" by blast
    have "leb_form (byte # bs)" using False bs(1) by (cases bs) (auto simp: byte_and_128)
    with bs stream val show ?thesis
      by (intro exI [of _ "byte # bs"]) (simp add: power_add algebra_simps)
  qed
qed (simp add: ret_def)

lemma read_varint_stream:
  assumes "lossless P pending" and "read_varint P timeout w = (Inr (Some n), w')"
  shows "\<exists>bs. leb_form bs \<and> length bs \<le> 5 \<and> leb_value bs = n \<and>
              rx_buffer w @ pending (dev w) = bs @ rx_buffer w' @ pending (dev w')"
proof -
  from assms(2) have "read_varint_loop P timeout 5 0 0 w = (Inr (Some n), w')"
    by (auto simp: read_varint_def try_except_def ret_def split: prod.splits sum.splits if_splits)
  from read_varint_loop_stream [OF assms(1) this] show ?thesis by auto
qed

lemma receive_main_message_stream:
  assumes lossless: "lossless P pending" and run: "receive_main_message P timeout w = (Inr (Some msg), w')"
  shows "\<exists>prefix payload. leb_form prefix \<and> length prefix \<le> 5 \<and> leb_value prefix = length payload \<and>
           1 \<le> length payload \<and> length payload \<le> 1000000 \<and> parse P payload = Some msg \<and>
           rx_buffer w @ pending (dev w) = prefix @ payload @ rx_buffer w' @ pending (dev w')"
proof -
  let ?body = "\<lambda>payload_len. case payload_len of
          None \<Rightarrow> ret None
        | Some n \<Rightarrow>
            (if n \<le> 0 \<or> 1000000 < n then ret None
             else bindM (receive_exact P n timeout) (\<lambda>payload.
                  if payload = [] \<or> length payload \<noteq> n then ret None
                  else case parse P payload of None \<Rightarrow> raise DecodeError | Some msg \<Rightarrow> ret (Some msg)))"
  from run have "bindM (read_varint P timeout) ?body w = (Inr (Some msg), w')"
    by (auto simp: receive_main_message_def try_except_def ret_def split: prod.splits sum.splits if_splits)
  then obtain len w1 where len: "read_varint P timeout w = (Inr len, w1)"
    and body: "?body len w1 = (Inr (Some msg), w')" by (rule bindM_InrE)
  from body obtain n payload where n: "len = Some n" "0 < n" "n \<le> 1000000"
    and payload: "receive_exact P n timeout w1 = (Inr payload, w')" "length payload = n" "parse P payload = Some msg"
    by (auto simp: ret_def raise_def elim!: bindM_InrE split: option.splits if_splits)
  from read_varint_stream [OF lossless] len n obtain prefix where
    "leb_form prefix" "length prefix \<le> 5" "leb_value prefix = n"
    "rx_buffer w @ pending (dev w) = prefix @ rx_buffer w1 @ pending (dev w1)" by blast
  with receive_exact_lossless [OF lossless payload(1)] payload n show ?thesis
    by (intro exI [of _ prefix] exI [of _ payload]) auto
qed

section \<open>Chunks put together again\<close>

lemma concat_slices:
  "0 < k \<Longrightarrow> concat (map (\<lambda>j. take k (drop (j * k) xs)) [0..<m]) = take (m * k) xs"
proof (induction m)
  case (Suc m)
  then show ?case
    by (simp add: take_add add.commute [of k])
qed simp

lemma chunk_concat: "0 < k \<Longrightarrow> concat (chunk data k) = data"
proof (cases "data = []")
  case False
  assume k: "0 < k"
  have "length data \<le> (length data + k - 1) div k * k"
  proof -
    have "(length data + k - 1) mod k < k" using k by simp
    with div_mult_mod_eq [of "length data + k - 1" k] show ?thesis by linarith
  qed
  with k False show ?thesis
    by (simp add: chunk_def range_step_def comp_def concat_slices)
qed (simp add: chunk_def)

lemma chunk_nonempty [simp]: "0 < k \<Longrightarrow> chunk data k \<noteq> []"
  by (cases data) (auto simp: chunk_def range_step_def div_eq_0_iff)

lemma chunk_bounds: "c \<in> set (chunk data k) \<Longrightarrow> length c \<le> k"
  by (auto simp: chunk_def split: if_splits)

lemma chunk_sizes:
  assumes "0 < k" and "data \<noteq> []" and "c \<in> set (chunk data k)"
  shows "c \<noteq> []"
proof -
  from assms(2,3) obtain j where j: "j < (length data + k - 1) div k" and c: "c = take k (drop (j * k) data)"
    by (auto simp: chunk_def range_step_def)
  have "Suc j * k \<le> (length data + k - 1) div k * k" using j by (intro mult_right_mono) auto
  also have "\<dots> \<le> length data + k - 1" by (rule div_times_less_eq_dividend)
  finally have "j * k < length data" using assms(1,2) by (cases data) auto
  with c assms(1) show ?thesis by simp
qed

end
