(* ===== verification/Rpc_Core.thy ===== *)
theory Rpc_Core
  imports Framing
begin

text \<open>
  The core of \<^verbatim>\<open>rpc/protobuf_rpc.py\<close>: command numbers, the negotiation that moves the
  device from its text shell into an RPC session, and one request with its response.
\<close>

section \<open>The RPC object\<close>

text \<open>The fields of the current \<^verbatim>\<open>ProtobufRPC\<close> object.  Its lock is the client's
  (\<open>io_locked\<close>); its transport is the client's transport.\<close>

record 'd rworld = "'d tworld" +
  r_command_id :: nat
  r_session_started :: bool
  r_last_failure :: "nat option"

definition NEGOTIATION_COOLDOWN :: nat where "NEGOTIATION_COOLDOWN = seconds 5"

definition get_next_command_id :: "(('d, 'z) rworld_scheme, nat) action" where
  "get_next_command_id w =
     (let i = (r_command_id w + 1) mod 0xFFFFFFFF in (Inr i, w\<lparr>r_command_id := i\<rparr>))"

definition set_session :: "bool \<Rightarrow> (('d, 'z) rworld_scheme, unit) action" where
  "set_session b = modify (\<lambda>w. w\<lparr>r_session_started := b\<rparr>)"

definition send_message :: "'d platform \<Rightarrow> main_msg \<Rightarrow> (('d, 'z) tworld_scheme, unit) action" where
  "send_message P msg = transport_send P (framed (serialize P msg))"

section \<open>Draining\<close>

text \<open>Read and drop what the device sends until the time is up (\<^verbatim>\<open>_drain_host_rx\<close>, and its
  copy inside \<^verbatim>\<open>_ensure_rpc_session_started\<close>).\<close>

function drain_host_loop ::
  "'d platform \<Rightarrow> nat \<Rightarrow> ('d, 'z) tworld_scheme \<Rightarrow> (exn + unit) \<times> ('d, 'z) tworld_scheme" where
  "drain_host_loop P end_at w =
     (if now w < end_at
      then case transport_receive P (Some (millis 50)) (w\<lparr>now := Suc (now w)\<rparr>) of
             (Inl e, w1) \<Rightarrow> (Inl e, w1)
           | (Inr data, w1) \<Rightarrow>
               (if data = []
                then case sleep (millis 10) w1 of
                       (Inl e, w2) \<Rightarrow> (Inl e, w2)
                     | (Inr _, w2) \<Rightarrow> drain_host_loop P end_at w2
                else drain_host_loop P end_at w1)
      else (Inr (), w\<lparr>now := Suc (now w)\<rparr>))"
  by pat_completeness auto
termination
  by (relation "measure (\<lambda>(P, end_at, w). end_at - now w)")
    (auto dest!: transport_receive_later sleep_later)

declare drain_host_loop.simps [simp del]

definition drain_host_rx :: "'d platform \<Rightarrow> nat \<Rightarrow> (('d, 'z) tworld_scheme, unit) action" where
  "drain_host_rx P max_ns =
     try_except is_exception
       (bindM monotonic (\<lambda>t. drain_host_loop P (t + max_ns)))
       (\<lambda>_. ret ())"

section \<open>Leaving and entering an RPC session\<close>

definition send_stop_session :: "'d platform \<Rightarrow> (('d, 'z) rworld_scheme, unit) action" where
  "send_stop_session P =
     thenM (send_message P (main_request 0 False StopSession))
     (thenM (drain_host_rx P (millis 400))
     (set_session False))"

definition PROBE :: bytes where "PROBE = encode ''mcp''"

definition probe_rpc :: "'d platform \<Rightarrow> nat \<Rightarrow> (('d, 'z) tworld_scheme, bool) action" where
  "probe_rpc P timeout =
     try_except is_exception
       (thenM clear_receive_buffer
       (thenM (drain_host_rx P (millis 200))
       (thenM (send_message P (main_request 1 False (Request (PingRequest PROBE))))
       (bindM (receive_main_message P timeout) (\<lambda>msg.
        ret (case msg of
               None \<Rightarrow> False
             | Some m \<Rightarrow> field is_PingResponse ping_data m = Some PROBE))))))
       (\<lambda>_. thenM (drain_host_rx P (millis 500)) (ret False))"

definition force_start :: "'d platform \<Rightarrow> bool" where
  "force_start P =
     (lower (case environ P ''FLIPPER_FORCE_START_RPC_SESSION'' of None \<Rightarrow> [] | Some v \<Rightarrow> v)
        \<in> {''1'', ''true'', ''yes'', ''on''})"

definition is_wifi_transport :: "('d, 'z) tworld_scheme \<Rightarrow> bool" where
  "is_wifi_transport w \<longleftrightarrow> str_in ''wifi'' (lower (get_name w)) \<or> has_host w"

text \<open>Cancel a half-typed line, ask for a session with a bare carriage return, and probe.\<close>

definition CTRL_C_CR :: bytes where "CTRL_C_CR = [0x03, 0x0D]"

definition START_RPC_SESSION :: bytes where
  "START_RPC_SESSION = encode ''start_rpc_session'' @ [0x0D]"

definition start_session_attempt :: "'d platform \<Rightarrow> (('d, 'z) tworld_scheme, bool) action" where
  "start_session_attempt P =
     thenM (try_except is_exception
              (thenM (transport_send P CTRL_C_CR) (transport_send P START_RPC_SESSION))
              (\<lambda>_. ret ()))
     (thenM (drain_host_rx P (millis 400))
     (thenM clear_receive_buffer
     (thenM (sleep (millis 200))
     (probe_rpc P (millis 1200)))))"

definition record_failure :: "(('d, 'z) rworld_scheme, unit) action" where
  "record_failure = bindM monotonic (\<lambda>t. modify (\<lambda>w. w\<lparr>r_last_failure := Some t\<rparr>))"

definition negotiate :: "'d platform \<Rightarrow> (('d, 'z) rworld_scheme, unit) action" where
  "negotiate P =
     bindM (start_session_attempt P) (\<lambda>ok.
     bindM (if \<not> ok then start_session_attempt P else ret ok) (\<lambda>ok.
     bindM (if \<not> ok then start_session_attempt P else ret ok) (\<lambda>ok.
     thenM (set_session ok)
     (if \<not> ok then record_failure else ret ()))))"

definition begin_session :: "'d platform \<Rightarrow> (('d, 'z) rworld_scheme, unit) action" where
  "begin_session P =
     thenM clear_receive_buffer
     (thenM (sleep (millis 300))
     (bindM (get is_wifi_transport) (\<lambda>is_wifi.
      if is_wifi then set_session True
      else if \<not> force_start P
      then bindM (probe_rpc P (millis 400)) (\<lambda>answered.
           if answered then set_session True else negotiate P)
      else negotiate P)))"

definition ensure_rpc_session_started :: "'d platform \<Rightarrow> (('d, 'z) rworld_scheme, unit) action" where
  "ensure_rpc_session_started P =
     bindM (get r_session_started) (\<lambda>started.
     if started then ret ()
     else bindM (get r_last_failure) (\<lambda>failure.
          case failure of
            None \<Rightarrow> begin_session P
          | Some f \<Rightarrow> bindM monotonic (\<lambda>t.
                      if t - f < NEGOTIATION_COOLDOWN then ret () else begin_session P)))"

section \<open>One request\<close>

definition RESPONSE_TIMEOUT :: nat where "RESPONSE_TIMEOUT = millis 2500"

definition send_rpc_message ::
  "'d platform \<Rightarrow> main_msg \<Rightarrow> nat \<Rightarrow> (('d, 'z) rworld_scheme, main_msg option) action" where
  "send_rpc_message P msg response_timeout =
     try_except is_exception
       (thenM (ensure_rpc_session_started P)
       (thenM (send_message P msg)
       (receive_main_message P response_timeout)))
       (\<lambda>_. ret None)"

text \<open>Number a request and send it, the opening of every call.\<close>

definition request :: "'d platform \<Rightarrow> request_body \<Rightarrow> nat \<Rightarrow> (('d, 'z) rworld_scheme, main_msg option) action" where
  "request P c response_timeout =
     bindM get_next_command_id (\<lambda>i. send_rpc_message P (main_request i False (Request c)) response_timeout)"

definition is_ok :: "main_msg option \<Rightarrow> bool" where
  "is_ok resp = (case resp of None \<Rightarrow> False | Some m \<Rightarrow> command_status m = STATUS_OK)"

definition ok_reply ::
  "(response_body \<Rightarrow> bool) \<Rightarrow> (response_body \<Rightarrow> 'a) \<Rightarrow> main_msg option \<Rightarrow> 'a option" where
  "ok_reply p f resp =
     (case resp of
        None \<Rightarrow> None
      | Some m \<Rightarrow> (if command_status m = STATUS_OK then field p f m else None))"

text \<open>\<^verbatim>\<open>async with lock: try: return await wait_for(m, t) except Exception: return dflt\<close>.\<close>

definition timed :: "nat \<Rightarrow> 'a \<Rightarrow> (('d, 'z) world_scheme, 'a) action \<Rightarrow> (('d, 'z) world_scheme, 'a) action" where
  "timed t dflt m = with_lock (try_except is_exception (wait_for t m) (\<lambda>_. ret dflt))"

definition guarded :: "'a \<Rightarrow> ('s, 'a) action \<Rightarrow> ('s, 'a) action" where
  "guarded dflt m = try_except is_exception m (\<lambda>_. ret dflt)"

definition ping :: "'d platform \<Rightarrow> bytes \<Rightarrow> (('d, 'z) rworld_scheme, bytes option) action" where
  "ping P data =
     with_lock (guarded None
       (bindM (request P (PingRequest data) RESPONSE_TIMEOUT) (\<lambda>resp.
        ret (ok_reply is_PingResponse ping_data resp))))"

section \<open>The frame of the RPC layer\<close>

text \<open>What every call keeps: the base frame, the transport's class, the client's own fields.\<close>

definition r_frame :: "('d, 'z) rworld_scheme \<Rightarrow> ('d, 'z) rworld_scheme \<Rightarrow> bool" where
  "r_frame w w' \<longleftrightarrow> io_frame w w' \<and> t_class w' = t_class w \<and> rworld.more w' = rworld.more w"

interpretation rpcf: frame_rel r_frame
proof
  fix w w' w'' :: "('d, 'z) rworld_scheme"
  show "r_frame w w" by (simp add: r_frame_def io.refl)
  assume "r_frame w w'" and "r_frame w' w''"
  then show "r_frame w w''" by (auto simp: r_frame_def intro: io.trans)
qed

lemma t_frame_rpc_fields:
  assumes "t_frame w w'"
  shows "r_command_id w' = r_command_id w" "r_session_started w' = r_session_started w"
    "r_last_failure w' = r_last_failure w" "rworld.more w' = rworld.more w"
  using assms by (cases w; cases w'; simp add: t_frame_def)+

lemma t_frame_r_frame: "t_frame w w' \<Longrightarrow> r_frame w w'"
  by (simp add: r_frame_def t_frame_rpc_fields) (simp add: t_frame_def)

lemma keeps_t_r: "keeps t_frame m \<Longrightarrow> keeps r_frame m"
  by (erule keeps_mono) (rule t_frame_r_frame)

lemma rx_keeps_t: "keeps rx_frame m \<Longrightarrow> keeps t_frame m"
  by (erule keeps_mono) (simp add: rx_frame_def)

lemma sleep_t [intro]: "keeps t_frame (sleep t)" and monotonic_t [intro]: "keeps t_frame monotonic"
  and transport_send_t [intro]: "keeps t_frame (transport_send P data)"
  and clear_receive_buffer_t [intro]: "keeps t_frame clear_receive_buffer"
  and receive_main_message_t [intro]: "keeps t_frame (receive_main_message P timeout)"
  by (auto intro: link_keeps_t_frame rx_keeps_t simp: clear_receive_buffer_def)

lemma drain_host_loop_rx: "drain_host_loop P end_at w = (r, w') \<Longrightarrow> quiet w w'"
proof (induction P end_at w arbitrary: r w' rule: drain_host_loop.induct)
  case (1 P end_at w)
  have tick: "quiet w (w\<lparr>now := Suc (now w)\<rparr>)"
    by (simp add: quiet_def t_frame_def io_frame_def)
  show ?case
  proof (cases "now w < end_at")
    case False
    with "1.prems" tick show ?thesis by (simp add: drain_host_loop.simps [of P end_at w])
  next
    case True
    obtain r1 w1 where w1: "transport_receive P (Some (millis 50)) (w\<lparr>now := Suc (now w)\<rparr>) = (r1, w1)"
      by fastforce
    obtain r2 w2 where w2: "sleep (millis 10) w1 = (r2, w2)" by fastforce
    have q1: "quiet w w1" using qf.trans [OF tick keepsD [OF transport_receive_quiet w1]] .
    have q2: "quiet w w2" using qf.trans [OF q1 keepsD [OF sleep_quiet w2]] .
    show ?thesis
      using "1.prems" "1.IH" [OF True w1 [symmetric]] True w1 w2 q1 q2
      by (auto simp: drain_host_loop.simps [of P end_at w] split: sum.splits if_splits intro: qf.trans)
  qed
qed

lemma drain_host_rx_quiet [intro]: "keeps quiet (drain_host_rx P max_ns)"
proof -
  have "keeps quiet (drain_host_loop P d)" for d by (blast intro: keepsI drain_host_loop_rx)
  then show ?thesis unfolding drain_host_rx_def by (intro quiet_rules)
qed

lemma quiet_keeps_t: "keeps quiet m \<Longrightarrow> keeps t_frame m"
  by (erule keeps_mono) (simp add: quiet_def)

lemma drain_host_rx_t [intro]: "keeps t_frame (drain_host_rx P max_ns)"
  by (rule quiet_keeps_t) blast

lemmas t_rules = tf.keeps_rules sleep_t monotonic_t transport_send_t clear_receive_buffer_t
  receive_main_message_t drain_host_rx_t

lemma send_message_t [intro]: "keeps t_frame (send_message P msg)"
  unfolding send_message_def by (intro t_rules)

lemma probe_rpc_t [intro]: "keeps t_frame (probe_rpc P timeout)"
  unfolding probe_rpc_def by (intro t_rules send_message_t)

lemma start_session_attempt_t [intro]: "keeps t_frame (start_session_attempt P)"
  unfolding start_session_attempt_def by (intro t_rules probe_rpc_t)

lemma set_session_r [intro]: "keeps r_frame (set_session b)"
  by (simp add: keeps_def set_session_def modify_def r_frame_def io_frame_def)

lemma get_next_command_id_r [intro]: "keeps r_frame get_next_command_id"
  by (simp add: keeps_def get_next_command_id_def r_frame_def io_frame_def Let_def)

lemma record_failure_r [intro]: "keeps r_frame record_failure"
  by (auto simp: record_failure_def keeps_def bindM_def monotonic_def modify_def r_frame_def io_frame_def)

lemmas r_rules = rpcf.keeps_rules set_session_r get_next_command_id_r record_failure_r
  keeps_t_r [OF sleep_t] keeps_t_r [OF monotonic_t] keeps_t_r [OF transport_send_t]
  keeps_t_r [OF clear_receive_buffer_t] keeps_t_r [OF receive_main_message_t]
  keeps_t_r [OF drain_host_rx_t] keeps_t_r [OF send_message_t] keeps_t_r [OF probe_rpc_t]
  keeps_t_r [OF start_session_attempt_t]

lemma negotiate_r [intro]: "keeps r_frame (negotiate P)"
  unfolding negotiate_def by (intro r_rules)

lemma begin_session_r [intro]: "keeps r_frame (begin_session P)"
  unfolding begin_session_def by (intro r_rules negotiate_r)

lemma ensure_rpc_session_started_r [intro]: "keeps r_frame (ensure_rpc_session_started P)"
  unfolding ensure_rpc_session_started_def by (intro r_rules begin_session_r)

lemma send_stop_session_r [intro]: "keeps r_frame (send_stop_session P)"
  unfolding send_stop_session_def by (intro r_rules)

lemma send_rpc_message_r [intro]: "keeps r_frame (send_rpc_message P msg timeout)"
  unfolding send_rpc_message_def by (intro r_rules ensure_rpc_session_started_r)

lemma request_r [intro]: "keeps r_frame (request P c timeout)"
  unfolding request_def by (intro r_rules send_rpc_message_r)

lemma with_lock_r [intro]:
  assumes "keeps r_frame m"
  shows "keeps r_frame (with_lock m)"
proof (rule keepsI)
  fix w r w' assume run: "with_lock m w = (r, w')"
  obtain r' v where v: "m (w\<lparr>io_locked := True\<rparr>) = (r', v)" by fastforce
  with assms have "r_frame (w\<lparr>io_locked := True\<rparr>) v" by (rule keepsD)
  with run v show "r_frame w w'"
    by (auto simp: with_lock_def r_frame_def io_frame_def split: if_splits)
qed

lemma wait_for_r [intro]:
  assumes "keeps r_frame m"
  shows "keeps r_frame (wait_for t m)"
proof (rule keepsI)
  fix w r w' assume run: "wait_for t m w = (r, w')"
  have "keeps io_frame m" using assms by (rule keeps_mono) (simp add: r_frame_def)
  then have "io_frame w w'" using run by (blast dest: keepsD wait_for_keeps)
  moreover have "t_class w' = t_class w \<and> rworld.more w' = rworld.more w"
    using run assms [THEN keepsD]
    by (auto simp: wait_for_def Let_def r_frame_def split: if_splits prod.splits)
  ultimately show "r_frame w w'" by (simp add: r_frame_def)
qed

lemma guarded_r [intro]: "keeps r_frame m \<Longrightarrow> keeps r_frame (guarded dflt m)"
  unfolding guarded_def by (intro rpcf.keeps_rules)

lemma timed_r [intro]: "keeps r_frame m \<Longrightarrow> keeps r_frame (timed t dflt m)"
  unfolding timed_def by (intro rpcf.keeps_rules with_lock_r wait_for_r)

lemmas call_rules = rpcf.keeps_rules request_r send_rpc_message_r with_lock_r wait_for_r guarded_r timed_r
  ensure_rpc_session_started_r get_next_command_id_r

lemma ping_r [intro]: "keeps r_frame (ping P data)"
  unfolding ping_def by (intro call_rules)

end
