(* ===== verification/Rpc_Session.thy ===== *)
theory Rpc_Session
  imports Rpc_Core
begin

text \<open>
  What the session negotiation guarantees: which byte strings it may put on the wire and how
  many, when it may believe that a session runs, and how a failure keeps the next calls from
  negotiating again.
\<close>

section \<open>Counting what is sent\<close>

definition sends_upto :: "bytes set \<Rightarrow> nat \<Rightarrow> (('d, 'z) world_scheme, 'a) action \<Rightarrow> bool" where
  "sends_upto S n m \<longleftrightarrow>
     (\<forall>w r w'. m w = (r, w') \<longrightarrow>
        (\<exists>sent. tx_log w' = tx_log w @ sent \<and> set sent \<subseteq> S \<and> length sent \<le> n))"

lemma sends_uptoD:
  assumes "sends_upto S n m" and "m w = (r, w')"
  obtains sent where "tx_log w' = tx_log w @ sent" and "set sent \<subseteq> S" and "length sent \<le> n"
  using assms unfolding sends_upto_def by blast

lemma sends_silent: "(\<And>w r w'. m w = (r, w') \<Longrightarrow> tx_log w' = tx_log w) \<Longrightarrow> sends_upto S n m"
  unfolding sends_upto_def by (metis append_Nil2 empty_set empty_subsetI le0 list.size(3))

lemma sends_mono: "sends_upto S n m \<Longrightarrow> n \<le> k \<Longrightarrow> sends_upto S k m"
  unfolding sends_upto_def by (meson le_trans)

lemma sends_quiet: "keeps quiet m \<Longrightarrow> sends_upto S n m"
  by (rule sends_silent) (blast dest: quietD)

lemma sends_rx: "keeps rx_frame m \<Longrightarrow> sends_upto S n m"
  by (rule sends_silent) (metis keepsD rx_frame_def)

lemma sends_basic:
  "sends_upto S n (ret x)" "sends_upto S n (raise e)" "sends_upto S n (get f)"
  "sends_upto S n clear_receive_buffer" "sends_upto S n (set_session b)" "sends_upto S n record_failure"
  "sends_upto S n get_next_command_id"
  by (auto intro!: sends_silent simp: action_defs clear_receive_buffer_def set_session_def
      record_failure_def monotonic_def get_next_command_id_def Let_def)

lemma sends_bindM:
  assumes "sends_upto S a m" and "\<And>x. sends_upto S b (k x)"
  shows "sends_upto S (a + b) (bindM m k)"
  unfolding sends_upto_def
proof (intro allI impI)
  fix w r w' assume run: "bindM m k w = (r, w')"
  obtain r1 w1 where w1: "m w = (r1, w1)" by fastforce
  obtain s1 where s1: "tx_log w1 = tx_log w @ s1" "set s1 \<subseteq> S" "length s1 \<le> a"
    using sends_uptoD [OF assms(1) w1] .
  show "\<exists>sent. tx_log w' = tx_log w @ sent \<and> set sent \<subseteq> S \<and> length sent \<le> a + b"
  proof (cases r1)
    case (Inl e)
    with run w1 s1 show ?thesis by (auto simp: bindM_def)
  next
    case (Inr x)
    with run w1 have "k x w1 = (r, w')" by (simp add: bindM_def)
    with assms(2) obtain s2 where "tx_log w' = tx_log w1 @ s2" "set s2 \<subseteq> S" "length s2 \<le> b"
      by (rule sends_uptoD)
    with s1 show ?thesis by (intro exI [of _ "s1 @ s2"]) auto
  qed
qed

lemma sends_thenM: "sends_upto S a m \<Longrightarrow> sends_upto S b k \<Longrightarrow> sends_upto S (a + b) (thenM m k)"
  by (simp add: thenM_def sends_bindM)

lemma sends_try_except:
  assumes "sends_upto S a m" and "\<And>e. sends_upto S b (h e)"
  shows "sends_upto S (a + b) (try_except p m h)"
  unfolding sends_upto_def
proof (intro allI impI)
  fix w r w' assume run: "try_except p m h w = (r, w')"
  obtain r1 w1 where w1: "m w = (r1, w1)" by fastforce
  obtain s1 where s1: "tx_log w1 = tx_log w @ s1" "set s1 \<subseteq> S" "length s1 \<le> a"
    using sends_uptoD [OF assms(1) w1] .
  show "\<exists>sent. tx_log w' = tx_log w @ sent \<and> set sent \<subseteq> S \<and> length sent \<le> a + b"
  proof (cases "\<exists>e. r1 = Inl e \<and> p e")
    case False
    with run w1 have "w' = w1" by (auto simp: try_except_def split: sum.splits)
    with s1 show ?thesis by auto
  next
    case True
    then obtain e where "r1 = Inl e" "p e" by blast
    with run w1 have "h e w1 = (r, w')" by (simp add: try_except_def)
    with assms(2) obtain s2 where "tx_log w' = tx_log w1 @ s2" "set s2 \<subseteq> S" "length s2 \<le> b"
      by (rule sends_uptoD)
    with s1 show ?thesis by (intro exI [of _ "s1 @ s2"]) auto
  qed
qed

lemma sends_if: "sends_upto S n m \<Longrightarrow> sends_upto S n m' \<Longrightarrow> sends_upto S n (if b then m else m')"
  by simp

lemma sends_transport: "data \<in> S \<Longrightarrow> sends_upto S 1 (transport_send P data)"
  unfolding sends_upto_def
  by (metis append_Nil2 empty_set empty_subsetI insert_subset le_numeral_extra(3,4) length_Cons
      list.set(2) list.size(3) One_nat_def zero_le tr.send_log_cases le_refl)

text \<open>An action that writes a fixed sequence of byte strings, in order, and all of it when it
  returns a value; an exception may cut the sequence short.\<close>

definition sends_prefix :: "bytes list \<Rightarrow> (('d, 'z) world_scheme, 'a) action \<Rightarrow> bool" where
  "sends_prefix bs m \<longleftrightarrow>
     (\<forall>w r w'. m w = (r, w') \<longrightarrow>
        (\<exists>sent rest. bs = sent @ rest \<and> tx_log w' = tx_log w @ sent \<and> ((\<exists>x. r = Inr x) \<longrightarrow> rest = [])))"

lemma sends_prefixD:
  assumes "sends_prefix bs m" and "m w = (r, w')"
  obtains sent rest where "bs = sent @ rest" and "tx_log w' = tx_log w @ sent" and "(\<exists>x. r = Inr x) \<longrightarrow> rest = []"
  using assms unfolding sends_prefix_def by blast

lemma sends_prefix_silent: "(\<And>w r w'. m w = (r, w') \<Longrightarrow> tx_log w' = tx_log w) \<Longrightarrow> sends_prefix [] m"
  unfolding sends_prefix_def by auto

lemma sends_prefix_rx: "keeps rx_frame m \<Longrightarrow> sends_prefix [] m"
  by (rule sends_prefix_silent) (metis keepsD rx_frame_def)

lemma sends_prefix_quiet: "keeps quiet m \<Longrightarrow> sends_prefix [] m"
  by (rule sends_prefix_rx) (rule quiet_rx_frame)

lemma sends_prefix_simple:
  "sends_prefix [] (ret x)" "sends_prefix [] (get f)" "sends_prefix [] clear_receive_buffer"
  "sends_prefix [] (set_session b)" "sends_prefix [] get_next_command_id" "sends_prefix [] (sleep t)"
  by (auto intro!: sends_prefix_silent simp: action_defs clear_receive_buffer_def set_session_def
      get_next_command_id_def Let_def sleep_def dest: await_io_log)

lemma sends_prefix_raise: "sends_prefix bs (raise e)"
  by (simp add: sends_prefix_def raise_def)

lemma sends_prefix_send: "sends_prefix [data] (transport_send P data)"
  unfolding sends_prefix_def
proof (intro allI impI)
  fix w r w' assume run: "transport_send P data w = (r, w')"
  then consider "tx_log w' = tx_log w" "\<forall>x. r \<noteq> Inr x" | "tx_log w' = tx_log w @ [data]"
    using tr.send_log_cases [OF run] tr.send_logged by (cases r) blast+
  then show "\<exists>sent rest. [data] = sent @ rest \<and> tx_log w' = tx_log w @ sent \<and> ((\<exists>x. r = Inr x) \<longrightarrow> rest = [])"
    by cases auto
qed

lemma sends_prefix_bindM:
  assumes "sends_prefix a m" and "\<And>x. sends_prefix b (k x)"
  shows "sends_prefix (a @ b) (bindM m k)"
  unfolding sends_prefix_def
proof (intro allI impI)
  fix w r w' assume run: "bindM m k w = (r, w')"
  obtain r1 w1 where w1: "m w = (r1, w1)" by fastforce
  obtain s1 t1 where s1: "a = s1 @ t1" "tx_log w1 = tx_log w @ s1" "(\<exists>x. r1 = Inr x) \<longrightarrow> t1 = []"
    using sends_prefixD [OF assms(1) w1] .
  show "\<exists>sent rest. a @ b = sent @ rest \<and> tx_log w' = tx_log w @ sent \<and> ((\<exists>x. r = Inr x) \<longrightarrow> rest = [])"
  proof (cases r1)
    case (Inl e)
    with run w1 s1 show ?thesis by (auto simp: bindM_def)
  next
    case (Inr x)
    with run w1 have k: "k x w1 = (r, w')" by (simp add: bindM_def)
    obtain s2 t2 where "b = s2 @ t2" "tx_log w' = tx_log w1 @ s2" "(\<exists>x. r = Inr x) \<longrightarrow> t2 = []"
      using sends_prefixD [OF assms(2) k] .
    with s1 Inr show ?thesis by auto
  qed
qed

lemma sends_prefix_thenM: "sends_prefix a m \<Longrightarrow> sends_prefix b k \<Longrightarrow> sends_prefix (a @ b) (thenM m k)"
  by (simp add: thenM_def sends_prefix_bindM)

lemma sends_prefix_with_lock:
  assumes "sends_prefix a m"
  shows "sends_prefix a (with_lock m)"
  unfolding sends_prefix_def
proof (intro allI impI)
  fix w r w' assume run: "with_lock m w = (r, w')"
  obtain r1 w1 where w1: "m (w\<lparr>io_locked := True\<rparr>) = (r1, w1)" by fastforce
  obtain s t where "a = s @ t" "tx_log w1 = tx_log w @ s" "(\<exists>x. r1 = Inr x) \<longrightarrow> t = []"
    using sends_prefixD [OF assms w1] by auto
  with run w1 show "\<exists>sent rest. a = sent @ rest \<and> tx_log w' = tx_log w @ sent \<and> ((\<exists>x. r = Inr x) \<longrightarrow> rest = [])"
    by (auto simp: with_lock_def split: if_splits)
qed

lemmas sends_prefix_rules = sends_prefix_simple sends_prefix_send sends_prefix_bindM sends_prefix_thenM
  sends_prefix_with_lock

section \<open>What a negotiation may send\<close>

definition probe_frame :: "'d platform \<Rightarrow> bytes" where
  "probe_frame P = framed (serialize P (main_request 1 False (Request (PingRequest PROBE))))"

definition negotiation_sends :: "'d platform \<Rightarrow> bytes set" where
  "negotiation_sends P = {probe_frame P, CTRL_C_CR, START_RPC_SESSION}"

lemma sends_drain: "sends_upto S n (drain_host_rx P t)"
  by (rule sends_quiet) blast

lemma sends_receive_main: "sends_upto S n (receive_main_message P t)"
  by (rule sends_rx) blast

lemma sends_sleep: "sends_upto S n (sleep t)"
  by (rule sends_silent) (auto simp: sleep_def dest: await_io_log)

lemma sends_monotonic: "sends_upto S n monotonic"
  by (rule sends_silent) (auto simp: monotonic_def)

lemmas sends_rules = sends_basic sends_drain sends_receive_main sends_sleep sends_monotonic

lemma sends_prefix_receive: "sends_prefix [] (receive_main_message P t)" and
  sends_prefix_drain: "sends_prefix [] (drain_host_rx P t)"
  by (rule sends_prefix_rx, blast, rule sends_prefix_quiet, blast)

lemma sends_prefix_stop:
  "sends_prefix [framed (serialize P (main_request 0 False StopSession))] (send_stop_session P)"
proof -
  have "sends_prefix ([framed (serialize P (main_request 0 False StopSession))] @ [] @ []) (send_stop_session P)"
    unfolding send_stop_session_def send_message_def by (intro sends_prefix_rules sends_prefix_drain)
  then show ?thesis by simp
qed

lemma probe_rpc_sends: "sends_upto (negotiation_sends P) 1 (probe_rpc P t)"
proof -
  let ?S = "negotiation_sends P"
  have send: "sends_upto ?S 1 (send_message P (main_request 1 False (Request (PingRequest PROBE))))"
    unfolding send_message_def by (rule sends_transport) (simp add: negotiation_sends_def probe_frame_def)
  have "sends_upto ?S ((0 + (0 + (1 + (0 + 0)))) + (0 + 0)) (probe_rpc P t)"
    unfolding probe_rpc_def
    by (intro sends_try_except sends_thenM sends_bindM send sends_rules)
  then show ?thesis by simp
qed

lemma start_session_attempt_sends: "sends_upto (negotiation_sends P) 3 (start_session_attempt P)"
proof -
  let ?S = "negotiation_sends P"
  have "sends_upto ?S 1 (transport_send P CTRL_C_CR)" and "sends_upto ?S 1 (transport_send P START_RPC_SESSION)"
    by (rule sends_transport, simp add: negotiation_sends_def)+
  then have "sends_upto ?S (((1 + 1) + 0) + (0 + (0 + (0 + 1)))) (start_session_attempt P)"
    unfolding start_session_attempt_def
    by (intro sends_try_except sends_thenM sends_rules probe_rpc_sends)
  then show ?thesis by (simp add: numeral_3_eq_3)
qed

lemma negotiate_sends: "sends_upto (negotiation_sends P) 9 (negotiate P)"
proof -
  have "sends_upto (negotiation_sends P) (3 + (3 + (3 + (0 + 0)))) (negotiate P)"
    unfolding negotiate_def
    by (intro sends_thenM sends_bindM sends_if start_session_attempt_sends sends_rules)
  then show ?thesis by simp
qed

lemma begin_session_sends: "sends_upto (negotiation_sends P) 10 (begin_session P)"
proof -
  have "sends_upto (negotiation_sends P) 10 (negotiate P)"
    by (rule sends_mono [OF negotiate_sends]) simp
  moreover have "sends_upto (negotiation_sends P) (1 + 9) (bindM (probe_rpc P t) (\<lambda>ok. if ok then set_session True else negotiate P))" for t
    by (intro sends_bindM sends_if probe_rpc_sends negotiate_sends sends_rules)
  ultimately have "sends_upto (negotiation_sends P) (0 + (0 + (0 + 10))) (begin_session P)"
    unfolding begin_session_def
    by (intro sends_thenM sends_bindM sends_if sends_rules) simp_all
  then show ?thesis by simp
qed

lemma ensure_sends: "sends_upto (negotiation_sends P) 10 (ensure_rpc_session_started P)"
proof -
  have "sends_upto (negotiation_sends P) (0 + 10)
      (bindM monotonic (\<lambda>t. if t - f < NEGOTIATION_COOLDOWN then ret () else begin_session P))" for f
    by (intro sends_bindM sends_if begin_session_sends sends_rules)
  then have "sends_upto (negotiation_sends P) (0 + (0 + 10)) (ensure_rpc_session_started P)"
    unfolding ensure_rpc_session_started_def
    by (intro sends_bindM sends_if sends_rules) (auto split: option.split intro: begin_session_sends sends_rules)
  then show ?thesis by simp
qed

section \<open>When a session is believed to run\<close>

text \<open>A probe that begins in the state \<open>v\<close> was answered, and the answer was the last thing that happened: the receive
  buffer was emptied, what was still on the line was drained, the probe was sent, and the next message echoes it.\<close>

definition probe_answered :: "'d platform \<Rightarrow> ('d, 'z) tworld_scheme \<Rightarrow> ('d, 'z) tworld_scheme \<Rightarrow> bool" where
  "probe_answered P v w' \<longleftrightarrow>
     (\<exists>t w1 w2 m. drain_host_rx P (millis 200) (v\<lparr>rx_buffer := []\<rparr>) = (Inr (), w1) \<and>
        send_message P (main_request 1 False (Request (PingRequest PROBE))) w1 = (Inr (), w2) \<and>
        receive_main_message P t w2 = (Inr (Some m), w') \<and> field is_PingResponse ping_data m = Some PROBE)"

lemma probe_rpc_True:
  assumes "probe_rpc P t w = (Inr True, w')"
  shows "probe_answered P w w'"
  using assms
  by (auto simp: probe_rpc_def probe_answered_def try_except_def thenM_def ret_def bindM_def clear_receive_buffer_def
      modify_def split: prod.splits sum.splits if_splits option.splits)

text \<open>What a start attempt does before its probe, and the states in which the probes of a negotiation begin that
  starts in \<open>w\<close>: after the opening pause, or after the start commands, which follow the pause when the start
  is forced and otherwise a probe without answer.\<close>

definition start_commands :: "'d platform \<Rightarrow> (('d, 'z) tworld_scheme, unit) action" where
  "start_commands P =
     thenM (try_except is_exception
              (thenM (transport_send P CTRL_C_CR) (transport_send P START_RPC_SESSION))
              (\<lambda>_. ret ()))
     (thenM (drain_host_rx P (millis 400))
     (thenM clear_receive_buffer
     (sleep (millis 200))))"

lemma start_session_attempt_eq: "start_session_attempt P = thenM (start_commands P) (probe_rpc P (millis 1200))"
  by (simp add: start_session_attempt_def start_commands_def thenM_def bindM_assoc)

inductive probe_begins :: "'d platform \<Rightarrow> ('d, 'z) rworld_scheme \<Rightarrow> ('d, 'z) rworld_scheme \<Rightarrow> bool" for P w where
  pause: "sleep (millis 300) (w\<lparr>rx_buffer := []\<rparr>) = (Inr (), v) \<Longrightarrow> \<not> force_start P \<Longrightarrow> probe_begins P w v"
| forced: "sleep (millis 300) (w\<lparr>rx_buffer := []\<rparr>) = (Inr (), u) \<Longrightarrow> force_start P \<Longrightarrow>
     start_commands P u = (Inr (), v) \<Longrightarrow> probe_begins P w v"
| again: "probe_begins P w u \<Longrightarrow> probe_rpc P t u = (Inr False, u') \<Longrightarrow> start_commands P u' = (Inr (), v) \<Longrightarrow>
     probe_begins P w v"

text \<open>A session was just established: the flag is set in the state an answered probe left.\<close>

definition session_established :: "'d platform \<Rightarrow> ('d, 'z) rworld_scheme \<Rightarrow> ('d, 'z) rworld_scheme \<Rightarrow> bool" where
  "session_established P w w' \<longleftrightarrow>
     (\<exists>v u. probe_begins P w v \<and> probe_answered P v u \<and> w' = u\<lparr>r_session_started := True\<rparr>)"

text \<open>A start attempt whose commands may come next.\<close>

definition may_start :: "'d platform \<Rightarrow> ('d, 'z) rworld_scheme \<Rightarrow> ('d, 'z) rworld_scheme \<Rightarrow> bool" where
  "may_start P w u \<longleftrightarrow> (\<forall>v. start_commands P u = (Inr (), v) \<longrightarrow> probe_begins P w v)"

lemma attempt_result:
  assumes "start_session_attempt P u = (Inr ok, u')" and "may_start P w u"
  shows "if ok then \<exists>v. probe_begins P w v \<and> probe_answered P v u' else may_start P w u'"
proof -
  from assms(1) obtain v where "start_commands P u = (Inr (), v)" and probe: "probe_rpc P (millis 1200) v = (Inr ok, u')"
    unfolding start_session_attempt_eq thenM_def by (auto elim: bindM_InrE)
  with assms(2) have "probe_begins P w v" by (simp add: may_start_def)
  with probe show ?thesis
    by (cases ok) (auto simp: may_start_def dest: probe_rpc_True intro: probe_begins.again)
qed

lemma negotiate_outcome:
  assumes "negotiate P u = (Inr x, w')" and "may_start P w u"
  shows "session_established P w w' \<or>
         (\<not> r_session_started w' \<and> (\<exists>f. r_last_failure w' = Some f \<and> now w' = Suc f))"
proof -
  let ?again = "\<lambda>ok. if \<not> ok then start_session_attempt P else ret ok"
  let ?good = "\<lambda>ok u. if ok then \<exists>v. probe_begins P w v \<and> probe_answered P v u else may_start P w u"
  have step: "?good ok' u'" if "?again ok u = (Inr ok', u')" "?good ok u" for ok u ok' u'
    using that attempt_result [of P u ok' u' w] by (cases ok) (auto simp: ret_def)
  from assms obtain ok1 w1 ok2 w2 ok w3 where "start_session_attempt P u = (Inr ok1, w1)"
      and tries: "?again ok1 w1 = (Inr ok2, w2)" "?again ok2 w2 = (Inr ok, w3)"
    and fin: "thenM (set_session ok) (if \<not> ok then record_failure else ret ()) w3 = (Inr x, w')"
    unfolding negotiate_def by (elim bindM_InrE) (rule that)
  from step [OF tries(2) step [OF tries(1) attempt_result [OF this(1) assms(2)]]]
  have "?good ok w3" .
  with fin show ?thesis
    by (cases ok)
      (auto simp: action_defs set_session_def record_failure_def monotonic_def session_established_def)
qed

lemma is_wifi_transport_iff:
  "is_wifi_transport w \<longleftrightarrow>
     t_class w = WiFiTransport \<or> (t_class w = AutoTransport \<and> a_active (t_auto w) = Some WiFi)"
proof -
  have "str_in ''wifi'' (lower ''WiFi'')" and "\<not> str_in ''wifi'' (lower ''USB'')"
    and "\<not> str_in ''wifi'' (lower ''Auto'')"
    by code_simp+
  then show ?thesis
    by (auto simp: is_wifi_transport_def get_name_def has_host_def
        split: transport_class.splits option.splits link_class.splits)
qed

lemma begin_session_start:
  assumes "sleep (millis 300) (w\<lparr>rx_buffer := []\<rparr>) = (Inr x, w1)"
  shows "is_wifi_transport w1 = is_wifi_transport w"
  using link_frame_fields [OF keepsD [OF sleep_link assms]] by (simp add: is_wifi_transport_iff)

lemma begin_session_outcome:
  assumes "begin_session P w = (Inr x, w')" and "\<not> is_wifi_transport w"
  shows "session_established P w w' \<or>
         (\<not> r_session_started w' \<and> (\<exists>f. r_last_failure w' = Some f \<and> now w' = Suc f))"
proof -
  from assms(1) obtain w1 where w1: "sleep (millis 300) (w\<lparr>rx_buffer := []\<rparr>) = (Inr (), w1)"
    and rest: "(if is_wifi_transport w1 then set_session True
       else if \<not> force_start P
       then bindM (probe_rpc P (millis 400)) (\<lambda>answered. if answered then set_session True else negotiate P)
       else negotiate P) w1 = (Inr x, w')"
    by (auto simp: begin_session_def thenM_def clear_receive_buffer_def modify_def get_def elim!: bindM_InrE)
  have no: "\<not> is_wifi_transport w1" using begin_session_start [OF w1] assms(2) by simp
  show ?thesis
  proof (cases "force_start P")
    case True
    with w1 have "may_start P w w1" by (auto simp: may_start_def intro: probe_begins.forced)
    with rest no True show ?thesis by (simp add: negotiate_outcome)
  next
    case False
    with rest no obtain answered w2 where p: "probe_rpc P (millis 400) w1 = (Inr answered, w2)"
      and k: "(if answered then set_session True else negotiate P) w2 = (Inr x, w')"
      by (auto elim!: bindM_InrE)
    have v: "probe_begins P w w1" using w1 False by (rule probe_begins.pause)
    show ?thesis
    proof (cases answered)
      case True
      with p k v show ?thesis
        by (auto simp: session_established_def set_session_def modify_def dest!: probe_rpc_True)
    next
      case False
      with p v have "may_start P w w2" by (auto simp: may_start_def intro: probe_begins.again)
      with k False show ?thesis by (simp add: negotiate_outcome)
    qed
  qed
qed

lemma begin_session_wifi:
  assumes "begin_session P w = (Inr x, w')" and "is_wifi_transport w"
  shows "r_session_started w' \<and> tx_log w' = tx_log w"
proof -
  from assms(1) obtain y w1 where w1: "sleep (millis 300) (w\<lparr>rx_buffer := []\<rparr>) = (Inr y, w1)"
    and rest: "(if is_wifi_transport w1 then set_session True
       else if \<not> force_start P
       then bindM (probe_rpc P (millis 400)) (\<lambda>answered. if answered then set_session True else negotiate P)
       else negotiate P) w1 = (Inr x, w')"
    by (auto simp: begin_session_def thenM_def clear_receive_buffer_def modify_def get_def elim!: bindM_InrE)
  have "tx_log w1 = tx_log w" using w1 by (auto simp: sleep_def dest: await_io_log)
  with rest begin_session_start [OF w1] assms(2) show ?thesis
    by (auto simp: set_session_def modify_def)
qed

text \<open>An \<open>ensure\<close> that starts without a session either keeps to the cooldown or negotiates.\<close>

lemma ensure_cases:
  assumes "ensure_rpc_session_started P w = (r, w')" and "\<not> r_session_started w"
  obtains (cooldown) f where "r_last_failure w = Some f" and "now w - f < NEGOTIATION_COOLDOWN"
      and "r = Inr ()" and "w' = w\<lparr>now := Suc (now w)\<rparr>"
  | (fresh) "r_last_failure w = None" and "begin_session P w = (r, w')"
  | (retry) f where "r_last_failure w = Some f" and "NEGOTIATION_COOLDOWN \<le> now w - f"
      and "begin_session P (w\<lparr>now := Suc (now w)\<rparr>) = (r, w')"
  using assms
  by (auto simp: ensure_rpc_session_started_def action_defs monotonic_def split: option.splits if_splits)

lemma ensure_started: "r_session_started w \<Longrightarrow> ensure_rpc_session_started P w = (Inr (), w)"
  by (simp add: ensure_rpc_session_started_def action_defs)

lemma ensure_cooldown:
  assumes "\<not> r_session_started w" and "r_last_failure w = Some f" and "now w < f + NEGOTIATION_COOLDOWN"
  shows "ensure_rpc_session_started P w = (Inr (), w\<lparr>now := Suc (now w)\<rparr>)"
proof -
  have "now w - f < NEGOTIATION_COOLDOWN" using assms(3) by (simp add: NEGOTIATION_COOLDOWN_def)
  with assms(1,2) show ?thesis
    by (simp add: ensure_rpc_session_started_def action_defs monotonic_def)
qed

lemma ensure_outcome:
  assumes run: "ensure_rpc_session_started P w = (Inr x, w')"
    and "\<not> r_session_started w" and "\<not> is_wifi_transport w"
  shows "if r_session_started w'
         then session_established P (if r_last_failure w = None then w else w\<lparr>now := Suc (now w)\<rparr>) w'
         else \<exists>f. r_last_failure w' = Some f \<and> now w' \<le> f + NEGOTIATION_COOLDOWN"
proof -
  have begun: "if r_session_started w' then session_established P v w'
         else \<exists>f. r_last_failure w' = Some f \<and> now w' \<le> f + NEGOTIATION_COOLDOWN"
    if "begin_session P v = (Inr x, w')" and "\<not> is_wifi_transport v" for v
    using begin_session_outcome [OF that] by (auto simp: NEGOTIATION_COOLDOWN_def session_established_def)
  have later: "is_wifi_transport (w\<lparr>now := t\<rparr>) = is_wifi_transport w" for t
    by (simp add: is_wifi_transport_iff)
  from run assms(2) show ?thesis
  proof (cases rule: ensure_cases)
    case (cooldown f)
    with assms(2) show ?thesis by auto
  next
    case fresh
    with begun assms(3) show ?thesis by simp
  next
    case (retry f)
    with begun [OF retry(3)] assms(3) later show ?thesis by simp
  qed
qed

section \<open>Which actions raise no ordinary exception\<close>

text \<open>
  The code wraps its calls in \<^verbatim>\<open>except Exception\<close>.  An action is \<^emph>\<open>contained\<close> when the only
  outcomes besides a value are the two that no such clause stops: cancellation, and
  waiting for a lock that the task itself holds.
\<close>

definition contained :: "('s, 'a) action \<Rightarrow> bool" where
  "contained m \<longleftrightarrow> (\<forall>s e s'. m s = (Inl e, s') \<longrightarrow> \<not> is_exception e)"

lemma containedD: "contained m \<Longrightarrow> m s = (Inl e, s') \<Longrightarrow> \<not> is_exception e"
  unfolding contained_def by blast

lemma contained_simple:
  "contained (ret x)" "contained (get f)" "contained (modify g)" "contained monotonic"
  "contained get_next_command_id" "contained (set_session b)"
  by (simp_all add: contained_def action_defs monotonic_def get_next_command_id_def set_session_def Let_def)

lemma contained_bindM:
  assumes "contained m" and "\<And>x. contained (k x)"
  shows "contained (bindM m k)"
  using assms unfolding contained_def bindM_def by (fastforce split: prod.splits sum.splits)

lemma contained_thenM: "contained m \<Longrightarrow> contained k \<Longrightarrow> contained (thenM m k)"
  by (simp add: thenM_def contained_bindM)

lemma contained_try:
  "(\<And>e. contained (h e)) \<Longrightarrow> contained (try_except is_exception m h)"
  unfolding contained_def try_except_def by (fastforce split: prod.splits sum.splits if_splits)

lemma contained_if: "contained m \<Longrightarrow> contained m' \<Longrightarrow> contained (if b then m else m')"
  by simp

lemma contained_option:
  "contained m \<Longrightarrow> (\<And>x. contained (k x)) \<Longrightarrow> contained (case z of None \<Rightarrow> m | Some x \<Rightarrow> k x)"
  by (simp split: option.split)

lemma contained_guarded: "contained (guarded dflt m)"
  unfolding guarded_def by (intro contained_try contained_simple)

lemma contained_with_lock: "contained m \<Longrightarrow> contained (with_lock m)"
  unfolding contained_def with_lock_def by (auto split: prod.splits if_splits)

lemma contained_timed: "contained (timed t dflt m)"
  unfolding timed_def by (intro contained_with_lock contained_try contained_simple)

lemma contained_sleep: "contained (sleep t)"
  by (auto simp: contained_def sleep_def await_io_def split: option.splits if_splits)

lemmas contained_rules = contained_simple contained_bindM contained_thenM contained_try contained_if
  contained_option contained_guarded contained_with_lock contained_timed contained_sleep

lemma contained_drain: "contained (drain_host_rx P t)"
  unfolding drain_host_rx_def by (intro contained_rules)

lemma contained_clear: "contained clear_receive_buffer"
  unfolding clear_receive_buffer_def by (intro contained_rules)

lemma contained_probe: "contained (probe_rpc P t)"
  unfolding probe_rpc_def by (intro contained_rules contained_drain)

lemma contained_attempt: "contained (start_session_attempt P)"
  unfolding start_session_attempt_def
  by (intro contained_rules contained_drain contained_clear contained_probe)

lemma contained_negotiate: "contained (negotiate P)"
  unfolding negotiate_def record_failure_def by (intro contained_rules contained_attempt)

lemma contained_begin: "contained (begin_session P)"
  unfolding begin_session_def
  by (intro contained_rules contained_clear contained_probe contained_negotiate)

lemma contained_ensure: "contained (ensure_rpc_session_started P)"
  unfolding ensure_rpc_session_started_def by (intro contained_rules contained_begin)

lemma contained_send_rpc: "contained (send_rpc_message P msg t)"
  unfolding send_rpc_message_def by (intro contained_rules)

lemma contained_request: "contained (request P c t)"
  unfolding request_def by (intro contained_rules contained_send_rpc)

lemmas contained_call_rules = contained_rules contained_ensure contained_send_rpc contained_request

lemma contained_ping: "contained (ping P data)"
  unfolding ping_def by (intro contained_call_rules)

end
