(* ===== verification/Rpc_Calls.thy ===== *)
theory Rpc_Calls
  imports Rpc_Session "HOL-Library.AList"
begin

text \<open>
  The system, application, desktop, GPIO and property calls of \<^verbatim>\<open>rpc/protobuf_rpc.py\<close>.
  Most of them are one request whose answer counts only when its status is OK and it carries
  the expected field; the exceptions are spelled out.
\<close>

section \<open>One question, one answer\<close>

text \<open>The body shared by the internal coroutines: build the request, send it, and return the
  field of an OK answer; any exception is an absent answer.\<close>

definition query ::
  "'d platform \<Rightarrow> request_body \<Rightarrow> nat \<Rightarrow> (response_body \<Rightarrow> bool) \<Rightarrow> (response_body \<Rightarrow> 'a) \<Rightarrow>
   (('d, 'z) rworld_scheme, 'a option) action" where
  "query P c response_timeout p f =
     guarded None (bindM (request P c response_timeout) (\<lambda>resp. ret (ok_reply p f resp)))"

text \<open>The body of the calls that only report success.\<close>

definition perform :: "'d platform \<Rightarrow> request_body \<Rightarrow> (('d, 'z) rworld_scheme, bool) action" where
  "perform P c =
     guarded False (bindM (request P c RESPONSE_TIMEOUT) (\<lambda>resp. ret (is_ok resp)))"

section \<open>Application, desktop, GPIO\<close>

definition app_lock_status :: "'d platform \<Rightarrow> (('d, 'z) rworld_scheme, bool option) action" where
  "app_lock_status P =
     with_lock (query P LockStatusRequest RESPONSE_TIMEOUT is_LockStatusResponse lock_state)"

record app_error =
  ae_code :: nat
  ae_text :: string

definition app_get_error :: "'d platform \<Rightarrow> (('d, 'z) rworld_scheme, app_error option) action" where
  "app_get_error P =
     with_lock (query P GetErrorRequest RESPONSE_TIMEOUT is_GetErrorResponse
       (\<lambda>r. \<lparr>ae_code = error_code r, ae_text = error_text r\<rparr>))"

definition app_start :: "'d platform \<Rightarrow> string \<Rightarrow> string \<Rightarrow> (('d, 'z) rworld_scheme, bool) action" where
  "app_start P name args = with_lock (perform P (AppStartRequest name args))"

definition desktop_is_locked :: "'d platform \<Rightarrow> (('d, 'z) rworld_scheme, bool option) action" where
  "desktop_is_locked P =
     with_lock (guarded None
       (bindM (request P IsLockedRequest RESPONSE_TIMEOUT) (\<lambda>resp.
        ret (case resp of
               None \<Rightarrow> None
             | Some m \<Rightarrow> (if command_status m = STATUS_OK then Some True
                         else if command_status m = STATUS_ERROR then Some False else None)))))"

record gpio_state =
  g_pin :: int
  g_mode :: string
  g_value :: "nat option"

text \<open>\<^verbatim>\<open>GpioPinMode.Name\<close> knows the two modes of the schema and raises on any other number; a
  pin is an enum field, which holds a signed 32-bit number.\<close>

definition pin_mode_name :: "int \<Rightarrow> exn + string" where
  "pin_mode_name mode =
     (if mode = 0 then Inr ''OUTPUT'' else if mode = 1 then Inr ''INPUT''
      else Inl (ValueError ''Enum GpioPinMode has no name defined for value''))"

definition enum_range :: "int \<Rightarrow> bool" where
  "enum_range i \<longleftrightarrow> - (2 ^ 31) \<le> i \<and> i < 2 ^ 31"

definition gpio_request ::
  "'d platform \<Rightarrow> (int \<Rightarrow> request_body) \<Rightarrow> int \<Rightarrow> (('d, 'z) rworld_scheme, main_msg option) action" where
  "gpio_request P c pin =
     bindM get_next_command_id (\<lambda>i.
     if enum_range pin
     then send_rpc_message P (main_request i False (Request (c pin))) RESPONSE_TIMEOUT
     else raise (ValueError ''Value out of range''))"

definition gpio_mode :: "main_msg \<Rightarrow> exn + string option" where
  "gpio_mode m =
     (case (if command_status m = STATUS_OK then field is_GpioGetPinModeResponse pin_mode m else None) of
        Some mode \<Rightarrow> (case pin_mode_name mode of Inl e \<Rightarrow> Inl e | Inr n \<Rightarrow> Inr (Some (lower n)))
      | None \<Rightarrow> (if command_status m = ERROR_GPIO_UNKNOWN_PIN_MODE then Inr (Some ''unconfigured'')
                else Inr None))"

definition gpio_read :: "'d platform \<Rightarrow> int \<Rightarrow> (('d, 'z) rworld_scheme, gpio_state option) action" where
  "gpio_read P pin =
     with_lock (guarded None
       (bindM (gpio_request P GpioGetPinMode pin) (\<lambda>mode_resp.
        case mode_resp of
          None \<Rightarrow> ret None
        | Some m \<Rightarrow>
            bindM (lift_result (gpio_mode m)) (\<lambda>mode.
            case mode of
              None \<Rightarrow> ret None
            | Some name \<Rightarrow>
                bindM (gpio_request P GpioReadPin pin) (\<lambda>value_resp.
                case value_resp of
                  None \<Rightarrow> ret None
                | Some v \<Rightarrow>
                    ret (Some \<lparr>g_pin = pin, g_mode = name,
                               g_value = ok_reply is_GpioReadPinResponse pin_value value_resp\<rparr>))))))"

section \<open>System\<close>

definition system_protobuf_version :: "'d platform \<Rightarrow> (('d, 'z) rworld_scheme, (nat \<times> nat) option) action" where
  "system_protobuf_version P =
     timed (seconds 3) None
       (query P ProtobufVersionRequest RESPONSE_TIMEOUT is_ProtobufVersionResponse
          (\<lambda>r. (version_major r, version_minor r)))"

definition system_datetime :: "'d platform \<Rightarrow> (('d, 'z) rworld_scheme, pb_datetime option) action" where
  "system_datetime P =
     timed (seconds 3) None
       (query P GetDateTimeRequest RESPONSE_TIMEOUT is_GetDateTimeResponse datetime_of)"

definition UNSPECIFIED_ERROR :: nat where "UNSPECIFIED_ERROR = 10"

definition system_update :: "'d platform \<Rightarrow> string \<Rightarrow> (('d, 'z) rworld_scheme, nat) action" where
  "system_update P manifest_path =
     with_lock
       (bindM (request P (UpdateRequest manifest_path) RESPONSE_TIMEOUT) (\<lambda>resp.
        case resp of
          None \<Rightarrow> raise (FlipperTimeoutError
            ''no response to system_update; the device link dropped before validation'')
        | Some m \<Rightarrow>
            (case field is_UpdateResponse update_code m of
               Some c \<Rightarrow> ret c
             | None \<Rightarrow> ret UNSPECIFIED_ERROR)))"

definition system_reboot_update :: "'d platform \<Rightarrow> (('d, 'z) rworld_scheme, unit) action" where
  "system_reboot_update P =
     with_lock
       (thenM (ensure_rpc_session_started P)
       (bindM get_next_command_id (\<lambda>i.
        send_message P (main_request i False (Request RebootRequestUpdate)))))"

section \<open>Streams of key-value pairs\<close>

type_synonym dict = "(string \<times> string) list"

text \<open>\<^verbatim>\<open>if r.key and r.value: info[r.key] = r.value\<close>, for the named field of a frame.\<close>

definition collect_pair ::
  "(response_body \<Rightarrow> bool) \<Rightarrow> (response_body \<Rightarrow> string) \<Rightarrow> (response_body \<Rightarrow> string) \<Rightarrow> main_msg \<Rightarrow> dict \<Rightarrow> dict" where
  "collect_pair p key val m info =
     (case field p (\<lambda>r. (key r, val r)) m of
        None \<Rightarrow> info
      | Some (k, v) \<Rightarrow> (if k \<noteq> [] \<and> v \<noteq> [] then AList.update k v info else info))"

definition MAX_ITERATIONS :: nat where "MAX_ITERATIONS = 100"

fun power_info_loop :: "'d platform \<Rightarrow> nat \<Rightarrow> main_msg \<Rightarrow> dict \<Rightarrow> (('d, 'z) rworld_scheme, dict) action" where
  "power_info_loop P 0 m info = ret info"
| "power_info_loop P (Suc k) m info =
     (if \<not> has_next m then ret info
      else bindM (receive_main_message P RESPONSE_TIMEOUT) (\<lambda>nxt.
           case nxt of
             None \<Rightarrow> ret info
           | Some m' \<Rightarrow>
               (if command_status m' \<noteq> STATUS_OK then ret info
                else power_info_loop P k m' (collect_pair is_PowerInfoResponse power_key power_value m' info))))"

definition system_power_info_internal :: "'d platform \<Rightarrow> (('d, 'z) rworld_scheme, dict option) action" where
  "system_power_info_internal P =
     guarded None
       (bindM (request P PowerInfoRequest RESPONSE_TIMEOUT) (\<lambda>resp.
        case resp of
          None \<Rightarrow> ret None
        | Some m \<Rightarrow>
            (if command_status m \<noteq> STATUS_OK then ret None
             else bindM (power_info_loop P MAX_ITERATIONS m
                           (collect_pair is_PowerInfoResponse power_key power_value m []))
                  (\<lambda>info. ret (Some info)))))"

definition system_power_info :: "'d platform \<Rightarrow> (('d, 'z) rworld_scheme, dict option) action" where
  "system_power_info P = timed (seconds 6) None (system_power_info_internal P)"

definition get_property_internal :: "'d platform \<Rightarrow> string \<Rightarrow> (('d, 'z) rworld_scheme, string option) action" where
  "get_property_internal P key =
     query P (PropertyGetRequest key) RESPONSE_TIMEOUT is_PropertyGetResponse property_value"

definition get_property :: "'d platform \<Rightarrow> string \<Rightarrow> (('d, 'z) rworld_scheme, string option) action" where
  "get_property P key = timed (seconds 2) None (get_property_internal P key)"

text \<open>The loop over the frames of \<^verbatim>\<open>system_device_info_response\<close>: unlike the power loop it
  collects the pair of a frame before it looks at the frame's status.\<close>

fun device_info_loop :: "'d platform \<Rightarrow> nat \<Rightarrow> main_msg \<Rightarrow> dict \<Rightarrow> (('d, 'z) rworld_scheme, dict) action" where
  "device_info_loop P 0 m info = ret info"
| "device_info_loop P (Suc k) m info =
     (if \<not> has_next m then ret info
      else bindM (guarded None (receive_main_message P RESPONSE_TIMEOUT)) (\<lambda>nxt.
           case nxt of
             None \<Rightarrow> ret info
           | Some m' \<Rightarrow>
               (let info' = collect_pair is_DeviceInfoResponse info_key info_value m' info
                in if command_status m' \<noteq> STATUS_OK then ret info'
                   else device_info_loop P k m' info')))"

definition PROPERTY_KEYS :: "string list" where
  "PROPERTY_KEYS = [''firmware_version'', ''hardware_model'', ''hardware_version'', ''serial_number'',
     ''firmware_build_date'', ''firmware_git_hash'']"

fun property_fallback :: "'d platform \<Rightarrow> string list \<Rightarrow> dict \<Rightarrow> (('d, 'z) rworld_scheme, dict) action" where
  "property_fallback P [] info = ret info"
| "property_fallback P (key # keys) info =
     bindM (guarded None (get_property_internal P key)) (\<lambda>v.
     property_fallback P keys
       (case v of None \<Rightarrow> info | Some x \<Rightarrow> (if x \<noteq> [] then AList.update key x info else info)))"

definition get_device_info_internal :: "'d platform \<Rightarrow> (('d, 'z) rworld_scheme, dict) action" where
  "get_device_info_internal P =
     bindM (guarded []
              (bindM (request P DeviceInfoRequest RESPONSE_TIMEOUT) (\<lambda>resp.
               case resp of
                 None \<Rightarrow> ret []
               | Some m \<Rightarrow>
                   (if command_status m \<noteq> STATUS_OK then ret []
                    else device_info_loop P MAX_ITERATIONS m
                           (collect_pair is_DeviceInfoResponse info_key info_value m [])))))
       (\<lambda>info. if info = [] then property_fallback P PROPERTY_KEYS [] else ret info)"

definition rpc_get_device_info :: "'d platform \<Rightarrow> (('d, 'z) rworld_scheme, dict) action" where
  "rpc_get_device_info P = timed (seconds 6) [] (get_device_info_internal P)"

section \<open>What the calls keep\<close>

lemma query_r [intro]: "keeps r_frame (query P c t p f)"
  unfolding query_def by (intro call_rules)

lemma perform_r [intro]: "keeps r_frame (perform P c)"
  unfolding perform_def by (intro call_rules)

lemma send_message_r: "keeps r_frame (send_message P m)"
  by (rule keeps_t_r) blast

lemma receive_main_r: "keeps r_frame (receive_main_message P t)"
  by (rule keeps_t_r) blast

lemma lift_result_r: "keeps r_frame (lift_result r)"
  by (simp add: keeps_def lift_result_def rpcf.refl)

lemmas rcall_rules = call_rules query_r perform_r send_message_r receive_main_r lift_result_r

lemma gpio_request_r: "keeps r_frame (gpio_request P c pin)"
  unfolding gpio_request_def by (intro rcall_rules)

lemma power_info_loop_r: "keeps r_frame (power_info_loop P k m info)"
proof (induction k arbitrary: m info)
  case 0
  show ?case by (simp add: rpcf.keeps_ret)
next
  case (Suc k)
  show ?case unfolding power_info_loop.simps by (intro rcall_rules Suc.IH)
qed

lemma device_info_loop_r: "keeps r_frame (device_info_loop P k m info)"
proof (induction k arbitrary: m info)
  case 0
  show ?case by (simp add: rpcf.keeps_ret)
next
  case (Suc k)
  show ?case unfolding device_info_loop.simps Let_def by (intro rcall_rules Suc.IH)
qed

lemma property_fallback_r: "keeps r_frame (property_fallback P keys info)"
proof (induction keys arbitrary: info)
  case Nil
  show ?case by (simp add: rpcf.keeps_ret)
next
  case (Cons key keys)
  show ?case unfolding property_fallback.simps get_property_internal_def by (intro rcall_rules Cons.IH)
qed

lemma rpc_calls_r [intro]:
  "keeps r_frame (app_lock_status P)" "keeps r_frame (app_get_error P)"
  "keeps r_frame (app_start P name args)" "keeps r_frame (desktop_is_locked P)"
  "keeps r_frame (gpio_read P pin)" "keeps r_frame (system_protobuf_version P)"
  "keeps r_frame (system_datetime P)" "keeps r_frame (system_update P path)"
  "keeps r_frame (system_reboot_update P)" "keeps r_frame (system_power_info P)"
  "keeps r_frame (get_property P key)" "keeps r_frame (rpc_get_device_info P)"
  unfolding app_lock_status_def app_get_error_def app_start_def desktop_is_locked_def gpio_read_def
    system_protobuf_version_def system_datetime_def system_update_def system_reboot_update_def
    system_power_info_def system_power_info_internal_def get_property_def get_property_internal_def
    rpc_get_device_info_def get_device_info_internal_def
  by (intro rcall_rules gpio_request_r power_info_loop_r device_info_loop_r property_fallback_r)+

section \<open>Which calls raise\<close>

lemma contained_query: "contained (query P c t p f)" and contained_perform: "contained (perform P c)"
  unfolding query_def perform_def by (intro contained_call_rules)+

lemma contained_calls:
  "contained (app_lock_status P)" "contained (app_get_error P)" "contained (app_start P name args)"
  "contained (desktop_is_locked P)" "contained (gpio_read P pin)" "contained (system_protobuf_version P)"
  "contained (system_datetime P)" "contained (system_power_info P)" "contained (get_property P key)"
  "contained (rpc_get_device_info P)"
  unfolding app_lock_status_def app_get_error_def app_start_def desktop_is_locked_def gpio_read_def
    system_protobuf_version_def system_datetime_def system_power_info_def get_property_def rpc_get_device_info_def
  by (intro contained_call_rules contained_query contained_perform)+

section \<open>Where an answer comes from\<close>

text \<open>The request \<open>c\<close> is made in the state \<open>w\<close> and answered by \<open>m\<close>: it gets the next number, a session is ensured, the
  request is sent, and \<open>m\<close> is the next message, whose reading ends in \<open>w'\<close>.\<close>

definition answered ::
  "'d platform \<Rightarrow> request_body \<Rightarrow> nat \<Rightarrow> ('d, 'z) rworld_scheme \<Rightarrow> main_msg \<Rightarrow> ('d, 'z) rworld_scheme \<Rightarrow> bool" where
  "answered P c t w m w' \<longleftrightarrow>
     (\<exists>i w1 w2. i = (r_command_id w + 1) mod 0xFFFFFFFF \<and>
        ensure_rpc_session_started P (w\<lparr>r_command_id := i\<rparr>) = (Inr (), w1) \<and>
        send_message P (main_request i False (Request c)) w1 = (Inr (), w2) \<and>
        receive_main_message P t w2 = (Inr (Some m), w'))"

lemma try_none_Some:
  "try_except p m (\<lambda>_. ret None) w = (Inr (Some x), w') \<longleftrightarrow> m w = (Inr (Some x), w')"
  by (auto simp: try_except_def ret_def split: prod.splits sum.splits if_splits)

lemma bindM_eq_Inr: "bindM m k w = (Inr y, w') \<longleftrightarrow> (\<exists>x v. m w = (Inr x, v) \<and> k x v = (Inr y, w'))"
  by (auto simp: bindM_def split: prod.splits sum.splits)

lemma request_answered: "request P c t w = (Inr (Some m), w') \<longleftrightarrow> answered P c t w m w'"
  unfolding request_def send_rpc_message_def answered_def
  by (subst bindM_def)
    (simp add: get_next_command_id_def Let_def try_none_Some thenM_def bindM_eq_Inr)

lemma guarded_InrD: "guarded dflt m w = (Inr x, w') \<Longrightarrow> x \<noteq> dflt \<Longrightarrow> m w = (Inr x, w')"
  by (auto simp: guarded_def try_except_def ret_def split: prod.splits sum.splits if_splits)

lemma query_answer:
  "query P c t p f w = (Inr (Some x), w') \<longleftrightarrow>
     (\<exists>m. answered P c t w m w' \<and> command_status m = STATUS_OK \<and> field p f m = Some x)"
proof -
  have "query P c t p f w = (Inr (Some x), w') \<longleftrightarrow>
      bindM (request P c t) (\<lambda>resp. ret (ok_reply p f resp)) w = (Inr (Some x), w')"
    by (simp add: query_def guarded_def try_none_Some)
  also have "\<dots> \<longleftrightarrow> (\<exists>resp. request P c t w = (Inr resp, w') \<and> ok_reply p f resp = Some x)"
    by (auto simp: bindM_def ret_def split: prod.splits sum.splits)
  also have "\<dots> \<longleftrightarrow> (\<exists>m. request P c t w = (Inr (Some m), w') \<and> command_status m = STATUS_OK \<and> field p f m = Some x)"
    by (auto simp: ok_reply_def split: option.splits if_splits)
  finally show ?thesis by (simp add: request_answered)
qed

lemma perform_answer:
  assumes "perform P c w = (Inr True, w')"
  obtains m where "answered P c RESPONSE_TIMEOUT w m w'" and "command_status m = STATUS_OK"
proof -
  have "bindM (request P c RESPONSE_TIMEOUT) (\<lambda>resp. ret (is_ok resp)) w = (Inr True, w')"
    using assms unfolding perform_def by (rule guarded_InrD) simp
  then obtain resp where "request P c RESPONSE_TIMEOUT w = (Inr resp, w')" "is_ok resp"
    by (auto simp: ret_def elim: bindM_InrE)
  with that show ?thesis by (auto simp: is_ok_def request_answered split: option.splits)
qed

text \<open>A ping is answered when the echo was read under the lock.\<close>

lemma ping_answer:
  "ping P data w = (Inr (Some x), w') \<longleftrightarrow>
     \<not> io_locked w \<and> (\<exists>m v. answered P (PingRequest data) RESPONSE_TIMEOUT (w\<lparr>io_locked := True\<rparr>) m v \<and>
        command_status m = STATUS_OK \<and> field is_PingResponse ping_data m = Some x \<and> w' = v\<lparr>io_locked := False\<rparr>)"
proof -
  have "ping P data w = (Inr (Some x), w') \<longleftrightarrow>
      \<not> io_locked w \<and> (\<exists>v. query P (PingRequest data) RESPONSE_TIMEOUT is_PingResponse ping_data (w\<lparr>io_locked := True\<rparr>) =
        (Inr (Some x), v) \<and> w' = v\<lparr>io_locked := False\<rparr>)"
    unfolding ping_def query_def with_lock_def by (auto split: prod.splits)
  then show ?thesis by (auto simp: query_answer)
qed

end
