(* ===== verification/Rpc_Storage.thy ===== *)
theory Rpc_Storage
  imports Rpc_Calls
begin

text \<open>
  The storage calls of \<^verbatim>\<open>rpc/protobuf_rpc.py\<close>: listings streamed over several frames, reads
  and metadata, changes, and the chunked write.
\<close>

section \<open>Listing a directory\<close>

definition list_error :: "string \<Rightarrow> string \<Rightarrow> string" where
  "list_error path what = ''storage_list('' @ path @ ''): '' @ what"

definition UINT32_RANGE :: nat where "UINT32_RANGE = 2 ^ 32"

text \<open>The continuation frames, with the frames still allowed.  A missing frame, a bad status or
  a stream beyond the ceiling is an error, never a shorter listing.\<close>

fun list_frames_loop :: "'d platform \<Rightarrow> string \<Rightarrow> nat \<Rightarrow> main_msg \<Rightarrow> (('d, 'z) rworld_scheme, main_msg list) action" where
  "list_frames_loop P path k m =
     (if \<not> has_next m then ret []
      else case k of
        0 \<Rightarrow> raise (FlipperProtocolError (list_error path (''exceeded '' @ nat_str MAX_ITERATIONS @ '' continuation frames'')))
      | Suc k' \<Rightarrow>
          bindM (receive_main_message P RESPONSE_TIMEOUT) (\<lambda>resp.
          case resp of
            None \<Rightarrow> raise (FlipperTimeoutError (list_error path ''truncated; a continuation frame never arrived''))
          | Some m' \<Rightarrow>
              (if command_status m' \<noteq> STATUS_OK
               then raise (FlipperProtocolError
                      (list_error path (''status '' @ nat_str (command_status m') @ '' mid-stream'')))
               else bindM (list_frames_loop P path k' m') (\<lambda>ms. ret (m' # ms)))))"

declare list_frames_loop.simps [simp del]

definition storage_list_frames ::
  "'d platform \<Rightarrow> string \<Rightarrow> bool \<Rightarrow> nat \<Rightarrow> (('d, 'z) rworld_scheme, main_msg list) action" where
  "storage_list_frames P path include_md5 filter_max_size =
     bindM get_next_command_id (\<lambda>i.
     if UINT32_RANGE \<le> filter_max_size then raise (ValueError ''Value out of range'')
     else bindM (send_rpc_message P
                  (main_request i False (Request (StorageListRequest path include_md5 filter_max_size)))
                  RESPONSE_TIMEOUT) (\<lambda>resp.
          case resp of
            None \<Rightarrow> raise (FlipperTimeoutError (list_error path ''no response from device''))
          | Some m \<Rightarrow>
              (if command_status m \<noteq> STATUS_OK
               then raise (FlipperProtocolError
                      (list_error path (''device returned status '' @ nat_str (command_status m))))
               else bindM (list_frames_loop P path MAX_ITERATIONS m) (\<lambda>ms. ret (m # ms)))))"

text \<open>The files of a frame that carries a listing; entries without a name are skipped.\<close>

definition frame_files :: "main_msg \<Rightarrow> pb_file list" where
  "frame_files m =
     (case field is_StorageListResponse list_files m of
        None \<Rightarrow> []
      | Some fs \<Rightarrow> filter (\<lambda>f. f_name f \<noteq> []) fs)"

definition storage_list ::
  "'d platform \<Rightarrow> string \<Rightarrow> bool \<Rightarrow> nat \<Rightarrow> (('d, 'z) rworld_scheme, string list) action" where
  "storage_list P path include_md5 filter_max_size =
     with_lock (bindM (storage_list_frames P path include_md5 filter_max_size) (\<lambda>frames.
       ret (map f_name (concat (map frame_files frames)))))"

record entry =
  e_name :: string
  e_type :: string
  e_size :: nat
  e_md5sum :: "string option"

definition file_entry :: "bool \<Rightarrow> pb_file \<Rightarrow> entry" where
  "file_entry include_md5 f =
     \<lparr>e_name = f_name f, e_type = (if f_type f = DIR then ''DIR'' else ''FILE''), e_size = f_size f,
      e_md5sum = (if include_md5 \<and> f_md5sum f \<noteq> [] then Some (f_md5sum f) else None)\<rparr>"

definition storage_list_detailed ::
  "'d platform \<Rightarrow> string \<Rightarrow> bool \<Rightarrow> nat \<Rightarrow> (('d, 'z) rworld_scheme, entry list) action" where
  "storage_list_detailed P path include_md5 filter_max_size =
     with_lock (bindM (storage_list_frames P path include_md5 filter_max_size) (\<lambda>frames.
       ret (map (file_entry include_md5) (concat (map frame_files frames)))))"

section \<open>Reads and metadata\<close>

definition storage_read :: "'d platform \<Rightarrow> string \<Rightarrow> (('d, 'z) rworld_scheme, bytes) action" where
  "storage_read P path =
     timed (seconds 3) []
       (bindM (query P (StorageReadRequest path) RESPONSE_TIMEOUT is_StorageReadResponse (f_data \<circ> read_file_of))
         (\<lambda>r. ret (case r of None \<Rightarrow> [] | Some b \<Rightarrow> b)))"

definition storage_info :: "'d platform \<Rightarrow> string \<Rightarrow> (('d, 'z) rworld_scheme, (nat \<times> nat) option) action" where
  "storage_info P path =
     timed (seconds 3) None
       (query P (StorageInfoRequest path) RESPONSE_TIMEOUT is_StorageInfoResponse
          (\<lambda>r. (total_space r, free_space r)))"

definition storage_stat :: "'d platform \<Rightarrow> string \<Rightarrow> (('d, 'z) rworld_scheme, entry option) action" where
  "storage_stat P path =
     timed (seconds 3) None
       (query P (StorageStatRequest path) RESPONSE_TIMEOUT is_StorageStatResponse
          (file_entry True \<circ> stat_file))"

definition storage_timestamp :: "'d platform \<Rightarrow> string \<Rightarrow> (('d, 'z) rworld_scheme, nat option) action" where
  "storage_timestamp P path =
     timed (seconds 3) None
       (query P (StorageTimestampRequest path) RESPONSE_TIMEOUT is_StorageTimestampResponse timestamp_of)"

definition MD5SUM_RESPONSE_TIMEOUT :: nat where "MD5SUM_RESPONSE_TIMEOUT = seconds 180"

definition storage_md5sum :: "'d platform \<Rightarrow> string \<Rightarrow> (('d, 'z) rworld_scheme, string option) action" where
  "storage_md5sum P path =
     timed (MD5SUM_RESPONSE_TIMEOUT + seconds 5) None
       (bindM (query P (StorageMd5sumRequest path) MD5SUM_RESPONSE_TIMEOUT is_StorageMd5sumResponse md5sum_of)
         (\<lambda>r. ret (if r = Some [] then None else r)))"

section \<open>Changes\<close>

definition storage_mkdir :: "'d platform \<Rightarrow> string \<Rightarrow> (('d, 'z) rworld_scheme, bool) action" where
  "storage_mkdir P path = timed (seconds 3) False (perform P (StorageMkdirRequest path))"

definition storage_delete :: "'d platform \<Rightarrow> string \<Rightarrow> bool \<Rightarrow> (('d, 'z) rworld_scheme, bool) action" where
  "storage_delete P path recursive = timed (seconds 3) False (perform P (StorageDeleteRequest path recursive))"

definition storage_rename :: "'d platform \<Rightarrow> string \<Rightarrow> string \<Rightarrow> (('d, 'z) rworld_scheme, bool) action" where
  "storage_rename P old_path new_path = timed (seconds 3) False (perform P (StorageRenameRequest old_path new_path))"

section \<open>Writing a file\<close>

definition WRITE_CHUNK_SIZE :: nat where "WRITE_CHUNK_SIZE = 1024"

text \<open>The pause after a fragment, \<^verbatim>\<open>len(framed) / 80_000\<close> seconds, and the budget of a write,
  \<^verbatim>\<open>max(15.0, len(content) / 40000.0)\<close> seconds, both exact in nanoseconds.\<close>

definition write_pause :: "bytes \<Rightarrow> nat" where "write_pause frame = length frame * 12500"

definition write_budget :: "bytes \<Rightarrow> nat" where
  "write_budget data = max (seconds 15) (length data * 25000)"

definition write_message :: "nat \<Rightarrow> string \<Rightarrow> bool \<Rightarrow> bytes \<Rightarrow> main_msg" where
  "write_message cid path is_last c = main_request cid (\<not> is_last) (Request (StorageWriteRequest path c))"

fun write_fragments :: "'d platform \<Rightarrow> nat \<Rightarrow> string \<Rightarrow> bytes list \<Rightarrow> (('d, 'z) rworld_scheme, bool) action" where
  "write_fragments P cid path [] = ret False"
| "write_fragments P cid path (c # cs) =
     (let frame = framed (serialize P (write_message cid path (cs = []) c))
      in thenM (transport_send P frame)
         (if cs = []
          then bindM (receive_main_message P RESPONSE_TIMEOUT) (\<lambda>resp. ret (is_ok resp))
          else thenM (sleep (write_pause frame)) (write_fragments P cid path cs)))"

definition storage_write_internal ::
  "'d platform \<Rightarrow> string \<Rightarrow> bytes \<Rightarrow> (('d, 'z) rworld_scheme, bool) action" where
  "storage_write_internal P path data =
     guarded False
       (thenM (ensure_rpc_session_started P)
       (bindM get_next_command_id (\<lambda>cid.
        write_fragments P cid path (chunk data WRITE_CHUNK_SIZE))))"

definition storage_write :: "'d platform \<Rightarrow> string \<Rightarrow> bytes \<Rightarrow> (('d, 'z) rworld_scheme, bool) action" where
  "storage_write P path data = timed (write_budget data) False (storage_write_internal P path data)"

section \<open>What the calls keep and contain\<close>

lemma list_frames_loop_r: "keeps r_frame (list_frames_loop P path k m)"
proof (induction k arbitrary: m)
  case 0
  show ?case by (subst list_frames_loop.simps) (auto intro: rpcf.keeps_rules)
next
  case (Suc k)
  show ?case by (subst list_frames_loop.simps) (auto intro!: rcall_rules Suc.IH)
qed

lemma storage_list_frames_r: "keeps r_frame (storage_list_frames P path md5 n)"
  unfolding storage_list_frames_def by (intro rcall_rules list_frames_loop_r)

lemma write_fragments_r: "keeps r_frame (write_fragments P cid path cs)"
proof (induction cs)
  case Nil
  show ?case by (simp add: rpcf.keeps_ret)
next
  case (Cons c cs)
  have "keeps r_frame (transport_send P b)" and "keeps r_frame (sleep t)" for b t
    by (rule keeps_t_r, blast)+
  then show ?case unfolding write_fragments.simps Let_def by (intro rcall_rules Cons.IH)
qed

lemma storage_calls_r [intro]:
  "keeps r_frame (storage_list P path md5 n)" "keeps r_frame (storage_list_detailed P path md5 n)"
  "keeps r_frame (storage_read P path)" "keeps r_frame (storage_info P path)"
  "keeps r_frame (storage_stat P path)" "keeps r_frame (storage_timestamp P path)"
  "keeps r_frame (storage_md5sum P path)" "keeps r_frame (storage_mkdir P path)"
  "keeps r_frame (storage_delete P path b)" "keeps r_frame (storage_rename P path path')"
  "keeps r_frame (storage_write P path data)"
  unfolding storage_list_def storage_list_detailed_def storage_read_def storage_info_def storage_stat_def
    storage_timestamp_def storage_md5sum_def storage_mkdir_def storage_delete_def storage_rename_def
    storage_write_def storage_write_internal_def
  by (intro rcall_rules storage_list_frames_r write_fragments_r)+

lemma contained_storage:
  "contained (storage_read P path)" "contained (storage_info P path)" "contained (storage_stat P path)"
  "contained (storage_timestamp P path)" "contained (storage_md5sum P path)" "contained (storage_mkdir P path)"
  "contained (storage_delete P path b)" "contained (storage_rename P path path')"
  "contained (storage_write P path data)"
  unfolding storage_read_def storage_info_def storage_stat_def storage_timestamp_def storage_md5sum_def
    storage_mkdir_def storage_delete_def storage_rename_def storage_write_def
  by (intro contained_timed)+

section \<open>A listing is complete or an error\<close>

text \<open>A stream of frames is complete when every frame but the last announces another one.\<close>

fun complete_stream :: "main_msg list \<Rightarrow> bool" where
  "complete_stream [] = False"
| "complete_stream [m] = (\<not> has_next m)"
| "complete_stream (m # ms) = (has_next m \<and> complete_stream ms)"

lemma complete_stream_Cons:
  "complete_stream (m # ms) \<longleftrightarrow> (if ms = [] then \<not> has_next m else has_next m \<and> complete_stream ms)"
  by (cases ms) auto

text \<open>These messages are read one after the other, from the state \<open>w\<close> to the state \<open>w'\<close>.\<close>

fun frames_read :: "'d platform \<Rightarrow> ('d, 'z) tworld_scheme \<Rightarrow> main_msg list \<Rightarrow> ('d, 'z) tworld_scheme \<Rightarrow> bool" where
  "frames_read P w [] w' \<longleftrightarrow> w' = w"
| "frames_read P w (m # ms) w' \<longleftrightarrow>
     (\<exists>v. receive_main_message P RESPONSE_TIMEOUT w = (Inr (Some m), v) \<and> frames_read P v ms w')"

lemma list_frames_loop_complete:
  "list_frames_loop P path k m w = (Inr ms, w') \<Longrightarrow>
     complete_stream (m # ms) \<and> length ms \<le> k \<and> (\<forall>x \<in> set ms. command_status x = STATUS_OK) \<and> frames_read P w ms w'"
proof (induction k arbitrary: m ms w)
  case 0
  then show ?case
    by (subst (asm) list_frames_loop.simps) (auto simp: ret_def raise_def split: if_splits)
next
  case (Suc k)
  show ?case
  proof (cases "has_next m")
    case False
    with Suc.prems show ?thesis by (subst (asm) list_frames_loop.simps) (simp add: ret_def)
  next
    case True
    with Suc.prems obtain m' ms' w1 where w1: "receive_main_message P RESPONSE_TIMEOUT w = (Inr (Some m'), w1)"
      and m': "command_status m' = STATUS_OK"
      and rec: "list_frames_loop P path k m' w1 = (Inr ms', w')" and ms: "ms = m' # ms'"
      by (auto simp: list_frames_loop.simps [of P path "Suc k" m] ret_def raise_def
          elim!: bindM_InrE split: option.splits if_splits)
    from Suc.IH [OF rec] w1 m' True ms show ?thesis by auto
  qed
qed

lemma storage_list_frames_complete:
  assumes "storage_list_frames P path md5 n w = (Inr frames, w')"
  obtains m ms v where "frames = m # ms" and "answered P (StorageListRequest path md5 n) RESPONSE_TIMEOUT w m v"
    and "frames_read P v ms w'" and "complete_stream frames" and "length frames \<le> Suc MAX_ITERATIONS"
    and "\<forall>m \<in> set frames. command_status m = STATUS_OK"
proof -
  from assms obtain m ms v where m: "request P (StorageListRequest path md5 n) RESPONSE_TIMEOUT w = (Inr (Some m), v)"
    and frames: "frames = m # ms" "command_status m = STATUS_OK"
    and loop: "list_frames_loop P path MAX_ITERATIONS m v = (Inr ms, w')"
    by (auto simp: storage_list_frames_def request_def bindM_eq_Inr ret_def raise_def split: option.splits if_splits)
  from list_frames_loop_complete [OF loop] frames m [unfolded request_answered] show ?thesis by (intro that) auto
qed

lemma list_frames_loop_error:
  "list_frames_loop P path k m w = (Inl e, w') \<Longrightarrow> is_exception e \<Longrightarrow>
     (\<exists>t. e = FlipperTimeoutError t) \<or> (\<exists>t. e = FlipperProtocolError t)"
proof (induction k arbitrary: m w)
  case 0
  then show ?case
    by (auto simp: list_frames_loop.simps [of P path 0 m] ret_def raise_def split: if_splits)
next
  case (Suc k)
  then show ?case
    by (auto simp: list_frames_loop.simps [of P path "Suc k" m] ret_def raise_def bindM_def
        split: if_splits prod.splits sum.splits option.splits dest: receive_main_message_Inl)
qed

lemma storage_list_frames_error:
  assumes "storage_list_frames P path md5 n w = (Inl e, w')" and "is_exception e"
  shows "(\<exists>t. e = FlipperTimeoutError t) \<or> (\<exists>t. e = FlipperProtocolError t) \<or>
         (\<exists>t. e = ValueError t) \<and> 2 ^ 32 \<le> n"
  using assms
  by (auto simp: storage_list_frames_def get_next_command_id_def UINT32_RANGE_def Let_def bindM_def ret_def raise_def
      split: if_splits prod.splits sum.splits option.splits
      dest: list_frames_loop_error containedD [OF contained_send_rpc])

section \<open>What a write puts on the wire\<close>

text \<open>The messages of a write, and what a device makes of them: it appends the data of the
  fragments of one command until a fragment announces no other.\<close>

fun write_messages :: "nat \<Rightarrow> string \<Rightarrow> bytes list \<Rightarrow> main_msg list" where
  "write_messages cid path [] = []"
| "write_messages cid path (c # cs) = write_message cid path (cs = []) c # write_messages cid path cs"

fun reassemble :: "nat \<Rightarrow> string \<Rightarrow> main_msg list \<Rightarrow> bytes option" where
  "reassemble cid path [] = None"
| "reassemble cid path (m # ms) =
     (case content m of
        Request (StorageWriteRequest p c) \<Rightarrow>
          (if command_id m \<noteq> cid \<or> p \<noteq> path then None
           else if has_next m then map_option ((@) c) (reassemble cid path ms)
           else if ms = [] then Some c else None)
      | _ \<Rightarrow> None)"

lemma write_messages_empty [simp]: "write_messages cid path cs = [] \<longleftrightarrow> cs = []"
  by (cases cs) auto

lemma reassemble_write_messages:
  "cs \<noteq> [] \<Longrightarrow> reassemble cid path (write_messages cid path cs) = Some (concat cs)"
  by (induction cs) (auto simp: write_message_def)

lemma write_messages_chunk:
  "reassemble cid path (write_messages cid path (chunk data WRITE_CHUNK_SIZE)) = Some data"
  by (simp add: reassemble_write_messages WRITE_CHUNK_SIZE_def chunk_concat)

abbreviation wire :: "'d platform \<Rightarrow> main_msg list \<Rightarrow> bytes list" where
  "wire P ms \<equiv> map (\<lambda>m. framed (serialize P m)) ms"

lemma sends_prefix_fragment:
  assumes "sends_prefix bs m"
  shows "sends_prefix (frame # bs) (thenM (transport_send P frame) (thenM (sleep t) m))"
proof -
  have "sends_prefix ([frame] @ ([] @ bs)) (thenM (transport_send P frame) (thenM (sleep t) m))"
    by (intro sends_prefix_rules assms)
  then show ?thesis by simp
qed

lemma sends_prefix_last_fragment:
  "sends_prefix [frame] (thenM (transport_send P frame) (bindM (receive_main_message P t) (\<lambda>resp. ret (is_ok resp))))"
proof -
  have "sends_prefix ([frame] @ ([] @ []))
      (thenM (transport_send P frame) (bindM (receive_main_message P t) (\<lambda>resp. ret (is_ok resp))))"
    by (intro sends_prefix_rules sends_prefix_receive)
  then show ?thesis by simp
qed

lemma write_fragments_wire: "sends_prefix (wire P (write_messages cid path cs)) (write_fragments P cid path cs)"
  by (induction cs)
    (simp_all add: sends_prefix_simple sends_prefix_fragment sends_prefix_last_fragment Let_def)

end
