(* ===== verification/Cli_Risk.thy ===== *)
theory Cli_Risk
  imports Py_Text "HOL-Library.Code_Target_Nat"
begin

text \<open>
  The advisory risk classification of CLI command lines (\<^verbatim>\<open>rpc/cli_risk.py\<close>).
\<close>

section \<open>Rules\<close>

datatype category = Benign | Transmit | Destructive

fun category_text :: "category \<Rightarrow> string" where
  "category_text Benign = ''benign''"
| "category_text Transmit = ''transmit''"
| "category_text Destructive = ''destructive''"

definition DENYLIST :: "(string \<times> category) list" where
  "DENYLIST =
     [(''subghz tx'', Transmit),
      (''ir tx'', Transmit),
      (''rfid write'', Transmit),
      (''ikey write'', Transmit),
      (''factory reset'', Destructive),
      (''storage format'', Destructive),
      (''update install'', Destructive),
      (''power off'', Destructive),
      (''power reboot'', Destructive)]"

fun WARNINGS :: "category \<Rightarrow> string option" where
  "WARNINGS Benign = None"
| "WARNINGS Transmit = Some
     (''This command makes the Flipper TRANSMIT on a radio/RF interface. '' @
      ''Transmitting outside permitted frequencies/power is illegal in most '' @
      ''regions and is your responsibility. Re-call with '' @
      ''i_accept_responsibility=true (and FLIPPER_ENABLE_TX_TOOLS=true on the '' @
      ''server) to proceed.'')"
| "WARNINGS Destructive = Some
     (''This command is destructive (data loss, reset, or reboot). Re-call with '' @
      ''i_accept_responsibility=true (and FLIPPER_ENABLE_TX_TOOLS=true on the '' @
      ''server) to proceed.'')"

record risk =
  risk_category :: category
  risk_gated :: bool
  risk_warning :: "string option"

definition normalize :: "string \<Rightarrow> string" where
  "normalize command = join '' '' (split_ws (lower (strip command)))"

fun classify_rules :: "(string \<times> category) list \<Rightarrow> string \<Rightarrow> risk" where
  "classify_rules [] n = \<lparr>risk_category = Benign, risk_gated = False, risk_warning = None\<rparr>"
| "classify_rules ((prefix, c) # rules) n =
     (if n = prefix \<or> startswith n (prefix @ '' '')
      then \<lparr>risk_category = c, risk_gated = True, risk_warning = WARNINGS c\<rparr>
      else classify_rules rules n)"

definition classify :: "string \<Rightarrow> risk" where
  "classify command = classify_rules DENYLIST (normalize command)"

section \<open>Words\<close>

text \<open>The words of a line, and the classification as a statement about its first words.\<close>

definition is_word :: "string \<Rightarrow> bool" where
  "is_word w \<longleftrightarrow> w \<noteq> [] \<and> list_all (\<lambda>c. \<not> py_space c) w"

lemma split_ws_blank: "dropWhile py_space s = [] \<Longrightarrow> split_ws s = []"
  by (subst split_ws.simps) (simp only: Let_def refl if_True)

lemma split_ws_step:
  "dropWhile py_space s = t \<Longrightarrow> t \<noteq> [] \<Longrightarrow>
   split_ws s = takeWhile (\<lambda>c. \<not> py_space c) t # split_ws (dropWhile (\<lambda>c. \<not> py_space c) t)"
  by (subst split_ws.simps) (simp only: Let_def if_False)

lemma split_ws_words: "w \<in> set (split_ws s) \<Longrightarrow> is_word w"
proof (induction s rule: split_ws.induct)
  case (1 s)
  let ?t = "dropWhile py_space s"
  show ?case
  proof (cases "?t = []")
    case True
    with "1.prems" show ?thesis by (simp only: split_ws_blank) simp
  next
    case False
    then have "\<not> py_space (hd ?t)" by (metis hd_dropWhile)
    then have "is_word (takeWhile (\<lambda>c. \<not> py_space c) ?t)"
      using False by (cases ?t) (auto simp: is_word_def list_all_iff dest: set_takeWhileD)
    with "1.prems" "1.IH" [OF refl False] show ?thesis
      unfolding split_ws_step [OF refl False] by auto
  qed
qed

lemma split_ws_Nil [simp]: "split_ws [] = []"
  by (simp add: split_ws_blank)

lemma split_ws_space: "py_space c \<Longrightarrow> split_ws (c # s) = split_ws s"
  by (subst (1 2) split_ws.simps) (simp only: Let_def dropWhile.simps if_True)

lemma split_ws_word:
  assumes "is_word w"
  shows "split_ws (w @ s) = (if s = [] \<or> py_space (hd s) then w # split_ws s else split_ws (w @ s))"
proof (cases "s = [] \<or> py_space (hd s)")
  case True
  from assms obtain c w' where w: "w = c # w'" "\<not> py_space c" by (cases w) (auto simp: is_word_def)
  have all: "\<forall>c \<in> set w. \<not> py_space c" using assms by (simp add: is_word_def list_all_iff)
  have "takeWhile (\<lambda>c. \<not> py_space c) (w @ s) = w" and "dropWhile (\<lambda>c. \<not> py_space c) (w @ s) = s"
    using all True by (cases s; simp)+
  moreover have "dropWhile py_space (w @ s) = w @ s" using w by simp
  ultimately have "split_ws (w @ s) = w # split_ws s"
    using split_ws_step [of "w @ s" "w @ s"] w by simp
  with True show ?thesis by simp
qed simp

lemma py_space_blank [simp]: "py_space CHR '' ''"
  by (simp add: py_space_def code_def)

lemma split_ws_join: "list_all is_word ws \<Longrightarrow> split_ws (join '' '' ws) = ws"
proof (induction ws rule: induct_list012)
  case (2 x)
  then show ?case using split_ws_word [of x "[]"] by simp
next
  case (3 x y xs)
  then show ?case using split_ws_word [of x "'' '' @ join '' '' (y # xs)"] by (simp add: split_ws_space)
qed simp

lemma split_ws_dropWhile: "split_ws (dropWhile py_space s) = split_ws s"
  by (induction s) (simp_all add: split_ws_space)

lemma join_injective:
  "list_all is_word a \<Longrightarrow> list_all is_word b \<Longrightarrow> join '' '' a = join '' '' b \<Longrightarrow> a = b"
  by (metis split_ws_join)

lemma join_append: "a \<noteq> [] \<Longrightarrow> b \<noteq> [] \<Longrightarrow> join sep (a @ b) = join sep a @ sep @ join sep b"
proof (induction a)
  case (Cons x a)
  then show ?case by (cases a; cases b) auto
qed simp

text \<open>A line of words starts with a rule followed by a blank, or equals it, exactly when the
  rule's words are the line's first words.\<close>

lemma rule_matches_iff:
  assumes "list_all is_word ws" and "list_all is_word ps" and "ps \<noteq> []"
  shows "join '' '' ws = join '' '' ps \<or> startswith (join '' '' ws) (join '' '' ps @ '' '') \<longleftrightarrow>
         take (length ps) ws = ps"
proof
  assume "take (length ps) ws = ps"
  then obtain rest where ws: "ws = ps @ rest" by (metis append_take_drop_id)
  show "join '' '' ws = join '' '' ps \<or> startswith (join '' '' ws) (join '' '' ps @ '' '')"
  proof (cases "rest = []")
    case False
    then have "join '' '' ws = (join '' '' ps @ '' '') @ join '' '' rest"
      using ws assms(3) by (simp add: join_append)
    then show ?thesis by (metis startswith_append)
  qed (simp add: ws)
next
  assume "join '' '' ws = join '' '' ps \<or> startswith (join '' '' ws) (join '' '' ps @ '' '')"
  then show "take (length ps) ws = ps"
  proof
    assume "join '' '' ws = join '' '' ps"
    with assms have "ws = ps" by (metis join_injective)
    then show ?thesis by simp
  next
    assume "startswith (join '' '' ws) (join '' '' ps @ '' '')"
    then obtain t where t: "join '' '' ws = join '' '' ps @ '' '' @ t" by (auto simp: startswith_iff)
    have "split_ws (join '' '' ps @ '' '' @ t) = ps @ split_ws t"
      using assms(2,3)
    proof (induction ps rule: induct_list012)
      case (2 x)
      then show ?case using split_ws_word [of x "'' '' @ t"] by (simp add: split_ws_space)
    next
      case (3 x y xs)
      then show ?case using split_ws_word [of x "'' '' @ join '' '' (y # xs) @ '' '' @ t"]
        by (simp add: split_ws_space)
    qed simp
    with t assms(1) have "ws = ps @ split_ws t" by (metis split_ws_join)
    then show ?thesis by simp
  qed
qed

text \<open>Stripping and case folding do not change where words end.\<close>

lemma dropWhile_map_lower: "dropWhile py_space (map lower_char s) = map lower_char (dropWhile py_space s)"
  by (induction s) auto

lemma split_ws_rstrip: "split_ws (rstrip s) = split_ws s"
proof -
  have "split_ws (s @ t) = split_ws s" if "\<forall>c \<in> set t. py_space c" for s t
  proof (induction s rule: split_ws.induct)
    case (1 s)
    have blank: "split_ws t = []" using that by (induction t) (simp_all add: split_ws_space)
    let ?t = "dropWhile py_space s"
    show ?case
    proof (cases "?t = []")
      case True
      then have "\<forall>c \<in> set s. py_space c" by simp
      then have "split_ws (s @ t) = split_ws t" by (induction s) (simp_all add: split_ws_space)
      with blank show ?thesis by (simp only: split_ws_blank [OF True])
    next
      case False
      let ?w = "takeWhile (\<lambda>c. \<not> py_space c) ?t" and ?r = "dropWhile (\<lambda>c. \<not> py_space c) ?t"
      have hd: "\<not> py_space (hd ?t)" using False by (metis hd_dropWhile)
      have w: "is_word ?w"
        using False hd by (cases ?t) (auto simp: is_word_def list_all_iff dest: set_takeWhileD)
      have rt: "?r @ t = [] \<or> py_space (hd (?r @ t))"
      proof (cases "?r = []")
        case True
        have "t = [] \<or> py_space (hd t)" using that by (cases t) auto
        then show ?thesis unfolding True by simp
      next
        case False
        then show ?thesis by (metis hd_append2 hd_dropWhile)
      qed
      have "split_ws (s @ t) = split_ws (?t @ t)"
      proof -
        obtain x where "x \<in> set s" "\<not> py_space x" using False by auto
        then have "dropWhile py_space (s @ t) = ?t @ t" by (rule dropWhile_append1)
        then show ?thesis by (metis split_ws_dropWhile)
      qed
      also have "?t @ t = ?w @ ?r @ t" by simp
      also have "split_ws (?w @ ?r @ t) = ?w # split_ws (?r @ t)"
        using split_ws_word [OF w, of "?r @ t"] rt by simp
      also have "\<dots> = ?w # split_ws ?r" using "1.IH" [OF refl False] by simp
      also have "\<dots> = split_ws s" by (rule split_ws_step [OF refl False, symmetric])
      finally show ?thesis .
    qed
  qed
  moreover have "s = rstrip s @ rev (takeWhile py_space (rev s))"
    by (metis rev_append rev_rev_ident rstrip_def takeWhile_dropWhile_id)
  ultimately show ?thesis by (metis set_rev set_takeWhileD)
qed

definition words :: "string \<Rightarrow> string list" where
  "words command = split_ws (lower command)"

lemma words_list [simp]: "list_all is_word (words s)"
  by (simp add: words_def list_all_iff split_ws_words)

lemma normalize_words: "normalize command = join '' '' (words command)"
proof -
  have "lower (strip command) = rstrip (dropWhile py_space (lower command))"
    by (simp add: strip_def lstrip_def rstrip_def lower_def dropWhile_map_lower rev_map)
  then show ?thesis
    by (simp add: normalize_def words_def split_ws_rstrip split_ws_dropWhile)
qed

definition RULE_WORDS :: "(string list \<times> category) list" where
  "RULE_WORDS = map (\<lambda>(p, c). (split_ws p, c)) DENYLIST"

lemma denylist_words:
  "list_all (\<lambda>(p, c). p = join '' '' (split_ws p) \<and> list_all is_word (split_ws p) \<and> split_ws p \<noteq> []) DENYLIST"
  by code_simp

fun first_rule :: "(string list \<times> category) list \<Rightarrow> string list \<Rightarrow> category option" where
  "first_rule [] ws = None"
| "first_rule ((ps, c) # rules) ws = (if take (length ps) ws = ps then Some c else first_rule rules ws)"

lemma classify_rules_words:
  assumes "list_all (\<lambda>(p, c). p = join '' '' (split_ws p) \<and> list_all is_word (split_ws p) \<and> split_ws p \<noteq> []) rules"
    and "list_all is_word ws"
  shows "classify_rules rules (join '' '' ws) =
     (case first_rule (map (\<lambda>(p, c). (split_ws p, c)) rules) ws of
        None \<Rightarrow> \<lparr>risk_category = Benign, risk_gated = False, risk_warning = None\<rparr>
      | Some c \<Rightarrow> \<lparr>risk_category = c, risk_gated = True, risk_warning = WARNINGS c\<rparr>)"
  using assms
proof (induction rules)
  case (Cons rule rules)
  obtain p c where rule: "rule = (p, c)" by (cases rule)
  with Cons.prems have p: "p = join '' '' (split_ws p)" "list_all is_word (split_ws p)" "split_ws p \<noteq> []" by auto
  have "join '' '' ws = p \<or> startswith (join '' '' ws) (p @ '' '') \<longleftrightarrow> take (length (split_ws p)) ws = split_ws p"
    using rule_matches_iff [OF Cons.prems(2) p(2,3)] p(1) by simp
  with Cons rule show ?case by simp
qed simp

lemma classify_words:
  "classify command =
     (case first_rule RULE_WORDS (words command) of
        None \<Rightarrow> \<lparr>risk_category = Benign, risk_gated = False, risk_warning = None\<rparr>
      | Some c \<Rightarrow> \<lparr>risk_category = c, risk_gated = True, risk_warning = WARNINGS c\<rparr>)"
  unfolding classify_def normalize_words RULE_WORDS_def
  by (rule classify_rules_words [OF denylist_words words_list])

end
