(* ===== verification/Client.thy ===== *)
theory Client
  imports Rpc_Storage Cli_Risk
begin

text \<open>
  The client (\<^verbatim>\<open>rpc/client.py\<close>): connection, link mode, health, cached facts about the device,
  and the execution of one CLI command.
\<close>

section \<open>State\<close>

datatype link_mode = UNKNOWN | CLI | RPC

text \<open>\<open>c_rpc\<close> says whether the client holds an RPC object; the object's own fields are those of
  \<open>rworld\<close>.\<close>

record 'd cworld = "'d rworld" +
  c_connected :: bool
  c_rpc :: bool
  c_last_error :: "string option"
  c_sd_card :: "bool option"
  c_mode :: link_mode

definition set_last_error :: "string option \<Rightarrow> (('d, 'z) cworld_scheme, unit) action" where
  "set_last_error e = modify (\<lambda>w. w\<lparr>c_last_error := e\<rparr>)"

definition set_mode :: "link_mode \<Rightarrow> (('d, 'z) cworld_scheme, unit) action" where
  "set_mode m = modify (\<lambda>w. w\<lparr>c_mode := m\<rparr>)"

section \<open>Connecting\<close>

text \<open>A fresh \<^verbatim>\<open>ProtobufRPC\<close> object.\<close>

definition new_rpc :: "(('d, 'z) cworld_scheme, unit) action" where
  "new_rpc = modify (\<lambda>w. w\<lparr>c_rpc := True, r_command_id := 0, r_session_started := False, r_last_failure := None\<rparr>)"

definition connect :: "'d platform \<Rightarrow> (('d, 'z) cworld_scheme, bool) action" where
  "connect P =
     bindM (try_except is_os_or_runtime (transport_connect P)
              (\<lambda>e. thenM (set_last_error (Some (exn_text e))) (ret False)))
       (\<lambda>ok. if \<not> ok then ret False
             else thenM new_rpc
                  (thenM (modify (\<lambda>w. w\<lparr>c_connected := True, c_last_error := None, c_sd_card := None,
                                        c_mode := UNKNOWN\<rparr>))
                  (ret True)))"

definition disconnect :: "'d platform \<Rightarrow> (('d, 'z) cworld_scheme, unit) action" where
  "disconnect P =
     thenM (try_except is_os_or_runtime (transport_disconnect P)
              (\<lambda>e. set_last_error (Some (exn_text e))))
     (modify (\<lambda>w. w\<lparr>c_connected := False, c_rpc := False, c_sd_card := None, c_mode := UNKNOWN\<rparr>))"

section \<open>Link mode\<close>

definition enter_rpc :: "'d platform \<Rightarrow> (('d, 'z) cworld_scheme, link_mode) action" where
  "enter_rpc P =
     bindM (get c_rpc) (\<lambda>rpc.
     if \<not> rpc then get c_mode
     else thenM (with_lock (thenM (ensure_rpc_session_started P) (set_mode RPC))) (get c_mode))"

definition enter_cli :: "'d platform \<Rightarrow> (('d, 'z) cworld_scheme, link_mode) action" where
  "enter_cli P =
     bindM (get c_rpc) (\<lambda>rpc.
     if \<not> rpc then get c_mode
     else thenM (with_lock (thenM (send_stop_session P) (set_mode CLI))) (get c_mode))"

section \<open>Health and device facts\<close>

record connection_health =
  h_timestamp :: string
  h_connected :: bool
  h_transport_connected :: bool
  h_rpc_responsive :: "bool option"
  h_transport_type :: string
  h_last_error :: "string option"

definition HEALTH_PROBE :: bytes where "HEALTH_PROBE = encode ''mcp_health''"

definition probe_health :: "'d platform \<Rightarrow> bool \<Rightarrow> (('d, 'z) cworld_scheme, bool) action" where
  "probe_health P transport_connected =
     bindM (get c_rpc) (\<lambda>rpc.
     if transport_connected \<and> rpc
     then bindM (try_except is_os_or_runtime
                   (bindM (ping P HEALTH_PROBE) (\<lambda>echoed. ret (echoed = Some HEALTH_PROBE)))
                   (\<lambda>e. thenM (set_last_error (Some (exn_text e))) (ret False)))
            (\<lambda>responsive.
             bindM (get c_last_error) (\<lambda>err.
             thenM (if \<not> responsive \<and> err = None then set_last_error (Some ''RPC ping unanswered'') else ret ())
             (ret responsive)))
     else ret False)"

definition get_connection_health ::
  "'d platform \<Rightarrow> bool \<Rightarrow> (('d, 'z) cworld_scheme, connection_health) action" where
  "get_connection_health P probe =
     bindM (get (utc_isoformat P \<circ> now)) (\<lambda>ts.
     bindM (try_except is_os_or_runtime (transport_is_connected P)
              (\<lambda>e. thenM (set_last_error (Some (exn_text e))) (ret False))) (\<lambda>transport_connected.
     bindM (if probe then bindM (probe_health P transport_connected) (\<lambda>b. ret (Some b)) else ret None) (\<lambda>rpc_responsive.
     bindM (get get_name) (\<lambda>name.
     bindM (get c_last_error) (\<lambda>err.
     ret \<lparr>h_timestamp = ts,
          h_connected = (transport_connected \<and> (case rpc_responsive of None \<Rightarrow> True | Some b \<Rightarrow> b)),
          h_transport_connected = transport_connected,
          h_rpc_responsive = rpc_responsive,
          h_transport_type = name,
          h_last_error = err\<rparr>)))))"

definition NORMALIZED_SOURCE_KEYS :: "string list" where
  "NORMALIZED_SOURCE_KEYS = [''hardware_name'', ''name'', ''hardware_model'', ''hardware'',
     ''firmware_version'', ''firmware'', ''version'']"

text \<open>\<^verbatim>\<open>info.get(a) or info.get(b) or dflt\<close>.\<close>

definition first_of :: "dict \<Rightarrow> string \<Rightarrow> string \<Rightarrow> string \<Rightarrow> string" where
  "first_of info a b dflt =
     (case map_of info a of
        Some v \<Rightarrow> (if v \<noteq> [] then v else case map_of info b of Some u \<Rightarrow> (if u \<noteq> [] then u else dflt) | None \<Rightarrow> dflt)
      | None \<Rightarrow> (case map_of info b of Some u \<Rightarrow> (if u \<noteq> [] then u else dflt) | None \<Rightarrow> dflt))"

definition get_device_info :: "'d platform \<Rightarrow> (('d, 'z) cworld_scheme, dict) action" where
  "get_device_info P =
     bindM (get c_rpc) (\<lambda>rpc.
     if \<not> rpc then ret [(''name'', ''Flipper Zero''), (''hardware'', ''Unknown''), (''firmware'', ''Unknown'')]
     else bindM (try_except is_os_or_runtime (rpc_get_device_info P)
                   (\<lambda>e. thenM (set_last_error (Some (exn_text e))) (ret []))) (\<lambda>info.
          ret ([(''name'', first_of info ''hardware_name'' ''name'' ''Flipper Zero''),
                (''hardware'', first_of info ''hardware_model'' ''hardware'' ''Unknown''),
                (''firmware'', first_of info ''firmware_version'' ''firmware'' ''Unknown'')] @
               filter (\<lambda>(k, v). k \<notin> set NORMALIZED_SOURCE_KEYS) info)))"

definition check_sd_card_available :: "'d platform \<Rightarrow> (('d, 'z) cworld_scheme, bool) action" where
  "check_sd_card_available P =
     bindM (get c_sd_card) (\<lambda>cached.
     case cached of
       Some b \<Rightarrow> ret b
     | None \<Rightarrow>
         bindM (get c_rpc) (\<lambda>rpc.
         bindM (if rpc
                then try_except is_os_or_runtime
                       (bindM (storage_info P ''/ext'') (\<lambda>info.
                        ret (case info of None \<Rightarrow> False | Some (space, free) \<Rightarrow> 0 < space)))
                       (\<lambda>e. thenM (set_last_error (Some (exn_text e))) (ret False))
                else ret False) (\<lambda>available.
         thenM (modify (\<lambda>w. w\<lparr>c_sd_card := Some available\<rparr>)) (ret available))))"

section \<open>Running a CLI command\<close>

definition CLI_PROMPT :: bytes where "CLI_PROMPT = encode ''>:''"

definition CLI_READ_SLICE :: nat where "CLI_READ_SLICE = millis 200"

definition SHELL_CHAINING :: "string list" where
  "SHELL_CHAINING = ['';'', ''&&'', ''||'', ''|'', [CHR 0x60], [CHR 0x0A], [CHR 0x0D]]"

record cli_exec_result =
  x_output :: string
  x_completed :: bool
  x_risk :: string
  x_warning :: "string option"

definition strip_cli_output :: "'d platform \<Rightarrow> bytes \<Rightarrow> string \<Rightarrow> string" where
  "strip_cli_output P raw command =
     (let lines = splitlines (utf8_decode P raw);
          lines' = (case lines of [] \<Rightarrow> [] | l # ls \<Rightarrow> if str_in (strip command) l then ls else lines)
      in strip (replace (join [CHR 0x0A] lines') ''>:'' []))"

definition reject_shell_chaining :: "string \<Rightarrow> ('s, unit) action" where
  "reject_shell_chaining command =
     (case filter (\<lambda>token. str_in token command) SHELL_CHAINING of
        [] \<Rightarrow> ret ()
      | token # _ \<Rightarrow> raise (FlipperCLIRefusedError
          (''shell chaining is not allowed; send exactly one command per call (found '' @ py_repr token @ '')'')))"

definition enforce_tx_gate :: "string option \<Rightarrow> bool \<Rightarrow> bool \<Rightarrow> ('s, unit) action" where
  "enforce_tx_gate warning accept_responsibility tx_tools_enabled =
     (if \<not> tx_tools_enabled
      then raise (FlipperCLIRefusedError
        (''transmit/destructive commands are disabled on this server; the operator '' @
         ''must set FLIPPER_ENABLE_TX_TOOLS=true to allow them''))
      else if \<not> accept_responsibility
      then raise (FlipperCLIRefusedError
        (case warning of Some w \<Rightarrow> (if w \<noteq> [] then w else ''command requires i_accept_responsibility=true'')
         | None \<Rightarrow> ''command requires i_accept_responsibility=true''))
      else ret ())"

text \<open>\<^verbatim>\<open>buf.rstrip().endswith(b">:")\<close>: bytes strip ASCII whitespace only.\<close>

definition byte_space :: "byte \<Rightarrow> bool" where
  "byte_space b \<longleftrightarrow> b \<in> {9, 10, 11, 12, 13, 32}"

definition at_prompt :: "bytes \<Rightarrow> bool" where
  "at_prompt buf \<longleftrightarrow>
     (let b = dropWhile byte_space (rev buf) in take (length CLI_PROMPT) b = rev CLI_PROMPT)"

text \<open>The loop reads the clock for its condition and once more for the time that remains.\<close>

function read_prompt_loop ::
  "'d platform \<Rightarrow> nat \<Rightarrow> bytes \<Rightarrow> ('d, 'z) tworld_scheme \<Rightarrow> (exn + bytes \<times> bool) \<times> ('d, 'z) tworld_scheme" where
  "read_prompt_loop P deadline buf w =
     (if now w < deadline
      then case transport_receive P (Some (min CLI_READ_SLICE (deadline - Suc (now w)))) (w\<lparr>now := Suc (Suc (now w))\<rparr>) of
             (Inl e, w1) \<Rightarrow> (Inl e, w1)
           | (Inr data, w1) \<Rightarrow>
               (if data \<noteq> [] \<and> at_prompt (buf @ data) then (Inr (buf @ data, True), w1)
                else read_prompt_loop P deadline (buf @ data) w1)
      else (Inr (buf, False), w\<lparr>now := Suc (now w)\<rparr>))"
  by pat_completeness auto
termination
proof (relation "measure (\<lambda>(P, deadline, buf, w). deadline - now w)", simp_all)
  fix P :: "'d platform" and deadline :: nat and w :: "('d, 'z) tworld_scheme" and a x w1
  assume "now w < deadline"
    and "(a, w1) = transport_receive P (Some (min CLI_READ_SLICE (deadline - Suc (now w)))) (w\<lparr>now := Suc (Suc (now w))\<rparr>)"
  then show "deadline - now w1 < deadline - now w"
    using keepsD [OF transport_receive_quiet, of P _ "w\<lparr>now := Suc (Suc (now w))\<rparr>" a w1] quiet_frame
    by fastforce
qed

declare read_prompt_loop.simps [simp del]

definition read_until_prompt :: "'d platform \<Rightarrow> nat \<Rightarrow> (('d, 'z) tworld_scheme, bytes \<times> bool) action" where
  "read_until_prompt P timeout = bindM monotonic (\<lambda>t. read_prompt_loop P (t + timeout) [])"

definition cli_exchange ::
  "'d platform \<Rightarrow> string \<Rightarrow> nat \<Rightarrow> (('d, 'z) cworld_scheme, string \<times> bool) action" where
  "cli_exchange P command timeout =
     thenM (send_stop_session P)
     (thenM (set_mode CLI)
     (thenM clear_receive_buffer
     (thenM (transport_send P CTRL_C_CR)
     (thenM (read_until_prompt P (seconds 2))
     (thenM clear_receive_buffer
     (thenM (transport_send P (encode command @ [0x0D]))
     (bindM (read_until_prompt P timeout) (\<lambda>(raw, completed).
      ret (strip_cli_output P raw command, completed)))))))))"

definition cli_exec ::
  "'d platform \<Rightarrow> string \<Rightarrow> nat \<Rightarrow> bool \<Rightarrow> bool \<Rightarrow> (('d, 'z) cworld_scheme, cli_exec_result) action" where
  "cli_exec P command timeout accept_responsibility tx_tools_enabled =
     bindM (get c_rpc) (\<lambda>rpc.
     bindM (get c_last_error) (\<lambda>err.
     if \<not> rpc
     then raise (FlipperNotConnectedError
            (case err of Some e \<Rightarrow> (if e \<noteq> [] then e else ''device unavailable'') | None \<Rightarrow> ''device unavailable''))
     else bindM (get supports_cli_text_mode) (\<lambda>supported.
          if \<not> supported then raise (FlipperCLIUnavailableError ''CLI text mode unavailable over WiFi bridge'')
          else thenM (reject_shell_chaining command)
               (let risk = classify command
                in thenM (if risk_gated risk
                          then enforce_tx_gate (risk_warning risk) accept_responsibility tx_tools_enabled
                          else ret ())
                   (bindM (with_lock (cli_exchange P command timeout)) (\<lambda>(output, completed).
                    ret \<lparr>x_output = output, x_completed = completed,
                         x_risk = category_text (risk_category risk), x_warning = risk_warning risk\<rparr>))))))"

end
