(* ===== verification/Config.thy ===== *)
theory Config
  imports Transport
begin

text \<open>
  The validated configuration (\<^verbatim>\<open>config.py\<close>) and the transport factory
  (\<^verbatim>\<open>transport/__init__.py\<close>).  Reading the environment is pydantic's work; the model starts
  from the field values and the checks that the class declares on them.
\<close>

section \<open>The settings\<close>

record flipper_config =
  cfg_transport :: string
  cfg_usb_port :: "string option"
  cfg_usb_baudrate :: int
  cfg_wifi_host :: "string option"
  cfg_wifi_port :: int
  cfg_enable_tx_tools :: bool
  cfg_enable_write_tools :: bool
  cfg_enable_firmware_flash :: bool
  cfg_debug :: bool

definition default_config :: flipper_config where
  "default_config =
     \<lparr>cfg_transport = ''auto'', cfg_usb_port = None, cfg_usb_baudrate = 115200, cfg_wifi_host = None,
      cfg_wifi_port = 8080, cfg_enable_tx_tools = False, cfg_enable_write_tools = False,
      cfg_enable_firmware_flash = False, cfg_debug = False\<rparr>"

text \<open>\<^verbatim>\<open>x and ...\<close> on an optional string: a missing and an empty string are both false.\<close>

definition truthy :: "string option \<Rightarrow> bool" where
  "truthy x = (case x of None \<Rightarrow> False | Some s \<Rightarrow> s \<noteq> [])"

definition wifi_configured :: "flipper_config \<Rightarrow> bool" where
  "wifi_configured c =
     (case cfg_wifi_host c of None \<Rightarrow> False | Some h \<Rightarrow> h \<noteq> [] \<and> strip h \<noteq> [])"

text \<open>The field checks (\<^verbatim>\<open>Literal\<close>, \<^verbatim>\<open>gt=0\<close>) and the model validator.\<close>

definition validate_config :: "flipper_config \<Rightarrow> exn + flipper_config" where
  "validate_config c =
     (if cfg_transport c \<notin> {''auto'', ''usb'', ''wifi''} then Inl (ValueError ''transport'')
      else if cfg_usb_baudrate c \<le> 0 then Inl (ValueError ''usb_baudrate'')
      else if cfg_wifi_port c \<le> 0 then Inl (ValueError ''wifi_port'')
      else if cfg_transport c = ''wifi'' \<and> \<not> wifi_configured c
      then Inl (ValueError ''transport='wifi' requires wifi_host (FLIPPER_WIFI_HOST) to be set'')
      else Inr c)"

record transport_section =
  ts_type :: string
  ts_usb :: usb_config
  ts_wifi :: wifi_config

definition as_transport_config :: "flipper_config \<Rightarrow> transport_section" where
  "as_transport_config c =
     \<lparr>ts_type = cfg_transport c,
      ts_usb = \<lparr>uc_port = (if truthy (cfg_usb_port c) then cfg_usb_port c else None),
                uc_baudrate = Some (cfg_usb_baudrate c), uc_timeout = None\<rparr>,
      ts_wifi = \<lparr>wc_host = (if truthy (cfg_wifi_host c) then cfg_wifi_host c else None),
                 wc_port = Some (cfg_wifi_port c), wc_connect_timeout = None,
                 wc_read_chunk_size = None\<rparr>\<rparr>"

section \<open>The factory\<close>

text \<open>A transport object: the class, and the fields its constructor sets.\<close>

datatype transport_object =
    NewUSB usb_transport
  | NewWiFi wifi_transport
  | NewAuto auto_transport

definition auto_new :: "transport_section \<Rightarrow> auto_transport" where
  "auto_new ts = \<lparr>a_usb_config = ts_usb ts, a_wifi_config = ts_wifi ts, a_active = None, a_connected = False\<rparr>"

definition get_transport :: "'d platform \<Rightarrow> 'd \<Rightarrow> string \<Rightarrow> transport_section \<Rightarrow> exn + transport_object" where
  "get_transport P d transport_type ts =
     (let t = lower transport_type
      in if t = ''auto'' then Inr (NewAuto (auto_new ts))
         else if t = ''usb'' then Inr (NewUSB (usb_new P (ts_usb ts) d))
         else if t = ''wifi'' then Inr (NewWiFi (wifi_new (ts_wifi ts)))
         else Inl (ValueError (''Unknown transport type: '' @ t @ ''. Available: auto, usb, wifi'')))"

section \<open>Facts\<close>

lemma lower_types:
  "lower ''auto'' = ''auto''" "lower ''usb'' = ''usb''" "lower ''wifi'' = ''wifi''"
  by code_simp+

lemma strip_nonempty: "strip h \<noteq> [] \<Longrightarrow> h \<noteq> []"
  by (auto simp: strip_def rstrip_def lstrip_def)

lemma wifi_configured_auto:
  "wifi_is_configured (auto_new (as_transport_config c)) = wifi_configured c"
  by (auto simp: wifi_is_configured_def auto_new_def as_transport_config_def wifi_configured_def truthy_def
      split: option.split)

end
