(* ===== verification/Py_Json.thy ===== *)
theory Py_Json
  imports Py_Text
begin

text \<open>
  The values that Python's \<^verbatim>\<open>json\<close> module yields and that the tools return, with the operations
  the program applies to them: subscripts, \<^verbatim>\<open>get\<close>, iteration, truth, \<^verbatim>\<open>str\<close> and \<^verbatim>\<open>repr\<close>, each with
  the exception it raises on a value of another type.
\<close>

section \<open>Values\<close>

text \<open>A float is its \<^verbatim>\<open>repr\<close>; an object has its keys in order, each once.\<close>

datatype json =
    JNull
  | JBool bool
  | JInt int
  | JFloat string
  | JStr string
  | JList "json list"
  | JObj "(string \<times> json) list"

abbreviation JNat :: "nat \<Rightarrow> json" where
  "JNat n \<equiv> JInt (int n)"

definition jopt :: "('a \<Rightarrow> json) \<Rightarrow> 'a option \<Rightarrow> json" where
  "jopt f x = (case x of None \<Rightarrow> JNull | Some y \<Rightarrow> f y)"

fun jtrue :: "json \<Rightarrow> bool" where
  "jtrue JNull = False"
| "jtrue (JBool b) = b"
| "jtrue (JInt i) = (i \<noteq> 0)"
| "jtrue (JFloat t) = (t \<notin> {''0.0'', ''-0.0''})"
| "jtrue (JStr s) = (s \<noteq> [])"
| "jtrue (JList xs) = (xs \<noteq> [])"
| "jtrue (JObj kvs) = (kvs \<noteq> [])"

section \<open>Access\<close>

text \<open>\<^verbatim>\<open>x.get(k, dflt)\<close>, which only a dictionary has.\<close>

fun jget :: "json \<Rightarrow> string \<Rightarrow> json \<Rightarrow> exn + json" where
  "jget (JObj kvs) k dflt = Inr (case map_of kvs k of None \<Rightarrow> dflt | Some v \<Rightarrow> v)"
| "jget _ k dflt = Inl AttributeError"

text \<open>\<^verbatim>\<open>x[k]\<close> for a string \<^verbatim>\<open>k\<close>.\<close>

fun jkey :: "json \<Rightarrow> string \<Rightarrow> exn + json" where
  "jkey (JObj kvs) k = (case map_of kvs k of None \<Rightarrow> Inl (KeyError (py_repr k)) | Some v \<Rightarrow> Inr v)"
| "jkey _ k = Inl TypeError"

text \<open>\<^verbatim>\<open>x[0]\<close> for a true \<^verbatim>\<open>x\<close>; the first branch is not reached with one.\<close>

fun jfirst :: "json \<Rightarrow> exn + json" where
  "jfirst (JList []) = Inl (KeyError ''0'')"
| "jfirst (JList (x # xs)) = Inr x"
| "jfirst (JStr (c # s)) = Inr (JStr [c])"
| "jfirst (JObj kvs) = Inl (KeyError ''0'')"
| "jfirst _ = Inl TypeError"

text \<open>\<^verbatim>\<open>iter(x)\<close>.\<close>

fun jiter :: "json \<Rightarrow> exn + json list" where
  "jiter (JList xs) = Inr xs"
| "jiter (JObj kvs) = Inr (map (\<lambda>(k, v). JStr k) kvs)"
| "jiter (JStr s) = Inr (map (\<lambda>c. JStr [c]) s)"
| "jiter _ = Inl TypeError"

text \<open>\<^verbatim>\<open>next((v for v in xs if v.get(k) == text), None)\<close>: the first match, lazily.\<close>

fun jfind :: "string \<Rightarrow> string \<Rightarrow> json list \<Rightarrow> exn + json" where
  "jfind k text [] = Inr JNull"
| "jfind k text (v # vs) =
     (case jget v k JNull of
        Inl e \<Rightarrow> Inl e
      | Inr x \<Rightarrow> (if x = JStr text then Inr v else jfind k text vs))"

text \<open>A value can be a dictionary key unless it is a list or a dictionary.\<close>

fun hashable :: "json \<Rightarrow> bool" where
  "hashable (JList _) = False"
| "hashable (JObj _) = False"
| "hashable _ = True"

section \<open>Text\<close>

fun jrepr :: "json \<Rightarrow> string" where
  "jrepr JNull = ''None''"
| "jrepr (JBool b) = (if b then ''True'' else ''False'')"
| "jrepr (JInt i) = int_str i"
| "jrepr (JFloat t) = t"
| "jrepr (JStr s) = py_repr s"
| "jrepr (JList xs) = ''['' @ join '', '' (map jrepr xs) @ '']''"
| "jrepr (JObj kvs) = ''{'' @ join '', '' (map (\<lambda>kv. py_repr (fst kv) @ '': '' @ jrepr (snd kv)) kvs) @ ''}''"

fun jstr :: "json \<Rightarrow> string" where
  "jstr (JStr s) = s"
| "jstr v = jrepr v"

section \<open>Results\<close>

text \<open>Computations that may raise, in sequence, and \<^verbatim>\<open>try\<close> around one that raises another exception.\<close>

definition bindR :: "exn + 'a \<Rightarrow> ('a \<Rightarrow> exn + 'b) \<Rightarrow> exn + 'b" where
  "bindR r k = (case r of Inl e \<Rightarrow> Inl e | Inr x \<Rightarrow> k x)"

definition catchR :: "(exn \<Rightarrow> bool) \<Rightarrow> exn + 'a \<Rightarrow> (exn \<Rightarrow> exn) \<Rightarrow> exn + 'a" where
  "catchR p r h = (case r of Inl e \<Rightarrow> Inl (if p e then h e else e) | Inr x \<Rightarrow> Inr x)"

lemma bindR_Inr [simp]: "bindR (Inr x) k = k x"
  by (simp add: bindR_def)

lemma bindR_Inl [simp]: "bindR (Inl e) k = Inl e"
  by (simp add: bindR_def)

lemma bindR_InrE:
  assumes "bindR r k = Inr y"
  obtains x where "r = Inr x" and "k x = Inr y"
  using assms by (cases r) simp_all

lemma lift_result_Inr: "lift_result r s = (Inr x, s') \<longleftrightarrow> r = Inr x \<and> s' = s"
  by (auto simp: lift_result_def)

lemma catchR_Inr [simp]: "catchR p r h = Inr x \<longleftrightarrow> r = Inr x"
  by (cases r) (simp_all add: catchR_def)

lemma jfind_Inr:
  "jfind k text vs = Inr v \<Longrightarrow> v \<noteq> JNull \<Longrightarrow> v \<in> set vs \<and> jget v k JNull = Inr (JStr text)"
  by (induction vs) (auto split: sum.splits if_splits)

end
