(* ===== verification/Tools_Common.thy ===== *)
theory Tools_Common
  imports Client Config Py_Json
begin

text \<open>
  What the tools share: the mapping of errors to \<^verbatim>\<open>ToolError\<close> (\<^verbatim>\<open>errors.py\<close>), the gates, and the
  reconnection before every call (\<^verbatim>\<open>tools/_common.py\<close>).  The server's context is the configuration,
  an argument, and the client, the state.
\<close>

section \<open>Errors\<close>

fun classify_client_error :: "exn \<Rightarrow> exn" where
  "classify_client_error (FlipperNotConnectedError m) =
     ToolError (''Flipper not connected: '' @ m @ ''. Call flipperzero_connection_reconnect, or check USB / FLIPPER_WIFI_HOST.'')"
| "classify_client_error (FlipperTimeoutError m) =
     ToolError (''Flipper RPC timed out: '' @ m @ ''. The device may be busy; retry.'')"
| "classify_client_error (FlipperConnectionError m) = ToolError (''Flipper connection error: '' @ m @ ''.'')"
| "classify_client_error (FlipperProtocolError m) = ToolError (''Flipper protocol error: '' @ m @ ''.'')"
| "classify_client_error (FlipperCLIUnavailableError m) =
     ToolError (''CLI text mode unavailable: '' @ m @ ''. CLI exec is USB-only; the WiFi bridge speaks protobuf RPC only.'')"
| "classify_client_error (FlipperCLIRefusedError m) = ToolError (''CLI command refused: '' @ m @ ''.'')"
| "classify_client_error (FlipperError m) = ToolError (''Flipper error: '' @ m @ ''.'')"
| "classify_client_error e = ToolError (''unexpected error: '' @ exn_text e @ ''.'')"

text \<open>\<^verbatim>\<open>try: m except Exception as e: _classify_client_error(e)\<close>.\<close>

definition reporting :: "('s, 'a) action \<Rightarrow> ('s, 'a) action" where
  "reporting m = try_except is_exception m (\<lambda>e. raise (classify_client_error e))"

section \<open>Gates\<close>

definition require_write_tools :: "flipper_config \<Rightarrow> ('s, unit) action" where
  "require_write_tools cfg =
     (if \<not> cfg_enable_write_tools cfg
      then raise (ToolError (''Write tools are disabled. Set FLIPPER_ENABLE_WRITE_TOOLS=true to allow '' @
        ''device-mutating storage operations (fs_push, fs_mkdir).''))
      else ret ())"

definition require_firmware_flash :: "flipper_config \<Rightarrow> ('s, unit) action" where
  "require_firmware_flash cfg =
     thenM (require_write_tools cfg)
     (if \<not> cfg_enable_firmware_flash cfg
      then raise (ToolError (''Firmware flashing is disabled. Set FLIPPER_ENABLE_FIRMWARE_FLASH=true '' @
        ''(in addition to FLIPPER_ENABLE_WRITE_TOOLS) to allow flashing firmware.''))
      else ret ())"

section \<open>The connection\<close>

text \<open>\<^verbatim>\<open>client.last_connection_error or dflt\<close>.\<close>

definition error_or :: "string \<Rightarrow> string option \<Rightarrow> string" where
  "error_or dflt err = (case err of Some e \<Rightarrow> (if e \<noteq> [] then e else dflt) | None \<Rightarrow> dflt)"

definition ensure_connected :: "'d platform \<Rightarrow> (('d, 'z) cworld_scheme, unit) action" where
  "ensure_connected P =
     bindM (try_except is_os_or_runtime (transport_is_connected P) (\<lambda>_. ret False)) (\<lambda>up.
     if up then ret ()
     else thenM (disconnect P)
          (bindM (connect P) (\<lambda>ok.
           if ok then ret ()
           else bindM (get c_last_error) (\<lambda>err.
                raise (FlipperNotConnectedError (error_or ''device unavailable'' err))))))"

definition get_rpc :: "'d platform \<Rightarrow> (('d, 'z) cworld_scheme, unit) action" where
  "get_rpc P =
     thenM (ensure_connected P)
     (bindM (get c_rpc) (\<lambda>rpc.
      if rpc then ret ()
      else bindM (get c_last_error) (\<lambda>err.
           raise (FlipperNotConnectedError (error_or ''RPC layer unavailable'' err)))))"

definition cli_typed :: "'d platform \<Rightarrow> string \<Rightarrow> nat \<Rightarrow> (('d, 'z) cworld_scheme, cli_exec_result) action" where
  "cli_typed P command timeout =
     (if risk_gated (classify command)
      then raise (ToolError (''cli_typed is benign-only; refusing gated command: '' @ py_repr command))
      else reporting (thenM (ensure_connected P) (cli_exec P command timeout False False)))"

definition CLI_TYPED_TIMEOUT :: nat where "CLI_TYPED_TIMEOUT = seconds 8"

text \<open>The shape of most tools: get the RPC layer, call it, report failures.\<close>

definition rpc_tool :: "'d platform \<Rightarrow> (('d, 'z) cworld_scheme, 'a) action \<Rightarrow> (('d, 'z) cworld_scheme, 'a) action" where
  "rpc_tool P m = reporting (thenM (get_rpc P) m)"

text \<open>\<^verbatim>\<open>if x is None: raise ToolError(message)\<close>, and \<^verbatim>\<open>if not ok: raise ToolError(message)\<close>.\<close>

definition answer :: "string \<Rightarrow> 'a option \<Rightarrow> ('s, 'a) action" where
  "answer message x = (case x of None \<Rightarrow> raise (ToolError message) | Some y \<Rightarrow> ret y)"

definition insist :: "string \<Rightarrow> bool \<Rightarrow> ('s, unit) action" where
  "insist message ok = (if ok then ret () else raise (ToolError message))"

section \<open>Facts\<close>

definition is_tool_error :: "exn \<Rightarrow> bool" where
  "is_tool_error e = (case e of ToolError _ \<Rightarrow> True | _ \<Rightarrow> False)"

lemma classify_is_tool_error: "is_tool_error (classify_client_error e)"
  by (cases e) (simp_all add: is_tool_error_def)

text \<open>An action is \<^emph>\<open>reported\<close> when every ordinary exception that leaves it is a \<^verbatim>\<open>ToolError\<close>.\<close>

definition reported :: "('s, 'a) action \<Rightarrow> bool" where
  "reported m \<longleftrightarrow> (\<forall>s e s'. m s = (Inl e, s') \<longrightarrow> is_exception e \<longrightarrow> is_tool_error e)"

lemma reportedD: "reported m \<Longrightarrow> m s = (Inl e, s') \<Longrightarrow> is_exception e \<Longrightarrow> is_tool_error e"
  unfolding reported_def by blast

lemma reported_ret: "reported (ret x)"
  by (simp add: reported_def ret_def)

lemma reported_get: "reported (get f)"
  by (simp add: reported_def get_def)

lemma reported_raise: "is_tool_error e \<Longrightarrow> reported (raise e)"
  by (simp add: reported_def raise_def)

lemma reported_bindM: "reported m \<Longrightarrow> (\<And>x. reported (k x)) \<Longrightarrow> reported (bindM m k)"
  unfolding reported_def bindM_def by (fastforce split: prod.splits sum.splits)

lemma reported_thenM: "reported m \<Longrightarrow> reported k \<Longrightarrow> reported (thenM m k)"
  by (simp add: thenM_def reported_bindM)

lemma reported_reporting: "reported (reporting m)"
  unfolding reported_def reporting_def try_except_def raise_def
  by (auto simp: classify_is_tool_error split: prod.splits sum.splits if_splits)

lemma reported_if: "reported m \<Longrightarrow> reported n \<Longrightarrow> reported (if b then m else n)"
  by simp

lemma reported_try: "reported m \<Longrightarrow> (\<And>e. reported (h e)) \<Longrightarrow> reported (try_except p m h)"
  unfolding reported_def try_except_def by (fastforce split: prod.splits sum.splits if_splits)

lemma reported_answer: "reported (answer msg x)"
  by (simp add: answer_def reported_ret reported_raise is_tool_error_def split: option.split)

lemma reported_insist: "reported (insist msg ok)"
  by (simp add: insist_def reported_ret reported_raise is_tool_error_def)

lemma reported_gate: "reported (require_write_tools cfg)"
  by (simp add: require_write_tools_def reported_ret reported_raise is_tool_error_def)

lemma reported_flash_gate: "reported (require_firmware_flash cfg)"
  by (simp add: require_firmware_flash_def reported_ret reported_raise is_tool_error_def reported_thenM reported_gate)

lemma reported_rpc_tool: "reported (rpc_tool P m)"
  by (simp add: rpc_tool_def reported_reporting)

lemma reported_contained: "contained m \<Longrightarrow> reported m"
  unfolding contained_def reported_def by blast

lemma reported_cli_typed: "reported (cli_typed P command t)"
  by (simp add: cli_typed_def reported_reporting reported_raise is_tool_error_def)

lemmas reported_rules = reported_ret reported_get reported_bindM reported_thenM reported_reporting reported_if
  reported_answer reported_insist reported_gate reported_flash_gate reported_rpc_tool reported_cli_typed

end
