(* ===== verification/Firmware_Flavor.thy ===== *)
theory Firmware_Flavor
  imports Rpc_Calls "HOL-Library.Code_Target_Nat"
begin

text \<open>
  The firmware classifier (\<^verbatim>\<open>firmware/flavor.py\<close>) and the texts of the update result codes
  (\<^verbatim>\<open>firmware/codes.py\<close>).
\<close>

section \<open>Flavors\<close>

datatype firmware_flavor = OFFICIAL | MOMENTUM | UNLEASHED | ROGUEMASTER | UNKNOWN_FLAVOR

fun flavor_value :: "firmware_flavor \<Rightarrow> string" where
  "flavor_value OFFICIAL = ''official''"
| "flavor_value MOMENTUM = ''momentum''"
| "flavor_value UNLEASHED = ''unleashed''"
| "flavor_value ROGUEMASTER = ''roguemaster''"
| "flavor_value UNKNOWN_FLAVOR = ''unknown''"

definition FLAVORS :: "firmware_flavor list" where
  "FLAVORS = [OFFICIAL, MOMENTUM, UNLEASHED, ROGUEMASTER, UNKNOWN_FLAVOR]"

text \<open>\<^verbatim>\<open>FirmwareFlavor(text)\<close>: the member with that value, or \<^verbatim>\<open>ValueError\<close>.\<close>

definition flavor_of_value :: "string \<Rightarrow> firmware_flavor option" where
  "flavor_of_value s = List.find (\<lambda>f. flavor_value f = s) FLAVORS"

record firmware_info =
  fw_flavor :: firmware_flavor
  fw_version :: "string option"
  fw_origin_fork :: "string option"
  fw_origin_git :: "string option"
  fw_target :: "string option"

definition GIT_MARKERS :: "(string \<times> firmware_flavor) list" where
  "GIT_MARKERS =
     [(''next-flip/momentum'', MOMENTUM),
      (''darkflippers/unleashed'', UNLEASHED),
      (''roguemaster/'', ROGUEMASTER),
      (''flipperdevices/flipperzero-firmware'', OFFICIAL)]"

definition FORK_MARKERS :: "(string \<times> firmware_flavor) list" where
  "FORK_MARKERS =
     [(''momentum'', MOMENTUM), (''unleashed'', UNLEASHED), (''roguemaster'', ROGUEMASTER), (''official'', OFFICIAL)]"

text \<open>\<^verbatim>\<open>x or ""\<close>.\<close>

definition or_empty :: "string option \<Rightarrow> string" where
  "or_empty x = (case x of None \<Rightarrow> [] | Some s \<Rightarrow> s)"

definition flavor_from :: "string option \<Rightarrow> string option \<Rightarrow> firmware_flavor" where
  "flavor_from origin_git origin_fork =
     (let git = lower (or_empty origin_git)
      in case List.find (\<lambda>(marker, f). str_in marker git) GIT_MARKERS of
           Some (_, f) \<Rightarrow> f
         | None \<Rightarrow>
             (case map_of FORK_MARKERS (lower (strip (or_empty origin_fork))) of
                Some f \<Rightarrow> f
              | None \<Rightarrow> UNKNOWN_FLAVOR))"

definition target_from :: "string option \<Rightarrow> string option" where
  "target_from hardware_target =
     (case hardware_target of
        None \<Rightarrow> None
      | Some t \<Rightarrow> (if t = [] then None else Some (CHR ''f'' # strip t)))"

definition classify_firmware :: "dict \<Rightarrow> firmware_info" where
  "classify_firmware device_info =
     (let origin_fork = map_of device_info ''firmware_origin_fork'';
          origin_git = map_of device_info ''firmware_origin_git''
      in \<lparr>fw_flavor = flavor_from origin_git origin_fork,
          fw_version = map_of device_info ''firmware_version'',
          fw_origin_fork = origin_fork,
          fw_origin_git = origin_git,
          fw_target = target_from (map_of device_info ''hardware_target'')\<rparr>)"

section \<open>Update result codes\<close>

definition UPDATE_OK :: nat where "UPDATE_OK = 0"

definition UPDATE_MESSAGES :: "(nat \<times> string) list" where
  "UPDATE_MESSAGES =
     [(1, ''update manifest path is invalid''),
      (2, ''update folder not found on device''),
      (3, ''update manifest is invalid or corrupt''),
      (4, ''an update stage file is missing from the bundle''),
      (5, ''an update stage failed its integrity check''),
      (6, ''update manifest pointer error''),
      (7, ''bundle hardware target does not match the device''),
      (8, ''update manifest version is outdated''),
      (9, ''device internal storage is full''),
      (10, ''unspecified update error'')]"

definition update_code_message :: "nat \<Rightarrow> string option" where
  "update_code_message c =
     (if c = UPDATE_OK then None
      else case map_of UPDATE_MESSAGES c of
             Some m \<Rightarrow> Some m
           | None \<Rightarrow> Some (''update failed (code '' @ nat_str c @ '')''))"

section \<open>Facts\<close>

lemma update_code_message_None: "update_code_message c = None \<longleftrightarrow> c = 0"
  by (simp add: update_code_message_def UPDATE_OK_def split: option.split)

lemma flavor_of_value_value: "flavor_of_value (flavor_value f) = Some f"
  by (cases f) (simp_all add: flavor_of_value_def FLAVORS_def)

lemma flavor_from_unknown:
  "flavor_from git fork = UNKNOWN_FLAVOR \<longleftrightarrow>
     (\<forall>(marker, f) \<in> set GIT_MARKERS. \<not> str_in marker (lower (or_empty git))) \<and>
     lower (strip (or_empty fork)) \<notin> fst ` set FORK_MARKERS"
proof -
  have git: "f \<noteq> UNKNOWN_FLAVOR" if "List.find (\<lambda>(marker, f). str_in marker g) GIT_MARKERS = Some (m, f)" for g m f
    using that by (auto simp: GIT_MARKERS_def split: if_splits)
  have fork: "f \<noteq> UNKNOWN_FLAVOR" if "map_of FORK_MARKERS s = Some f" for s f
    using map_of_SomeD [OF that] by (auto simp: FORK_MARKERS_def)
  have none: "List.find (\<lambda>(marker, f). str_in marker g) GIT_MARKERS = None \<longleftrightarrow>
      (\<forall>(marker, f) \<in> set GIT_MARKERS. \<not> str_in marker g)" for g
    by (auto simp: find_None_iff)
  show ?thesis
  proof (cases "List.find (\<lambda>(marker, f). str_in marker (lower (or_empty git))) GIT_MARKERS")
    case (Some mf)
    then obtain m f where mf: "mf = (m, f)" by (cases mf)
    with Some have "flavor_from git fork = f" by (simp add: flavor_from_def)
    moreover have "\<not> (\<forall>(marker, f) \<in> set GIT_MARKERS. \<not> str_in marker (lower (or_empty git)))"
      using none Some by (metis option.discI)
    ultimately show ?thesis using git Some mf by blast
  next
    case None
    then have "flavor_from git fork = (case map_of FORK_MARKERS (lower (strip (or_empty fork))) of
        Some f \<Rightarrow> f | None \<Rightarrow> UNKNOWN_FLAVOR)" by (simp add: flavor_from_def)
    then show ?thesis
      using none [THEN iffD1, OF None] fork [of "lower (strip (or_empty fork))"]
      by (auto simp: map_of_eq_None_iff split: option.splits) (metis map_of_SomeD fst_conv image_eqI)
  qed
qed

end
