(* ===== verification/Hashes.thy ===== *)
theory Hashes
  imports Py_Text "HOL-Library.Code_Target_Nat"
begin

text \<open>
  The two digests the program takes from Python's \<^verbatim>\<open>hashlib\<close>, as their standards define them:
  MD5 (RFC 1321) and SHA-256 (FIPS 180-4), on 32-bit words.
\<close>

section \<open>Words and bytes\<close>

type_synonym w32 = "32 word"

definition rotl32 :: "nat \<Rightarrow> w32 \<Rightarrow> w32" where
  "rotl32 n w = push_bit n w OR drop_bit (32 - n) w"

definition rotr32 :: "nat \<Rightarrow> w32 \<Rightarrow> w32" where
  "rotr32 n w = drop_bit n w OR push_bit (32 - n) w"

fun be_word :: "bytes \<Rightarrow> nat" where
  "be_word bs = foldl (\<lambda>n b. n * 256 + unat b) 0 bs"

fun le_bytes :: "nat \<Rightarrow> nat \<Rightarrow> bytes" where
  "le_bytes 0 n = []"
| "le_bytes (Suc k) n = of_nat (n mod 256) # le_bytes k (n div 256)"

definition be_bytes :: "nat \<Rightarrow> nat \<Rightarrow> bytes" where
  "be_bytes k n = rev (le_bytes k n)"

fun groups :: "nat \<Rightarrow> nat \<Rightarrow> 'a list \<Rightarrow> 'a list list" where
  "groups 0 k xs = []"
| "groups (Suc n) k xs = take k xs # groups n k (drop k xs)"

definition blocks :: "bytes \<Rightarrow> bytes list" where
  "blocks m = groups (length m div 64) 64 m"

definition pad_zeros :: "bytes \<Rightarrow> bytes" where
  "pad_zeros m = m @ [0x80] @ replicate ((119 - length m mod 64) mod 64) 0"

definition hex_byte :: "byte \<Rightarrow> string" where
  "hex_byte b = [hex_digit (unat b div 16), hex_digit (unat b mod 16)]"

definition hexdigest :: "bytes \<Rightarrow> string" where
  "hexdigest bs = concat (map hex_byte bs)"

section \<open>MD5\<close>

type_synonym md5_state = "w32 \<times> w32 \<times> w32 \<times> w32"

definition MD5_SHIFTS :: "nat list" where
  "MD5_SHIFTS =
     concat (replicate 4 [7, 12, 17, 22]) @ concat (replicate 4 [5, 9, 14, 20]) @
     concat (replicate 4 [4, 11, 16, 23]) @ concat (replicate 4 [6, 10, 15, 21])"

definition MD5_SINES :: "w32 list" where
  "MD5_SINES =
     [0xD76AA478, 0xE8C7B756, 0x242070DB, 0xC1BDCEEE, 0xF57C0FAF, 0x4787C62A,
      0xA8304613, 0xFD469501, 0x698098D8, 0x8B44F7AF, 0xFFFF5BB1, 0x895CD7BE,
      0x6B901122, 0xFD987193, 0xA679438E, 0x49B40821, 0xF61E2562, 0xC040B340,
      0x265E5A51, 0xE9B6C7AA, 0xD62F105D, 0x02441453, 0xD8A1E681, 0xE7D3FBC8,
      0x21E1CDE6, 0xC33707D6, 0xF4D50D87, 0x455A14ED, 0xA9E3E905, 0xFCEFA3F8,
      0x676F02D9, 0x8D2A4C8A, 0xFFFA3942, 0x8771F681, 0x6D9D6122, 0xFDE5380C,
      0xA4BEEA44, 0x4BDECFA9, 0xF6BB4B60, 0xBEBFBC70, 0x289B7EC6, 0xEAA127FA,
      0xD4EF3085, 0x04881D05, 0xD9D4D039, 0xE6DB99E5, 0x1FA27CF8, 0xC4AC5665,
      0xF4292244, 0x432AFF97, 0xAB9423A7, 0xFC93A039, 0x655B59C3, 0x8F0CCC92,
      0xFFEFF47D, 0x85845DD1, 0x6FA87E4F, 0xFE2CE6E0, 0xA3014314, 0x4E0811A1,
      0xF7537E82, 0xBD3AF235, 0x2AD7D2BB, 0xEB86D391]"

text \<open>The mixing function and the message word of step \<open>i\<close>.\<close>

definition md5_mix :: "nat \<Rightarrow> w32 \<Rightarrow> w32 \<Rightarrow> w32 \<Rightarrow> w32" where
  "md5_mix i b c d =
     (if i < 16 then (b AND c) OR (NOT b AND d)
      else if i < 32 then (d AND b) OR (NOT d AND c)
      else if i < 48 then b XOR c XOR d
      else c XOR (b OR NOT d))"

definition md5_index :: "nat \<Rightarrow> nat" where
  "md5_index i =
     (if i < 16 then i else if i < 32 then (5 * i + 1) mod 16
      else if i < 48 then (3 * i + 5) mod 16 else (7 * i) mod 16)"

fun md5_steps :: "w32 list \<Rightarrow> nat \<Rightarrow> nat list \<Rightarrow> w32 list \<Rightarrow> md5_state \<Rightarrow> md5_state" where
  "md5_steps ws i (s # ss) (k # ks) (a, b, c, d) =
     md5_steps ws (Suc i) ss ks
       (d, b + rotl32 s (a + md5_mix i b c d + k + ws ! md5_index i), b, c)"
| "md5_steps ws i _ _ st = st"

definition md5_block :: "md5_state \<Rightarrow> bytes \<Rightarrow> md5_state" where
  "md5_block st block =
     (case st of (a, b, c, d) \<Rightarrow>
        (case md5_steps (map (\<lambda>g. of_nat (be_word (rev g))) (groups 16 4 block)) 0 MD5_SHIFTS MD5_SINES (a, b, c, d) of
           (a', b', c', d') \<Rightarrow> (a + a', b + b', c + c', d + d')))"

definition md5 :: "bytes \<Rightarrow> bytes" where
  "md5 m =
     (case foldl md5_block (0x67452301, 0xEFCDAB89, 0x98BADCFE, 0x10325476)
             (blocks (pad_zeros m @ le_bytes 8 (8 * length m))) of
        (a, b, c, d) \<Rightarrow> concat (map (\<lambda>w. le_bytes 4 (unat w)) [a, b, c, d]))"

section \<open>SHA-256\<close>

definition SHA256_PRIMES :: "w32 list" where
  "SHA256_PRIMES =
     [0x428A2F98, 0x71374491, 0xB5C0FBCF, 0xE9B5DBA5, 0x3956C25B, 0x59F111F1,
      0x923F82A4, 0xAB1C5ED5, 0xD807AA98, 0x12835B01, 0x243185BE, 0x550C7DC3,
      0x72BE5D74, 0x80DEB1FE, 0x9BDC06A7, 0xC19BF174, 0xE49B69C1, 0xEFBE4786,
      0x0FC19DC6, 0x240CA1CC, 0x2DE92C6F, 0x4A7484AA, 0x5CB0A9DC, 0x76F988DA,
      0x983E5152, 0xA831C66D, 0xB00327C8, 0xBF597FC7, 0xC6E00BF3, 0xD5A79147,
      0x06CA6351, 0x14292967, 0x27B70A85, 0x2E1B2138, 0x4D2C6DFC, 0x53380D13,
      0x650A7354, 0x766A0ABB, 0x81C2C92E, 0x92722C85, 0xA2BFE8A1, 0xA81A664B,
      0xC24B8B70, 0xC76C51A3, 0xD192E819, 0xD6990624, 0xF40E3585, 0x106AA070,
      0x19A4C116, 0x1E376C08, 0x2748774C, 0x34B0BCB5, 0x391C0CB3, 0x4ED8AA4A,
      0x5B9CCA4F, 0x682E6FF3, 0x748F82EE, 0x78A5636F, 0x84C87814, 0x8CC70208,
      0x90BEFFFA, 0xA4506CEB, 0xBEF9A3F7, 0xC67178F2]"

definition SHA256_INIT :: "w32 list" where
  "SHA256_INIT =
     [0x6A09E667, 0xBB67AE85, 0x3C6EF372, 0xA54FF53A, 0x510E527F, 0x9B05688C,
      0x1F83D9AB, 0x5BE0CD19]"

text \<open>The message schedule, newest word first.\<close>

fun sha256_extend :: "nat \<Rightarrow> w32 list \<Rightarrow> w32 list" where
  "sha256_extend 0 ws = ws"
| "sha256_extend (Suc n) ws =
     (let w15 = ws ! 14; w2 = ws ! 1;
          s0 = rotr32 7 w15 XOR rotr32 18 w15 XOR drop_bit 3 w15;
          s1 = rotr32 17 w2 XOR rotr32 19 w2 XOR drop_bit 10 w2
      in sha256_extend n ((ws ! 15 + s0 + ws ! 6 + s1) # ws))"

definition sha256_schedule :: "bytes \<Rightarrow> w32 list" where
  "sha256_schedule block = rev (sha256_extend 48 (rev (map (\<lambda>g. of_nat (be_word g)) (groups 16 4 block))))"

definition sha256_step :: "w32 list \<Rightarrow> w32 \<times> w32 \<Rightarrow> w32 list" where
  "sha256_step st kw =
     (case st of
        [a, b, c, d, e, f, g, h] \<Rightarrow>
          (let s1 = rotr32 6 e XOR rotr32 11 e XOR rotr32 25 e;
               ch = (e AND f) XOR (NOT e AND g);
               t1 = h + s1 + ch + fst kw + snd kw;
               s0 = rotr32 2 a XOR rotr32 13 a XOR rotr32 22 a;
               maj = (a AND b) XOR (a AND c) XOR (b AND c)
           in [t1 + s0 + maj, a, b, c, d + t1, e, f, g])
      | _ \<Rightarrow> st)"

definition sha256_block :: "w32 list \<Rightarrow> bytes \<Rightarrow> w32 list" where
  "sha256_block st block =
     map2 (+) st (foldl sha256_step st (zip SHA256_PRIMES (sha256_schedule block)))"

definition sha256 :: "bytes \<Rightarrow> bytes" where
  "sha256 m =
     concat (map (\<lambda>w. be_bytes 4 (unat w))
       (foldl sha256_block SHA256_INIT (blocks (pad_zeros m @ be_bytes 8 (8 * length m)))))"

section \<open>Shape\<close>

lemma hexdigest_length [simp]: "length (hexdigest bs) = 2 * length bs"
  by (induction bs) (simp_all add: hexdigest_def hex_byte_def)

lemma le_bytes_length [simp]: "length (le_bytes k n) = k"
  by (induction k arbitrary: n) simp_all

lemma md5_length [simp]: "length (md5 m) = 16"
  by (simp add: md5_def split: prod.split)

definition md5_hex :: "bytes \<Rightarrow> string" where
  "md5_hex m = hexdigest (md5 m)"

lemma md5_hex_length [simp]: "length (md5_hex m) = 32"
  by (simp add: md5_hex_def)

lemma hex_digit_lower: "n < 16 \<Longrightarrow> lower_char (hex_digit n) = hex_digit n"
  by (auto simp: hex_digit_def lower_char_def)

lemma hexdigest_lower: "lower (hexdigest bs) = hexdigest bs"
proof -
  have "unat b div 16 < 16" for b :: byte
    using unsigned_less [of b] by (simp add: div_less_iff_less_mult)
  then show ?thesis
    by (induction bs) (simp_all add: hexdigest_def hex_byte_def lower_def hex_digit_lower)
qed

end
