(* ===== verification/Installer.thy ===== *)
theory Installer
  imports Firmware_Flavor Rpc_Storage Hashes
begin

text \<open>
  The firmware installer (\<^verbatim>\<open>firmware/installer.py\<close>).  It is written against protocols
  (\<^verbatim>\<open>_RPCLike\<close>, the reconnect callback, \<^verbatim>\<open>asyncio.sleep\<close>): the record \<open>rpc_like\<close> holds those
  operations, and the model of the RPC layer is one instance of it.  A reconnect replaces the
  RPC object behind the operations, so the callback returns nothing.
\<close>

section \<open>The protocols\<close>

record 's rpc_like =
  rl_get_device_info :: "('s, dict) action"
  rl_storage_mkdir :: "string \<Rightarrow> ('s, bool) action"
  rl_storage_write :: "string \<Rightarrow> bytes \<Rightarrow> ('s, bool) action"
  rl_storage_md5sum :: "string \<Rightarrow> ('s, string option) action"
  rl_storage_stat :: "string \<Rightarrow> ('s, entry option) action"
  rl_system_update :: "string \<Rightarrow> ('s, nat) action"
  rl_system_reboot_update :: "('s, unit) action"
  rl_sleep :: "nat \<Rightarrow> ('s, unit) action"

record local_bundle =
  manifest_name :: string
  bundle_target :: string
  bundle_files :: "(string \<times> bytes) list"

definition rpc_ops :: "'d platform \<Rightarrow> ('d, 'z) rworld_scheme rpc_like" where
  "rpc_ops P =
     \<lparr>rl_get_device_info = rpc_get_device_info P, rl_storage_mkdir = storage_mkdir P,
      rl_storage_write = storage_write P, rl_storage_md5sum = storage_md5sum P,
      rl_storage_stat = storage_stat P, rl_system_update = system_update P,
      rl_system_reboot_update = system_reboot_update P, rl_sleep = sleep\<rparr>"

section \<open>Verifying a written file\<close>

definition UPDATE_ROOT :: string where "UPDATE_ROOT = ''/ext/update''"
definition MD5_ATTEMPTS :: nat where "MD5_ATTEMPTS = 5"
definition MD5_SETTLE :: nat where "MD5_SETTLE = seconds 2"
definition MD5_VERIFY_MAX_BYTES :: nat where "MD5_VERIFY_MAX_BYTES = 2 * 1024 * 1024"
definition RESYNC_ATTEMPTS :: nat where "RESYNC_ATTEMPTS = 2"
definition POST_WRITE_SETTLE :: nat where "POST_WRITE_SETTLE = seconds 8"
definition UPDATE_SETTLE :: nat where "UPDATE_SETTLE = seconds 3"

datatype md5_status = Match | Mismatch | Unreadable

definition check_size :: "'s rpc_like \<Rightarrow> string \<Rightarrow> nat \<Rightarrow> ('s, md5_status) action" where
  "check_size rpc path expected_len =
     bindM (rl_storage_stat rpc path) (\<lambda>stat.
     ret (case stat of
            None \<Rightarrow> Unreadable
          | Some e \<Rightarrow> (if e_size e = expected_len then Match else Mismatch)))"

fun check_md5_loop :: "'s rpc_like \<Rightarrow> string \<Rightarrow> string \<Rightarrow> nat \<Rightarrow> ('s, md5_status) action" where
  "check_md5_loop rpc path expected 0 = ret Unreadable"
| "check_md5_loop rpc path expected (Suc k) =
     bindM (rl_storage_md5sum rpc path) (\<lambda>device_md5.
     if device_md5 = Some expected then ret Match
     else if device_md5 \<noteq> None then ret Mismatch
     else thenM (if 0 < k then rl_sleep rpc MD5_SETTLE else ret ())
          (check_md5_loop rpc path expected k))"

definition check_md5 :: "'s rpc_like \<Rightarrow> string \<Rightarrow> string \<Rightarrow> ('s, md5_status) action" where
  "check_md5 rpc path expected = check_md5_loop rpc path expected MD5_ATTEMPTS"

definition verify_written :: "'s rpc_like \<Rightarrow> string \<Rightarrow> bytes \<Rightarrow> string \<Rightarrow> ('s, md5_status) action" where
  "verify_written rpc dest data expected_md5 =
     (if MD5_VERIFY_MAX_BYTES < length data then check_size rpc dest (length data)
      else check_md5 rpc dest expected_md5)"

section \<open>Pushing a file\<close>

definition is_push_error :: "exn \<Rightarrow> bool" where
  "is_push_error e \<longleftrightarrow> is_os_or_runtime e \<or> (case e of FlipperTimeoutError _ \<Rightarrow> True | _ \<Rightarrow> False)"

definition push_failure :: "string \<Rightarrow> md5_status \<Rightarrow> bool \<Rightarrow> exn" where
  "push_failure dest status ever_written =
     (if status = Mismatch
      then FlashError (''verification failed after writing '' @ dest @ ''; the on-device data does not '' @
        ''match the bundle even after reconnecting - corrupt or truncated transfer, flash aborted'')
      else if \<not> ever_written
      then FlashError (''device rejected the write of '' @ dest @ '' on every attempt; the data never '' @
        ''transferred to the SD card - check free space and that the storage is '' @
        ''mounted and writable, then retry (this is a write failure, not a session '' @
        ''wedge, so reconnecting will not help)'')
      else FlashError (''device RPC session stopped responding after writing '' @ dest @ ''; the update was '' @
        ''not applied - reconnect to re-establish the session and retry (a transport '' @
        ''reconnect clears the wedge; power-cycle only if it persists)''))"

text \<open>One pass: write unless the data is already there, then verify what was written.\<close>

definition push_write :: "'s rpc_like \<Rightarrow> string \<Rightarrow> bytes \<Rightarrow> bool \<Rightarrow> ('s, bool) action" where
  "push_write rpc dest data written =
     (if written then ret True
      else try_except is_push_error (rl_storage_write rpc dest data) (\<lambda>_. ret False))"

definition push_verify :: "'s rpc_like \<Rightarrow> string \<Rightarrow> bytes \<Rightarrow> ('s, md5_status) action" where
  "push_verify rpc dest data =
     try_except is_push_error (verify_written rpc dest data (md5_hex data)) (\<lambda>_. ret Unreadable)"

fun push_loop ::
  "'s rpc_like \<Rightarrow> ('s, unit) action option \<Rightarrow> string \<Rightarrow> bytes \<Rightarrow> nat \<Rightarrow> bool \<Rightarrow> bool \<Rightarrow> md5_status \<Rightarrow> ('s, unit) action" where
  "push_loop rpc resync dest data k written ever_written status =
     bindM (push_write rpc dest data written) (\<lambda>written.
     bindM (if written then push_verify rpc dest data else ret status) (\<lambda>status.
     if written \<and> status = Match then ret ()
     else case (k, resync) of
            (Suc k', Some reconnect) \<Rightarrow>
              thenM reconnect
              (thenM (rl_sleep rpc POST_WRITE_SETTLE)
              (push_loop rpc resync dest data k' (written \<and> status \<noteq> Mismatch) (ever_written \<or> written) status))
          | _ \<Rightarrow> raise (push_failure dest status (ever_written \<or> written))))"

declare push_loop.simps [simp del]

definition push_file ::
  "'s rpc_like \<Rightarrow> ('s, unit) action option \<Rightarrow> string \<Rightarrow> bytes \<Rightarrow> ('s, unit) action" where
  "push_file rpc resync dest data = push_loop rpc resync dest data RESYNC_ATTEMPTS False False Unreadable"

section \<open>Triggering the update\<close>

fun is_timeout :: "exn \<Rightarrow> bool" where
  "is_timeout (FlipperTimeoutError _) = True"
| "is_timeout _ = False"

text \<open>\<^verbatim>\<open>update_code_message\<close> of a code that is not OK; its \<^verbatim>\<open>None\<close> case is OK alone.\<close>

definition rejection :: "nat \<Rightarrow> exn" where
  "rejection c = FlashError (''device rejected update: '' @
     (case update_code_message c of None \<Rightarrow> ''None'' | Some m \<Rightarrow> m))"

fun trigger_loop ::
  "'s rpc_like \<Rightarrow> ('s, unit) action option \<Rightarrow> string \<Rightarrow> nat \<Rightarrow> ('s, unit) action" where
  "trigger_loop rpc resync manifest k =
     thenM (rl_sleep rpc UPDATE_SETTLE)
     (bindM (try_except is_timeout (rl_system_update rpc manifest)
               (\<lambda>e. raise (FlashError (''device link dropped during update validation: '' @ exn_text e)))) (\<lambda>code.
      if code = UPDATE_OK then ret ()
      else case k of
             0 \<Rightarrow> raise (rejection code)
           | Suc k' \<Rightarrow>
               (if code \<noteq> UNSPECIFIED_ERROR then raise (rejection code)
                else thenM (case resync of Some reconnect \<Rightarrow> reconnect | None \<Rightarrow> ret ())
                     (trigger_loop rpc resync manifest k'))))"

declare trigger_loop.simps [simp del]

definition trigger_update :: "'s rpc_like \<Rightarrow> ('s, unit) action option \<Rightarrow> string \<Rightarrow> ('s, unit) action" where
  "trigger_update rpc resync manifest = trigger_loop rpc resync manifest RESYNC_ATTEMPTS"

section \<open>Installing a bundle\<close>

fun push_files ::
  "'s rpc_like \<Rightarrow> ('s, unit) action option \<Rightarrow> string \<Rightarrow> (string \<times> bytes) list \<Rightarrow> ('s, unit) action" where
  "push_files rpc resync pkg_dir [] = ret ()"
| "push_files rpc resync pkg_dir ((rel_path, data) # files) =
     (let dest = pkg_dir @ ''/'' @ rel_path; parent = before_last CHR ''/'' dest
      in thenM (if parent \<noteq> pkg_dir then thenM (rl_storage_mkdir rpc parent) (ret ()) else ret ())
         (thenM (push_file rpc resync dest data)
         (push_files rpc resync pkg_dir files)))"

definition install_bundle ::
  "'s rpc_like \<Rightarrow> local_bundle \<Rightarrow> string \<Rightarrow> ('s, unit) action option \<Rightarrow> ('s, unit) action" where
  "install_bundle rpc b pkg_name resync =
     bindM (rl_get_device_info rpc) (\<lambda>device_info.
     let raw_target = strip (or_empty (map_of device_info ''hardware_target''));
         device_target = CHR ''f'' # raw_target;
         pkg_dir = UPDATE_ROOT @ ''/'' @ pkg_name
     in if raw_target = []
        then raise (FlashError ''device did not report hardware_target; cannot verify bundle compatibility'')
        else if device_target \<noteq> bundle_target b
        then raise (FlashError (''bundle target '' @ bundle_target b @ '' does not match device target '' @ device_target))
        else thenM (rl_storage_mkdir rpc UPDATE_ROOT)
             (thenM (rl_storage_mkdir rpc pkg_dir)
             (thenM (push_files rpc resync pkg_dir (bundle_files b))
             (thenM (trigger_update rpc resync (pkg_dir @ ''/'' @ manifest_name b))
             (rl_system_reboot_update rpc)))))"

end
