(* ===== verification/Bundles.thy ===== *)
theory Bundles
  imports Installer Py_Json
begin

text \<open>
  Resolving an update bundle (\<^verbatim>\<open>firmware/bundles.py\<close>): a local archive, the official directory, or
  a Momentum release.  The archive reader, the HTTP client and the JSON parser are parameters.
\<close>

section \<open>The host\<close>

text \<open>A member of an archive: its name, whether it is a regular file, and what reading it gives
  (\<^verbatim>\<open>extractfile\<close> may return \<^verbatim>\<open>None\<close>).\<close>

record tar_member =
  tm_name :: string
  tm_isfile :: bool
  tm_data :: "exn + bytes option"

record 'd host =
  read_bytes :: "string \<Rightarrow> ('d, bytes) platform_op"
  write_bytes :: "string \<Rightarrow> bytes \<Rightarrow> ('d, unit) platform_op"
  tar_open :: "string \<Rightarrow> ('d, tar_member list) platform_op"
  tar_of_bytes :: "bytes \<Rightarrow> exn + tar_member list"
  http_get :: "json \<Rightarrow> ('d, bytes) platform_op"
  json_loads :: "bytes \<Rightarrow> exn + json"

section \<open>Archives\<close>

definition MANIFEST :: string where "MANIFEST = ''update.fuf''"

text \<open>\<^verbatim>\<open>\w\<close> on the modelled range.\<close>

definition word_char :: "char \<Rightarrow> bool" where
  "word_char c \<longleftrightarrow>
     (48 \<le> code c \<and> code c \<le> 57) \<or> (65 \<le> code c \<and> code c \<le> 90) \<or> code c = 95 \<or> (97 \<le> code c \<and> code c \<le> 122) \<or>
     code c \<in> {170, 178, 179, 181, 185, 186, 188, 189, 190} \<or>
     (192 \<le> code c \<and> code c \<noteq> 215 \<and> code c \<noteq> 247)"

text \<open>The pattern \<^verbatim>\<open>flipper-z-(f\w+)-update\<close> at the front of the text, without regard to case.  The
  hyphen is no word character, so only the longest run of word characters can match.\<close>

definition match_target :: "string \<Rightarrow> string option" where
  "match_target s =
     (let rest = drop 11 s; run = takeWhile word_char rest; after = drop (length run) rest
      in if startswith (lower s) ''flipper-z-f'' \<and> run \<noteq> [] \<and> startswith (lower after) ''-update''
         then Some (take 1 (drop 10 s) @ run) else None)"

fun search_target :: "string \<Rightarrow> string option" where
  "search_target [] = match_target []"
| "search_target (c # s) =
     (case match_target (c # s) of Some t \<Rightarrow> Some t | None \<Rightarrow> search_target s)"

definition target_from_name :: "string \<Rightarrow> exn + string" where
  "target_from_name name =
     (case search_target name of
        None \<Rightarrow> Inl (BundleError (''cannot determine hardware target from bundle name '' @ py_repr name))
      | Some t \<Rightarrow> Inr (lower t))"

definition unsafe_path :: "string \<Rightarrow> bool" where
  "unsafe_path rel \<longleftrightarrow> startswith rel ''/'' \<or> ''..'' \<in> set (split_on CHR ''/'' rel)"

fun member_files :: "string \<Rightarrow> tar_member list \<Rightarrow> exn + (string \<times> bytes) list" where
  "member_files prefix [] = Inr []"
| "member_files prefix (m # ms) =
     (let rel = removeprefix (tm_name m) prefix
      in if unsafe_path rel then Inl (BundleError (''unsafe path in bundle: '' @ py_repr (tm_name m)))
         else bindR (tm_data m) (\<lambda>extracted.
              bindR (member_files prefix ms) (\<lambda>files.
              Inr (case extracted of None \<Rightarrow> files | Some data \<Rightarrow> (rel, data) # files))))"

definition members_from_tar :: "tar_member list \<Rightarrow> exn + (string \<times> bytes) list" where
  "members_from_tar tar =
     (let members = filter tm_isfile tar
      in if members = [] then Inl (BundleError ''bundle archive is empty'')
         else member_files (before_first CHR ''/'' (tm_name (hd members)) @ ''/'') members)"

definition build_bundle :: "(string \<times> bytes) list \<Rightarrow> string \<Rightarrow> exn + local_bundle" where
  "build_bundle files target =
     (if \<not> list_ex (\<lambda>(rel, _). rel = MANIFEST) files
      then Inl (BundleError (''bundle has no '' @ MANIFEST @ '' manifest''))
      else Inr \<lparr>manifest_name = MANIFEST, bundle_target = target, bundle_files = files\<rparr>)"

definition load_local_bundle :: "'d host \<Rightarrow> string \<Rightarrow> (('d, 'z) world_scheme, local_bundle) action" where
  "load_local_bundle H tgz_path =
     bindM (lift_result (target_from_name tgz_path)) (\<lambda>target.
     bindM (block_io (tar_open H tgz_path)) (\<lambda>tar.
     lift_result (bindR (members_from_tar tar) (\<lambda>files. build_bundle files target))))"

section \<open>Downloads\<close>

definition OFFICIAL_DIRECTORY :: string where
  "OFFICIAL_DIRECTORY = ''https://update.flipperzero.one/firmware/directory.json''"

definition MOMENTUM_RELEASES :: string where
  "MOMENTUM_RELEASES = ''https://api.github.com/repos/Next-Flip/Momentum-Firmware/releases''"

fun is_key_or_type_error :: "exn \<Rightarrow> bool" where
  "is_key_or_type_error (KeyError _) = True"
| "is_key_or_type_error TypeError = True"
| "is_key_or_type_error _ = False"

text \<open>\<^verbatim>\<open>{c["id"]: c for c in ...}\<close>: a later entry replaces an earlier one with the same key.\<close>

fun channel_dict :: "json list \<Rightarrow> exn + (json \<times> json) list" where
  "channel_dict [] = Inr []"
| "channel_dict (c # cs) =
     bindR (jkey c ''id'') (\<lambda>i.
     if \<not> hashable i then Inl TypeError
     else bindR (channel_dict cs) (\<lambda>m.
          Inr (if i \<in> fst ` set m then m else (i, c) # m)))"

fun entry_loop :: "string \<Rightarrow> json list \<Rightarrow> exn + json option" where
  "entry_loop target [] = Inr None"
| "entry_loop target (entry # entries) =
     bindR (jget entry ''target'' JNull) (\<lambda>t.
     bindR (if t = JStr target then jget entry ''type'' JNull else Inr JNull) (\<lambda>ty.
     if t = JStr target \<and> ty = JStr ''update_tgz'' then Inr (Some entry) else entry_loop target entries))"

definition select_official_file :: "json \<Rightarrow> string \<Rightarrow> string \<Rightarrow> string \<Rightarrow> exn + json" where
  "select_official_file directory channel version target =
     bindR (catchR is_key_or_type_error
              (bindR (jget directory ''channels'' (JList [])) (\<lambda>cs. bindR (jiter cs) channel_dict))
              (\<lambda>e. BundleError (''malformed official directory (channel entry): '' @ exn_text e))) (\<lambda>channels.
     case map_of channels (JStr channel) of
       None \<Rightarrow> Inl (BundleError (''unknown official channel '' @ py_repr channel))
     | Some c \<Rightarrow>
         bindR (jget c ''versions'' (JList [])) (\<lambda>versions.
         if \<not> jtrue versions then Inl (BundleError (''no versions in official channel '' @ py_repr channel))
         else bindR (if version = ''latest'' then jfirst versions
                     else bindR (jiter versions) (jfind ''version'' version)) (\<lambda>picked.
              if picked = JNull
              then Inl (BundleError (''official version '' @ py_repr version @ '' not found in '' @ py_repr channel))
              else bindR (bindR (jget picked ''files'' (JList [])) jiter) (\<lambda>entries.
                   bindR (entry_loop target entries) (\<lambda>found.
                   case found of
                     Some entry \<Rightarrow> Inr entry
                   | None \<Rightarrow> Inl (BundleError (''no install bundle for target '' @ target @ '' in official '' @
                       channel @ ''/'' @ version)))))))"

fun is_http_error :: "exn \<Rightarrow> bool" where
  "is_http_error (HTTPError _) = True"
| "is_http_error _ = False"

definition fetch :: "'d host \<Rightarrow> json \<Rightarrow> (('d, 'z) world_scheme, bytes) action" where
  "fetch H url =
     try_except is_http_error (await_io (http_get H url))
       (\<lambda>e. raise (BundleError (''failed to fetch '' @ jstr url @ '': '' @ exn_text e)))"

fun is_json_error :: "exn \<Rightarrow> bool" where
  "is_json_error (JSONDecodeError _) = True"
| "is_json_error _ = False"

definition load_json :: "'d host \<Rightarrow> bytes \<Rightarrow> string \<Rightarrow> exn + json" where
  "load_json H raw url =
     catchR is_json_error (json_loads H raw)
       (\<lambda>e. BundleError (''malformed JSON from '' @ url @ '': '' @ exn_text e))"

definition sha256_hex :: "bytes \<Rightarrow> string" where
  "sha256_hex data = hexdigest (sha256 data)"

definition verify_sha256 :: "bytes \<Rightarrow> string \<Rightarrow> exn + unit" where
  "verify_sha256 data expected =
     (let actual = sha256_hex data
      in if lower actual \<noteq> lower expected
         then Inl (BundleError (''sha256 mismatch: expected '' @ expected @ '', got '' @ actual))
         else Inr ())"

definition bundle_from_tgz_bytes :: "'d host \<Rightarrow> bytes \<Rightarrow> string \<Rightarrow> exn + local_bundle" where
  "bundle_from_tgz_bytes H data target =
     bindR (tar_of_bytes H data) (\<lambda>tar.
     bindR (members_from_tar tar) (\<lambda>files. build_bundle files target))"

definition official_fields :: "json \<Rightarrow> exn + string \<times> string" where
  "official_fields entry =
     catchR is_key_or_type_error
       (bindR (jkey entry ''url'') (\<lambda>u. bindR (jkey entry ''sha256'') (\<lambda>s. Inr (jstr u, jstr s))))
       (\<lambda>e. BundleError (''malformed official bundle entry: missing '' @ exn_text e))"

definition download_official ::
  "'d host \<Rightarrow> string \<Rightarrow> string \<Rightarrow> string \<Rightarrow> (('d, 'z) world_scheme, local_bundle) action" where
  "download_official H channel version target =
     bindM (fetch H (JStr OFFICIAL_DIRECTORY)) (\<lambda>raw.
     bindM (lift_result (load_json H raw OFFICIAL_DIRECTORY)) (\<lambda>directory.
     bindM (lift_result (select_official_file directory channel version target)) (\<lambda>entry.
     bindM (lift_result (official_fields entry)) (\<lambda>(url, expected).
     bindM (fetch H (JStr url)) (\<lambda>data.
     thenM (lift_result (verify_sha256 data expected))
     (lift_result (bundle_from_tgz_bytes H data target)))))))"

definition select_release :: "json \<Rightarrow> string \<Rightarrow> exn + json" where
  "select_release releases version =
     (if \<not> jtrue releases then Inl (BundleError ''no Momentum releases found'')
      else bindR (if version = ''latest'' then jfirst releases
                  else bindR (jiter releases) (jfind ''tag_name'' version)) (\<lambda>release.
           if release = JNull then Inl (BundleError (''Momentum release '' @ py_repr version @ '' not found''))
           else Inr release))"

definition select_asset :: "json \<Rightarrow> string \<Rightarrow> exn + json \<times> json" where
  "select_asset release target =
     catchR is_key_or_type_error
       (bindR (jkey release ''tag_name'') (\<lambda>tag.
        bindR (bindR (jget release ''assets'' (JList [])) jiter) (\<lambda>assets.
        bindR (jfind ''name'' (''flipper-z-'' @ target @ ''-update-'' @ jstr tag @ ''.tgz'') assets) (\<lambda>asset.
        if asset = JNull
        then Inl (BundleError (''no '' @ target @ '' firmware bundle in Momentum release '' @ jstr tag))
        else bindR (jkey asset ''browser_download_url'') (\<lambda>url. Inr (asset, url))))))
       (\<lambda>e. BundleError (''malformed Momentum release metadata: missing '' @ exn_text e))"

text \<open>\<^verbatim>\<open>digest.startswith\<close> exists on strings only.\<close>

definition asset_digest :: "json \<Rightarrow> exn + string" where
  "asset_digest asset =
     bindR (jget asset ''digest'' (JStr [])) (\<lambda>d.
     case d of
       JStr digest \<Rightarrow>
         (if \<not> startswith digest ''sha256:''
          then Inl (BundleError ''Momentum asset is missing a sha256 digest'')
          else Inr (after_first CHR '':'' digest))
     | _ \<Rightarrow> Inl AttributeError)"

definition download_momentum ::
  "'d host \<Rightarrow> string \<Rightarrow> string \<Rightarrow> (('d, 'z) world_scheme, local_bundle) action" where
  "download_momentum H version target =
     bindM (fetch H (JStr MOMENTUM_RELEASES)) (\<lambda>raw.
     bindM (lift_result (load_json H raw MOMENTUM_RELEASES)) (\<lambda>releases.
     bindM (lift_result (select_release releases version)) (\<lambda>release.
     bindM (lift_result (select_asset release target)) (\<lambda>(asset, url).
     bindM (fetch H url) (\<lambda>data.
     bindM (lift_result (asset_digest asset)) (\<lambda>expected.
     thenM (lift_result (verify_sha256 data expected))
     (lift_result (bundle_from_tgz_bytes H data target))))))))"

definition download_bundle ::
  "'d host \<Rightarrow> firmware_flavor \<Rightarrow> string \<Rightarrow> string \<Rightarrow> string \<Rightarrow> (('d, 'z) world_scheme, local_bundle) action" where
  "download_bundle H flavor channel version target =
     (case flavor of
        OFFICIAL \<Rightarrow> download_official H channel version target
      | MOMENTUM \<Rightarrow> download_momentum H version target
      | _ \<Rightarrow> raise (BundleError (''auto-download unsupported for '' @ flavor_value flavor @
                ''; supply a local .tgz path'')))"

end
