(* ===== verification/Tools.thy ===== *)
theory Tools
  imports Tools_Common Bundles
begin

text \<open>
  The tools over the RPC layer, one definition per tool: \<^verbatim>\<open>tools/storage.py\<close>, \<^verbatim>\<open>tools/device.py\<close>,
  \<^verbatim>\<open>tools/systeminfo.py\<close>, \<^verbatim>\<open>tools/diagnostics.py\<close>, \<^verbatim>\<open>tools/apps.py\<close>, \<^verbatim>\<open>tools/connection.py\<close> and
  \<^verbatim>\<open>tools/cli.py\<close>.  A tool returns the dictionary the code returns.
\<close>

section \<open>Storage\<close>

definition entry_json :: "entry \<Rightarrow> json" where
  "entry_json e =
     JObj ([(''name'', JStr (e_name e)), (''type'', JStr (e_type e)), (''size'', JNat (e_size e))] @
           (case e_md5sum e of None \<Rightarrow> [] | Some m \<Rightarrow> [(''md5sum'', JStr m)]))"

definition verify_md5 :: "string \<Rightarrow> string option \<Rightarrow> string \<Rightarrow> ('s, unit) action" where
  "verify_md5 local_md5 device_md5 path =
     (case device_md5 of
        None \<Rightarrow> raise (ToolError (''integrity check failed for '' @ path @ '': device did not return an MD5 digest''))
      | Some d \<Rightarrow>
          (if lower d \<noteq> lower local_md5
           then raise (ToolError (''integrity mismatch for '' @ path @ '': local MD5 '' @ local_md5 @ '' != device MD5 '' @ d))
           else ret ()))"

definition fs_info :: "'d platform \<Rightarrow> string \<Rightarrow> (('d, 'z) cworld_scheme, json) action" where
  "fs_info P path =
     bindM (rpc_tool P (storage_info P path)) (\<lambda>info.
     bindM (answer (''storage info unavailable for '' @ path) info) (\<lambda>(space, free).
     ret (JObj [(''path'', JStr path), (''total_space'', JNat space), (''free_space'', JNat free)])))"

definition fs_stat :: "'d platform \<Rightarrow> string \<Rightarrow> (('d, 'z) cworld_scheme, json) action" where
  "fs_stat P path =
     bindM (rpc_tool P (storage_stat P path)) (\<lambda>e.
     bindM (answer (''stat unavailable for '' @ path) e) (\<lambda>e.
     ret (JObj [(''path'', JStr path), (''entry'', entry_json e)])))"

definition fs_timestamp :: "'d platform \<Rightarrow> string \<Rightarrow> (('d, 'z) cworld_scheme, json) action" where
  "fs_timestamp P path =
     bindM (rpc_tool P (storage_timestamp P path)) (\<lambda>t.
     bindM (answer (''timestamp unavailable for '' @ path) t) (\<lambda>t.
     ret (JObj [(''path'', JStr path), (''timestamp'', JNat t)])))"

definition fs_list :: "'d platform \<Rightarrow> string \<Rightarrow> (('d, 'z) cworld_scheme, json) action" where
  "fs_list P path =
     bindM (rpc_tool P (storage_list_detailed P path False 0)) (\<lambda>entries.
     ret (JObj [(''path'', JStr path), (''entries'', JList (map entry_json entries))]))"

definition fs_mkdir :: "'d platform \<Rightarrow> flipper_config \<Rightarrow> string \<Rightarrow> (('d, 'z) cworld_scheme, json) action" where
  "fs_mkdir P cfg path =
     thenM (require_write_tools cfg)
     (bindM (rpc_tool P (storage_mkdir P path)) (\<lambda>created.
      thenM (insist (''failed to create directory '' @ path @ '' on the device'') created)
      (ret (JObj [(''path'', JStr path), (''created'', JBool True)]))))"

definition fs_delete :: "'d platform \<Rightarrow> flipper_config \<Rightarrow> string \<Rightarrow> bool \<Rightarrow> (('d, 'z) cworld_scheme, json) action" where
  "fs_delete P cfg path recursive =
     thenM (require_write_tools cfg)
     (bindM (rpc_tool P (storage_delete P path recursive)) (\<lambda>deleted.
      thenM (insist (''failed to delete '' @ path @ '' on the device'') deleted)
      (ret (JObj [(''path'', JStr path), (''recursive'', JBool recursive), (''deleted'', JBool True)]))))"

definition fs_rename :: "'d platform \<Rightarrow> flipper_config \<Rightarrow> string \<Rightarrow> string \<Rightarrow> (('d, 'z) cworld_scheme, json) action" where
  "fs_rename P cfg old_path new_path =
     thenM (require_write_tools cfg)
     (bindM (rpc_tool P (storage_rename P old_path new_path)) (\<lambda>renamed.
      thenM (insist (''failed to rename '' @ old_path @ '' to '' @ new_path @ '' on the device'') renamed)
      (ret (JObj [(''old_path'', JStr old_path), (''new_path'', JStr new_path), (''renamed'', JBool True)]))))"

text \<open>The transfer of a push keeps its own \<^verbatim>\<open>ToolError\<close> as it is.\<close>

definition push_transfer :: "'d platform \<Rightarrow> string \<Rightarrow> bytes \<Rightarrow> (('d, 'z) cworld_scheme, string option) action" where
  "push_transfer P dest_path data =
     try_except (\<lambda>e. is_exception e \<and> \<not> is_tool_error e)
       (thenM (get_rpc P)
       (bindM (storage_write P dest_path data) (\<lambda>wrote.
        thenM (insist (''failed to write '' @ dest_path @ '' to the device'') wrote)
        (storage_md5sum P dest_path))))
       (\<lambda>e. raise (classify_client_error e))"

definition fs_push ::
  "'d platform \<Rightarrow> 'd host \<Rightarrow> flipper_config \<Rightarrow> string \<Rightarrow> string \<Rightarrow> (('d, 'z) cworld_scheme, json) action" where
  "fs_push P H cfg local_path dest_path =
     thenM (require_write_tools cfg)
     (bindM (try_except is_os_error (block_io (read_bytes H local_path))
               (\<lambda>e. raise (ToolError (''cannot read local file '' @ local_path @ '': '' @ exn_text e)))) (\<lambda>data.
      bindM (push_transfer P dest_path data) (\<lambda>device_md5.
      let local_md5 = md5_hex data
      in thenM (verify_md5 local_md5 device_md5 dest_path)
         (ret (JObj [(''dest_path'', JStr dest_path), (''bytes'', JNat (length data)), (''md5'', JStr local_md5),
                     (''verified'', JBool True)])))))"

definition fs_pull ::
  "'d platform \<Rightarrow> 'd host \<Rightarrow> string \<Rightarrow> string \<Rightarrow> (('d, 'z) cworld_scheme, json) action" where
  "fs_pull P H src_path local_path =
     bindM (rpc_tool P (bindM (storage_read P src_path) (\<lambda>data.
                        bindM (storage_md5sum P src_path) (\<lambda>device_md5. ret (data, device_md5))))) (\<lambda>(data, device_md5).
     bindM (try_except is_os_error
              (thenM (block_io (write_bytes H local_path data)) (block_io (read_bytes H local_path)))
              (\<lambda>e. raise (ToolError (''cannot write local file '' @ local_path @ '': '' @ exn_text e)))) (\<lambda>written.
     let local_md5 = md5_hex written
     in thenM (verify_md5 local_md5 device_md5 src_path)
        (ret (JObj [(''local_path'', JStr local_path), (''bytes'', JNat (length written)), (''md5'', JStr local_md5),
                    (''verified'', JBool True)]))))"

section \<open>Device state\<close>

definition GPIO_PIN_MAX :: int where "GPIO_PIN_MAX = 7"

definition tool_app_lock_status :: "'d platform \<Rightarrow> (('d, 'z) cworld_scheme, json) action" where
  "tool_app_lock_status P =
     bindM (rpc_tool P (app_lock_status P)) (\<lambda>locked.
     bindM (answer ''app lock status unavailable'' locked) (\<lambda>b. ret (JObj [(''locked'', JBool b)])))"

definition tool_app_get_error :: "'d platform \<Rightarrow> (('d, 'z) cworld_scheme, json) action" where
  "tool_app_get_error P =
     bindM (rpc_tool P (app_get_error P)) (\<lambda>err.
     bindM (answer ''app error status unavailable'' err) (\<lambda>x.
     ret (JObj [(''code'', JNat (ae_code x)), (''text'', JStr (ae_text x))])))"

definition tool_desktop_is_locked :: "'d platform \<Rightarrow> (('d, 'z) cworld_scheme, json) action" where
  "tool_desktop_is_locked P =
     bindM (rpc_tool P (desktop_is_locked P)) (\<lambda>locked.
     bindM (answer ''desktop lock state unavailable'' locked) (\<lambda>b. ret (JObj [(''locked'', JBool b)])))"

definition tool_gpio_read :: "'d platform \<Rightarrow> int \<Rightarrow> (('d, 'z) cworld_scheme, json) action" where
  "tool_gpio_read P pin =
     (if \<not> (0 \<le> pin \<and> pin \<le> GPIO_PIN_MAX)
      then raise (ToolError (''pin must be in range 0-'' @ int_str GPIO_PIN_MAX @ '', got '' @ int_str pin))
      else bindM (rpc_tool P (gpio_read P pin)) (\<lambda>state.
           bindM (answer (''gpio pin '' @ int_str pin @ '' read unavailable'') state) (\<lambda>g.
           ret (JObj [(''pin'', JInt (g_pin g)), (''mode'', JStr (g_mode g)), (''value'', jopt JNat (g_value g))]))))"

section \<open>System\<close>

definition dict_json :: "dict \<Rightarrow> json" where
  "dict_json d = JObj (map (\<lambda>(k, v). (k, JStr v)) d)"

text \<open>\<^verbatim>\<open>firmware.version or (device["firmware"] if device.get("firmware") not in (None, "Unknown") else None)\<close>.\<close>

definition shown_version :: "firmware_info \<Rightarrow> dict \<Rightarrow> string option" where
  "shown_version fw device =
     (if truthy (fw_version fw) then fw_version fw
      else case map_of device ''firmware'' of
             None \<Rightarrow> None
           | Some v \<Rightarrow> (if v = ''Unknown'' then None else Some v))"

definition system_info :: "'d platform \<Rightarrow> (('d, 'z) cworld_scheme, json) action" where
  "system_info P =
     bindM (reporting
        (thenM (ensure_connected P)
        (bindM (get_connection_health P True) (\<lambda>health.
         bindM (get_device_info P) (\<lambda>device.
         bindM (check_sd_card_available P) (\<lambda>sd. ret (health, device, sd)))))))
     (\<lambda>(health, device, sd).
      let firmware = classify_firmware device
      in ret (JObj
          [(''connected'', JBool (h_connected health)),
           (''transport'', JStr (h_transport_type health)),
           (''rpc_responsive'', jopt JBool (h_rpc_responsive health)),
           (''device'', dict_json device),
           (''firmware'', JObj
              [(''flavor'', JStr (flavor_value (fw_flavor firmware))),
               (''version'', jopt JStr (shown_version firmware device)),
               (''origin_fork'', jopt JStr (fw_origin_fork firmware)),
               (''origin_git'', jopt JStr (fw_origin_git firmware)),
               (''target'', jopt JStr (fw_target firmware))]),
           (''sd_card_available'', JBool sd)]))"

definition tool_power_info :: "'d platform \<Rightarrow> (('d, 'z) cworld_scheme, json) action" where
  "tool_power_info P =
     bindM (rpc_tool P (system_power_info P)) (\<lambda>power.
     bindM (answer ''power info unavailable'' power) (\<lambda>p. ret (JObj [(''power'', dict_json p)])))"

definition tool_protobuf_version :: "'d platform \<Rightarrow> (('d, 'z) cworld_scheme, json) action" where
  "tool_protobuf_version P =
     bindM (rpc_tool P (system_protobuf_version P)) (\<lambda>version.
     bindM (answer ''protobuf version unavailable'' version) (\<lambda>(major, minor).
     ret (JObj [(''protobuf_version'', JObj [(''major'', JNat major), (''minor'', JNat minor)])])))"

definition tool_datetime :: "'d platform \<Rightarrow> (('d, 'z) cworld_scheme, json) action" where
  "tool_datetime P =
     bindM (rpc_tool P (system_datetime P)) (\<lambda>dt.
     bindM (answer ''device datetime unavailable'' dt) (\<lambda>t.
     ret (JObj [(''datetime'', JObj
       [(''year'', JNat (dt_year t)), (''month'', JNat (dt_month t)), (''day'', JNat (dt_day t)),
        (''hour'', JNat (dt_hour t)), (''minute'', JNat (dt_minute t)), (''second'', JNat (dt_second t)),
        (''weekday'', JNat (dt_weekday t))])])))"

section \<open>Diagnostics and applications\<close>

definition tool_ping :: "'d platform \<Rightarrow> (('d, 'z) cworld_scheme, json) action" where
  "tool_ping P =
     bindM (rpc_tool P (ping P (encode ''ping''))) (\<lambda>echo.
     bindM (answer ''ping failed: no response from device'' echo) (\<lambda>b.
     ret (JObj [(''responded'', JBool True), (''echo'', JStr (utf8_decode P b))])))"

definition tool_property_get :: "'d platform \<Rightarrow> string \<Rightarrow> (('d, 'z) cworld_scheme, json) action" where
  "tool_property_get P key =
     bindM (rpc_tool P (get_property P key)) (\<lambda>v.
     bindM (answer (''property '' @ py_repr key @ '' unavailable'') v) (\<lambda>x.
     ret (JObj [(''key'', JStr key), (''value'', JStr x)])))"

definition tool_app_start ::
  "'d platform \<Rightarrow> flipper_config \<Rightarrow> string \<Rightarrow> string \<Rightarrow> (('d, 'z) cworld_scheme, json) action" where
  "tool_app_start P cfg name args =
     thenM (require_write_tools cfg)
     (bindM (rpc_tool P (app_start P name args)) (\<lambda>started.
      thenM (insist (''failed to start app '' @ py_repr name) started)
      (ret (JObj [(''name'', JStr name), (''args'', JStr args), (''started'', JBool True)]))))"

section \<open>Connection\<close>

definition health_fields :: "connection_health \<Rightarrow> (string \<times> json) list" where
  "health_fields h =
     [(''timestamp'', JStr (h_timestamp h)), (''connected'', JBool (h_connected h)),
      (''transport_connected'', JBool (h_transport_connected h)),
      (''rpc_responsive'', jopt JBool (h_rpc_responsive h)),
      (''transport'', JObj [(''type'', JStr (h_transport_type h))]),
      (''last_error'', jopt JStr (h_last_error h))]"

definition connection_health_tool :: "'d platform \<Rightarrow> bool \<Rightarrow> (('d, 'z) cworld_scheme, json) action" where
  "connection_health_tool P probe =
     bindM (get_connection_health P probe) (\<lambda>h. ret (JObj (health_fields h)))"

definition connection_reconnect :: "'d platform \<Rightarrow> bool \<Rightarrow> (('d, 'z) cworld_scheme, json) action" where
  "connection_reconnect P probe =
     thenM (disconnect P)
     (bindM (connect P) (\<lambda>ok.
      bindM (get_connection_health P probe) (\<lambda>h.
      ret (JObj (health_fields h @ [(''reconnect_ok'', JBool ok)])))))"

section \<open>The CLI tool\<close>

definition tool_cli_exec ::
  "'d platform \<Rightarrow> flipper_config \<Rightarrow> string \<Rightarrow> nat \<Rightarrow> bool \<Rightarrow> (('d, 'z) cworld_scheme, cli_exec_result) action" where
  "tool_cli_exec P cfg command timeout i_accept_responsibility =
     reporting (thenM (ensure_connected P)
       (cli_exec P command timeout i_accept_responsibility (cfg_enable_tx_tools cfg)))"

end
