(* ===== verification/Firmware_Tool.thy ===== *)
theory Firmware_Tool
  imports Tools
begin

text \<open>
  The firmware tool (\<^verbatim>\<open>tools/firmware.py\<close>): the interlocks, the choice of the bundle, the
  installation and the wait for the device to come back.
\<close>

definition PKG_NAME :: string where "PKG_NAME = ''mcp-update''"

text \<open>The budget of 600 s is spent in steps of 5 s.\<close>

definition RECONNECT_POLLS :: nat where "RECONNECT_POLLS = 600 div 5"

section \<open>The bundle\<close>

text \<open>\<^verbatim>\<open>source\<close> has string values, as the tool documents.\<close>

definition resolve :: "'d host \<Rightarrow> dict \<Rightarrow> string \<Rightarrow> (('d, 'z) world_scheme, local_bundle) action" where
  "resolve H source target =
     (case map_of source ''path'' of
        Some path \<Rightarrow> load_local_bundle H path
      | None \<Rightarrow>
          (case map_of source ''flavor'' of
             None \<Rightarrow> raise (BundleError (''source must specify either 'path' or 'flavor'' @ [CHR 0x27]))
           | Some text \<Rightarrow>
               (case flavor_of_value text of
                  None \<Rightarrow> raise (BundleError (''unknown flavor '' @ py_repr text @ ''; expected one of: '' @
                            join '', '' (map flavor_value FLAVORS)))
                | Some flavor \<Rightarrow>
                    download_bundle H flavor
                      (case map_of source ''channel'' of None \<Rightarrow> ''release'' | Some c \<Rightarrow> c)
                      (case map_of source ''version'' of None \<Rightarrow> ''latest'' | Some v \<Rightarrow> v)
                      target)))"

section \<open>Reconnecting\<close>

definition is_settling_error :: "exn \<Rightarrow> bool" where
  "is_settling_error e \<longleftrightarrow> is_os_or_runtime e \<or> is_value_error e"

definition read_firmware :: "'d platform \<Rightarrow> (('d, 'z) cworld_scheme, firmware_info option) action" where
  "read_firmware P =
     try_except is_settling_error
       (bindM (get_device_info P) (\<lambda>device. ret (Some (classify_firmware device))))
       (\<lambda>_. ret None)"

fun reconnect_loop ::
  "'d platform \<Rightarrow> firmware_info \<Rightarrow> nat \<Rightarrow> firmware_info option \<Rightarrow>
   (('d, 'z) cworld_scheme, firmware_info \<times> bool) action" where
  "reconnect_loop P before 0 last_seen =
     (case last_seen of
        Some l \<Rightarrow> ret (l, False)
      | None \<Rightarrow> raise (ToolError (''device did not reconnect after the update; it may still be applying or '' @
          ''may have dropped to DFU - recover with qFlipper if it does not return'')))"
| "reconnect_loop P before (Suc k) last_seen =
     thenM (sleep (seconds 5))
     (thenM (disconnect P)
     (bindM (connect P) (\<lambda>ok.
      if \<not> ok then reconnect_loop P before k last_seen
      else bindM (read_firmware P) (\<lambda>seen.
           case seen of
             None \<Rightarrow> reconnect_loop P before k last_seen
           | Some l \<Rightarrow>
               (if fw_version before \<noteq> None \<and>
                   (fw_version l, fw_flavor l) \<noteq> (fw_version before, fw_flavor before)
                then ret (l, True)
                else reconnect_loop P before k (Some l))))))"

definition reconnect_and_classify ::
  "'d platform \<Rightarrow> firmware_info \<Rightarrow> (('d, 'z) cworld_scheme, firmware_info \<times> bool) action" where
  "reconnect_and_classify P before = reconnect_loop P before RECONNECT_POLLS None"

definition resync_session :: "'d platform \<Rightarrow> (('d, 'z) cworld_scheme, unit) action" where
  "resync_session P =
     thenM (disconnect P)
     (bindM (connect P) (\<lambda>ok.
      bindM (get c_rpc) (\<lambda>rpc.
      if \<not> ok \<or> \<not> rpc
      then raise (FlashError ''could not re-establish the device session after a session wedge'')
      else ret ())))"

section \<open>The tool\<close>

fun is_bundle_or_flash_error :: "exn \<Rightarrow> bool" where
  "is_bundle_or_flash_error (BundleError _) = True"
| "is_bundle_or_flash_error (FlashError _) = True"
| "is_bundle_or_flash_error _ = False"

definition identify_device :: "'d platform \<Rightarrow> (('d, 'z) cworld_scheme, dict) action" where
  "identify_device P =
     reporting (thenM (ensure_connected P) (thenM (get_rpc P) (rpc_get_device_info P)))"

text \<open>The interlocks between the identification and the first change of the device.\<close>

definition interlock :: "string \<Rightarrow> dict \<Rightarrow> ('s, string) action" where
  "interlock confirm device =
     (if \<not> truthy (map_of device ''hardware_name'')
      then raise (ToolError ''could not read device identity (hardware_name); aborting flash'')
      else let device_name = or_empty (map_of device ''hardware_name''); before = classify_firmware device
           in if confirm \<noteq> device_name
              then raise (ToolError (''confirm token '' @ py_repr confirm @ '' does not match connected device '' @
                     py_repr device_name))
              else if \<not> truthy (fw_target before)
              then raise (ToolError ''device did not report a hardware target; cannot select a bundle'')
              else ret (or_empty (fw_target before)))"

definition flash :: "'d platform \<Rightarrow> 'd host \<Rightarrow> dict \<Rightarrow> string \<Rightarrow> (('d, 'z) cworld_scheme, local_bundle) action" where
  "flash P H source target =
     try_except is_bundle_or_flash_error
       (bindM (resolve H source target) (\<lambda>b.
        thenM (install_bundle (rpc_ops P) b PKG_NAME (Some (resync_session P))) (ret b)))
       (\<lambda>e. raise (ToolError (exn_text e)))"

definition firmware_block :: "firmware_info \<Rightarrow> json" where
  "firmware_block fw = JObj [(''flavor'', JStr (flavor_value (fw_flavor fw))), (''version'', jopt JStr (fw_version fw))]"

definition firmware_install ::
  "'d platform \<Rightarrow> 'd host \<Rightarrow> flipper_config \<Rightarrow> dict \<Rightarrow> string \<Rightarrow> (('d, 'z) cworld_scheme, json) action" where
  "firmware_install P H cfg source confirm =
     thenM (require_firmware_flash cfg)
     (bindM (identify_device P) (\<lambda>device.
      bindM (interlock confirm device) (\<lambda>target.
      bindM (flash P H source target) (\<lambda>b.
      bindM (reconnect_and_classify P (classify_firmware device)) (\<lambda>(after, after_confirmed).
      ret (JObj [(''before'', firmware_block (classify_firmware device)), (''after'', firmware_block after),
                 (''after_confirmed'', JBool after_confirmed), (''target'', JStr (bundle_target b))]))))))"

end
