(* ===== verification/Cli_Typed.thy ===== *)
theory Cli_Typed
  imports Tools_Common "HOL-Library.AList"
begin

text \<open>
  The tools that run a benign CLI command and parse its text (\<^verbatim>\<open>tools/cli_typed.py\<close>).
\<close>

section \<open>Parsers\<close>

text \<open>\<^verbatim>\<open>re.sub(r"\x1b\[[0-9;]*m", "", text)\<close>.  The closing \<^verbatim>\<open>m\<close> is not in the class, so a match takes the
  longest run of the class.\<close>

definition ansi_param :: "char \<Rightarrow> bool" where
  "ansi_param c \<longleftrightarrow> decimal_char c \<or> c = CHR '';''"

function strip_ansi :: "string \<Rightarrow> string" where
  "strip_ansi s =
     (case s of
        [] \<Rightarrow> []
      | c # t \<Rightarrow>
          (let rest = dropWhile ansi_param (tl t)
           in if c = CHR 0x1B \<and> startswith t ''['' \<and> startswith rest ''m'' then strip_ansi (tl rest)
              else c # strip_ansi t))"
  by pat_completeness auto
termination
proof (relation "measure length")
  fix s t :: string and c :: char and rest
  assume "s = c # t" and "rest = dropWhile ansi_param (tl t)"
  moreover have "length (tl (dropWhile ansi_param (tl t))) \<le> length t"
    using length_dropWhile_le [of ansi_param "tl t"] by simp
  ultimately show "(tl rest, s) \<in> measure length" by simp
qed auto

declare strip_ansi.simps [simp del]

definition free_line :: "string \<Rightarrow> (string \<times> nat) list \<Rightarrow> exn + (string \<times> nat) list" where
  "free_line line heap =
     (if CHR '':'' \<notin> set line then Inr heap
      else let token = before_first CHR '' '' (strip (after_first CHR '':'' line))
           in if isdigit token
              then bindR (int_of_digits token) (\<lambda>n.
                   Inr (AList.update (replace (lower (strip (before_first CHR '':'' line))) '' '' ''_'') n heap))
              else Inr heap)"

fun free_lines :: "string list \<Rightarrow> (string \<times> nat) list \<Rightarrow> exn + (string \<times> nat) list" where
  "free_lines [] heap = Inr heap"
| "free_lines (line # rest) heap = bindR (free_line line heap) (free_lines rest)"

definition parse_free :: "string \<Rightarrow> exn + (string \<times> nat) list" where
  "parse_free output = free_lines (splitlines (strip_ansi output)) []"

record tree_entry =
  te_type :: string
  te_path :: string
  te_size :: "nat option"
  te_depth :: nat

text \<open>The optional tail \<^verbatim>\<open>\s+(\d+)b\<close> at the end of the line, and the lazy \<^verbatim>\<open>.+?\<close> before it: the
  path ends at the first place, after at least one character, where the tail fits.\<close>

definition size_suffix :: "string \<Rightarrow> string option" where
  "size_suffix s =
     (let r = dropWhile py_space s; d = takeWhile decimal_char r
      in if length r < length s \<and> d \<noteq> [] \<and> drop (length d) r = ''b'' then Some d else None)"

fun lazy_path :: "string \<Rightarrow> string \<times> string option" where
  "lazy_path [] = ([], None)"
| "lazy_path (c # s) =
     (case size_suffix s of
        Some d \<Rightarrow> ([c], Some d)
      | None \<Rightarrow> (if s = [] then ([c], None) else case lazy_path s of (p, z) \<Rightarrow> (c # p, z)))"

text \<open>The line is stripped: after \<^verbatim>\<open>\s+\<close> there is a character left for the path whenever there was any
  white space.\<close>

definition tree_match :: "string \<Rightarrow> (char \<times> string \<times> string option) option" where
  "tree_match line =
     (case line of
        CHR ''['' # k # CHR '']'' # rest \<Rightarrow>
          (let body = dropWhile py_space rest
           in if (k = CHR ''D'' \<or> k = CHR ''F'') \<and> length body < length rest \<and> body \<noteq> []
              then Some (k, lazy_path body) else None)
      | _ \<Rightarrow> None)"

definition tree_line :: "string \<Rightarrow> tree_entry option" where
  "tree_line raw_line =
     (let line = strip_ansi raw_line
      in map_option (\<lambda>(k, path, size).
           \<lparr>te_type = (if k = CHR ''D'' then ''dir'' else ''file''), te_path = path,
            te_size = map_option (dec_value 0) size,
            te_depth = length (takeWhile (\<lambda>c. c = CHR 0x09) line)\<rparr>)
         (tree_match (strip line)))"

definition parse_tree :: "string \<Rightarrow> tree_entry list" where
  "parse_tree output = List.map_filter tree_line (splitlines output)"

text \<open>\<^verbatim>\<open>^([0-7])\s*\|\s*(.+)$\<close> on a stripped line.\<close>

definition i2c_row :: "string \<Rightarrow> (nat \<times> string) option" where
  "i2c_row line =
     (case line of
        [] \<Rightarrow> None
      | h # t \<Rightarrow>
          (case dropWhile py_space t of
             [] \<Rightarrow> None
           | c # r \<Rightarrow>
               (let cells = dropWhile py_space r
                in if 48 \<le> code h \<and> code h \<le> 55 \<and> c = CHR ''|'' \<and> cells \<noteq> []
                   then Some (code h - 48, cells) else None)))"

definition hex2 :: "nat \<Rightarrow> string" where
  "hex2 n = [hex_digit (n div 16), hex_digit (n mod 16)]"

definition i2c_line :: "string \<Rightarrow> string list" where
  "i2c_line line =
     (case i2c_row (strip line) of
        None \<Rightarrow> []
      | Some (high, cells) \<Rightarrow>
          map (\<lambda>(col, cell). ''0x'' @ hex2 (high * 16 + col))
            (filter (\<lambda>(col, cell). cell \<noteq> ''-'') (enumerate 0 (take 16 (split_ws cells)))))"

definition parse_i2c :: "string \<Rightarrow> string list" where
  "parse_i2c output = concat (map i2c_line (splitlines (strip_ansi output)))"

definition parse_loader_list :: "string \<Rightarrow> string list" where
  "parse_loader_list output =
     filter (\<lambda>name. name \<noteq> [] \<and> \<not> endswith name '':'') (map strip (splitlines (strip_ansi output)))"

section \<open>The tools\<close>

definition APP_OPEN :: string where "APP_OPEN = ''application is open''"

definition core_status :: "'d platform \<Rightarrow> (('d, 'z) cworld_scheme, json) action" where
  "core_status P =
     bindM (cli_typed P ''free'' CLI_TYPED_TIMEOUT) (\<lambda>free.
     bindM (cli_typed P ''uptime'' CLI_TYPED_TIMEOUT) (\<lambda>uptime.
     bindM (lift_result (parse_free (x_output free))) (\<lambda>heap.
     let uptime_text = strip (strip_ansi (x_output uptime))
     in ret (JObj
          [(''heap'', JObj (map (\<lambda>(k, n). (k, JNat n)) heap)),
           (''heap_free_bytes'', jopt JNat (map_of heap ''free_heap_size'')),
           (''uptime'', (if str_in APP_OPEN uptime_text \<or> uptime_text = [] then JNull else JStr uptime_text)),
           (''raw'', JObj [(''free'', JStr (x_output free)), (''uptime'', JStr (x_output uptime))])]))))"

definition tree_json :: "tree_entry \<Rightarrow> json" where
  "tree_json e =
     JObj [(''type'', JStr (te_type e)), (''path'', JStr (te_path e)), (''size_bytes'', jopt JNat (te_size e)),
           (''depth'', JNat (te_depth e))]"

definition fs_tree :: "'d platform \<Rightarrow> string \<Rightarrow> (('d, 'z) cworld_scheme, json) action" where
  "fs_tree P path =
     (if \<not> startswith path ''/''
      then raise (ToolError (''path must be absolute (start with '/'), got '' @ py_repr path))
      else bindM (cli_typed P (''storage tree '' @ path) CLI_TYPED_TIMEOUT) (\<lambda>r.
           ret (JObj [(''path'', JStr path), (''entries'', JList (map tree_json (parse_tree (x_output r)))),
                      (''complete'', JBool (x_completed r)), (''truncated'', JBool (\<not> x_completed r)),
                      (''raw'', JStr (x_output r))])))"

definition loader_list :: "'d platform \<Rightarrow> (('d, 'z) cworld_scheme, json) action" where
  "loader_list P =
     bindM (cli_typed P ''loader list'' CLI_TYPED_TIMEOUT) (\<lambda>r.
     ret (JObj [(''apps'', JList (map JStr (parse_loader_list (x_output r)))), (''raw'', JStr (x_output r))]))"

definition i2c_scan :: "'d platform \<Rightarrow> (('d, 'z) cworld_scheme, json) action" where
  "i2c_scan P =
     bindM (cli_typed P ''i2c'' CLI_TYPED_TIMEOUT) (\<lambda>r.
     let addresses = parse_i2c (x_output r)
     in ret (JObj [(''addresses'', JList (map JStr addresses)), (''count'', JNat (length addresses)),
                   (''raw'', JStr (x_output r))]))"

end
