(* ===== verification/Server.thy ===== *)
theory Server
  imports Firmware_Tool Cli_Typed
begin

text \<open>
  The server (\<^verbatim>\<open>server.py\<close>, \<^verbatim>\<open>tools/__init__.py\<close>): the lifespan that owns the client, the tools it
  registers, and the states that calls of these tools can reach.
\<close>

section \<open>The lifespan\<close>

text \<open>\<^verbatim>\<open>FlipperClient(transport)\<close> on a transport that the factory made: a new client over the fields
  of the new transport object.\<close>

definition new_client :: "transport_object \<Rightarrow> 'd cworld \<Rightarrow> 'd cworld" where
  "new_client t w =
     (case t of
        NewUSB u \<Rightarrow> w\<lparr>t_class := USBTransport, t_usb := u\<rparr>
      | NewWiFi x \<Rightarrow> w\<lparr>t_class := WiFiTransport, t_wifi := x\<rparr>
      | NewAuto a \<Rightarrow> w\<lparr>t_class := AutoTransport, t_auto := a\<rparr>)
     \<lparr>rx_buffer := [], io_locked := False, c_connected := False, c_rpc := False, c_last_error := None,
      c_sd_card := None, c_mode := UNKNOWN\<rparr>"

definition server_start :: "'d platform \<Rightarrow> flipper_config \<Rightarrow> ('d cworld, unit) action" where
  "server_start P cfg =
     bindM (get dev) (\<lambda>d.
     bindM (lift_result (get_transport P d (cfg_transport cfg) (as_transport_config cfg))) (\<lambda>t.
     thenM (modify (new_client t)) (thenM (connect P) (ret ()))))"

definition server_lifespan :: "'d platform \<Rightarrow> flipper_config \<Rightarrow> ('d cworld, unit) action \<Rightarrow> ('d cworld, unit) action" where
  "server_lifespan P cfg serve = thenM (server_start P cfg) (try_finally serve (disconnect P))"

section \<open>The tools\<close>

datatype tool_call =
    ConnectionHealth bool
  | ConnectionReconnect bool
  | SystemInfo
  | PowerInfo
  | ProtobufVersion
  | Datetime
  | FsInfo string
  | FsStat string
  | FsTimestamp string
  | FsList string
  | FsMkdir string
  | FsDelete string bool
  | FsRename string string
  | FsPush string string
  | FsPull string string
  | AppStart string string
  | SystemPing
  | PropertyGet string
  | AppLockStatus
  | AppGetError
  | DesktopIsLocked
  | GpioRead int
  | CliExec string nat bool
  | CoreStatus
  | FsTree string
  | LoaderList
  | I2cScan
  | FirmwareInstall dict string

definition cli_result_json :: "cli_exec_result \<Rightarrow> json" where
  "cli_result_json r =
     JObj [(''output'', JStr (x_output r)), (''completed'', JBool (x_completed r)), (''risk'', JStr (x_risk r)),
           (''warning'', jopt JStr (x_warning r))]"

fun run_tool :: "'d platform \<Rightarrow> 'd host \<Rightarrow> flipper_config \<Rightarrow> tool_call \<Rightarrow> (('d, 'z) cworld_scheme, json) action" where
  "run_tool P H cfg (ConnectionHealth probe) = connection_health_tool P probe"
| "run_tool P H cfg (ConnectionReconnect probe) = connection_reconnect P probe"
| "run_tool P H cfg SystemInfo = system_info P"
| "run_tool P H cfg PowerInfo = tool_power_info P"
| "run_tool P H cfg ProtobufVersion = tool_protobuf_version P"
| "run_tool P H cfg Datetime = tool_datetime P"
| "run_tool P H cfg (FsInfo path) = fs_info P path"
| "run_tool P H cfg (FsStat path) = fs_stat P path"
| "run_tool P H cfg (FsTimestamp path) = fs_timestamp P path"
| "run_tool P H cfg (FsList path) = fs_list P path"
| "run_tool P H cfg (FsMkdir path) = fs_mkdir P cfg path"
| "run_tool P H cfg (FsDelete path recursive) = fs_delete P cfg path recursive"
| "run_tool P H cfg (FsRename old_path new_path) = fs_rename P cfg old_path new_path"
| "run_tool P H cfg (FsPush local_path dest_path) = fs_push P H cfg local_path dest_path"
| "run_tool P H cfg (FsPull src_path local_path) = fs_pull P H src_path local_path"
| "run_tool P H cfg (AppStart name args) = tool_app_start P cfg name args"
| "run_tool P H cfg SystemPing = tool_ping P"
| "run_tool P H cfg (PropertyGet key) = tool_property_get P key"
| "run_tool P H cfg AppLockStatus = tool_app_lock_status P"
| "run_tool P H cfg AppGetError = tool_app_get_error P"
| "run_tool P H cfg DesktopIsLocked = tool_desktop_is_locked P"
| "run_tool P H cfg (GpioRead pin) = tool_gpio_read P pin"
| "run_tool P H cfg (CliExec command timeout accept) =
     bindM (tool_cli_exec P cfg command timeout accept) (\<lambda>r. ret (cli_result_json r))"
| "run_tool P H cfg CoreStatus = core_status P"
| "run_tool P H cfg (FsTree path) = fs_tree P path"
| "run_tool P H cfg LoaderList = loader_list P"
| "run_tool P H cfg I2cScan = i2c_scan P"
| "run_tool P H cfg (FirmwareInstall source confirm) = firmware_install P H cfg source confirm"

section \<open>Reachable states\<close>

text \<open>The states between the calls of a session: after the start, whatever came of connecting, and after
  every call of every tool, whatever came of it.\<close>

inductive served :: "'d platform \<Rightarrow> 'd host \<Rightarrow> flipper_config \<Rightarrow> 'd cworld \<Rightarrow> bool" for P H cfg where
  start: "server_start P cfg w = (Inr (), w') \<Longrightarrow> cancel_at w = None \<Longrightarrow> served P H cfg w'"
| call: "served P H cfg w \<Longrightarrow> run_tool P H cfg c w = (r, w') \<Longrightarrow> served P H cfg w'"

inductive_cases served_startE: "served P H cfg w"

end
