(* ===== verification/Sim_Platform.thy ===== *)
theory Sim_Platform
  imports Rpc_Core "HOL-Library.Code_Target_Nat"
begin

text \<open>
  A concrete platform with which the hypotheses of the properties are instantiated: a
  device that is a script of chunks, one per read, each delivered after one microsecond;
  an exhausted script is a silent device, whose reads last their whole timeout.  What is
  written to it adds the chunks \<open>reply\<close> gives to the script.  The wire encoding is a stand-in
  chosen by the caller.
\<close>

definition script_read :: "nat \<Rightarrow> (bytes list, bytes) platform_op" where
  "script_read t lim c d =
     (case d of [] \<Rightarrow> (Inr [], t, []) | b # bs \<Rightarrow> (Inr b, min t 1000, bs))"

definition script_tcp_read :: "(bytes list, bytes) platform_op" where
  "script_tcp_read lim c d =
     (case d of
        [] \<Rightarrow> (Inr [], (case lim of None \<Rightarrow> 0 | Some l \<Rightarrow> l), [])
      | b # bs \<Rightarrow> (if lim = None \<or> 1000 < the lim then (Inr b, 1000, bs) else (Inr [], 1000, d)))"

definition done_op :: "('d, unit) platform_op" where
  "done_op lim c d = (Inr (), 0, d)"

definition script_write :: "(bytes \<Rightarrow> bytes list) \<Rightarrow> bytes \<Rightarrow> (bytes list, unit) platform_op" where
  "script_write reply data lim c d = (Inr (), 0, d @ reply data)"

definition sim_platform ::
  "(main_msg \<Rightarrow> bytes) \<Rightarrow> (bytes \<Rightarrow> main_msg option) \<Rightarrow> (bytes \<Rightarrow> bytes list) \<Rightarrow> bytes list platform" where
  "sim_platform ser par reply =
     \<lparr>serial_open = (\<lambda>_ _ _. done_op), serial_is_open = (\<lambda>_. True), serial_close = done_op,
      serial_write = script_write reply, serial_read = (\<lambda>_. script_read),
      comports = (\<lambda>_. []), path_exists = (\<lambda>_ _. False), system_name = ''Linux'',
      tcp_open = (\<lambda>_ _. done_op), tcp_read = (\<lambda>_. script_tcp_read), tcp_write = script_write reply,
      tcp_close = done_op, tcp_is_closing = (\<lambda>_. False), environ = (\<lambda>_. None),
      serialize = ser, parse = par, utf8_decode = map (\<lambda>b. char_of (unat b)), utc_isoformat = (\<lambda>_. ''2026-01-01'')\<rparr>"

definition sim_usb :: usb_transport where
  "sim_usb = \<lparr>u_port = ''/dev/ttyACM0'', u_baudrate = 115200, u_timeout = seconds 1,
     u_serial = True, u_connected = True\<rparr>"

definition sim_wifi :: wifi_transport where
  "sim_wifi = \<lparr>w_host = ''10.0.0.2'', w_port = 8080, w_connect_timeout = seconds 3,
     w_read_chunk_size = 4096, w_reader = True, w_writer = True, w_connected = True\<rparr>"

definition sim_auto :: "link_class option \<Rightarrow> auto_transport" where
  "sim_auto c = \<lparr>a_usb_config = \<lparr>uc_port = None, uc_baudrate = None, uc_timeout = None\<rparr>,
     a_wifi_config = \<lparr>wc_host = Some ''10.0.0.2'', wc_port = None, wc_connect_timeout = None,
                      wc_read_chunk_size = None\<rparr>,
     a_active = c, a_connected = True\<rparr>"

definition sim_rworld :: "transport_class \<Rightarrow> link_class option \<Rightarrow> bytes list \<Rightarrow> bytes list rworld" where
  "sim_rworld c active script =
     \<lparr>dev = script, now = 0, cancel_at = None, io_locked = False, tx_log = [], tx_free = [],
      t_class = c, t_usb = sim_usb, t_wifi = sim_wifi, t_auto = sim_auto active, rx_buffer = [],
      r_command_id = 0, r_session_started = False, r_last_failure = None\<rparr>"

lemma sim_lossless: "lossless (sim_platform ser par reply) concat"
  by (auto simp: lossless_def sim_platform_def script_read_def script_tcp_read_def split: list.splits if_splits)

lemma sim_punctual: "punctual (sim_platform ser par reply)"
  by (auto simp: punctual_def sim_platform_def script_read_def split: list.splits)

lemmas sim_defs = sim_platform_def sim_usb_def sim_wifi_def sim_auto_def sim_rworld_def
  script_read_def script_tcp_read_def script_write_def done_op_def

end
