(* ===== verification/Wire_Properties.thy ===== *)
theory Wire_Properties
  imports Rpc_Session Sim_Platform
begin

text \<open>
  The properties of the link: framing of messages, exact reads, and the negotiation of an
  RPC session, each with an instance on a concrete device.
\<close>

section \<open>A concrete device\<close>

text \<open>Every message is the one byte 7 on the wire, and every byte string parses as the answer
  to the probe.  \<open>talking\<close> answers whatever is written to it; \<open>silent\<close> never answers.\<close>

definition probe_echo :: main_msg where
  "probe_echo = \<lparr>command_id = 1, command_status = STATUS_OK, has_next = False,
     content = Response (PingResponse PROBE)\<rparr>"

definition talking :: "bytes list platform" where
  "talking = sim_platform (\<lambda>_. [7]) (\<lambda>_. Some probe_echo) (\<lambda>_. [[1, 7]])"

definition silent :: "bytes list platform" where
  "silent = sim_platform (\<lambda>_. [7]) (\<lambda>_. Some probe_echo) (\<lambda>_. [])"

section \<open>Framing\<close>

text \<open>The length prefix is the little-endian base-128 form: its value is the number encoded,
  exactly its last byte has the top bit clear, and it is as short as the number allows.\<close>

theorem varint_canonical:
  "leb_value (encode_varint n) = n \<and> leb_form (encode_varint n) \<and>
   (\<forall>k. length (encode_varint n) \<le> k \<longleftrightarrow> 0 < k \<and> n < 128 ^ k)"
  by (simp add: encode_varint_value encode_varint_form encode_varint_length)

text \<open>C4: A message that was framed as the senders frame it is read back as that message, and
  what follows it in the buffer is left for the next read, whatever it is.\<close>

theorem message_roundtrip:
  assumes "rx_buffer w = framed (serialize P msg) @ rest"
    and "serialize P msg \<noteq> []" and "length (serialize P msg) \<le> 1000000"
    and "parse P (serialize P msg) = Some msg"
  shows "\<exists>w'. receive_main_message P timeout w = (Inr (Some msg), w') \<and> rx_buffer w' = rest \<and>
              dev w' = dev w \<and> tx_log w' = tx_log w"
  using receive_main_message_framed [OF assms(1) _ assms(3,4)] assms(2) by auto

theorem message_roundtrip_witness:
  "\<exists>w'. receive_main_message talking (millis 10)
          ((sim_rworld USBTransport None [])\<lparr>rx_buffer := framed [7] @ [1, 2]\<rparr>) = (Inr (Some probe_echo), w') \<and>
        rx_buffer w' = [1, 2] \<and> dev w' = [] \<and> tx_log w' = []"
  using message_roundtrip [of "(sim_rworld USBTransport None [])\<lparr>rx_buffer := framed [7] @ [1, 2]\<rparr>"
      talking probe_echo "[1, 2]" "millis 10"]
  by (simp add: talking_def sim_defs)

text \<open>C17: A message is only ever taken from a complete frame: the bytes consumed from the
  stream (buffered ones first, then what the device delivers) are a length prefix of at most five
  bytes followed by exactly that many payload bytes, at least one and at most a million, and it is
  that payload which parses as the message.  No byte of the stream is skipped.\<close>

theorem message_from_complete_frame:
  assumes "lossless P pending" and "receive_main_message P timeout w = (Inr (Some msg), w')"
  shows "\<exists>prefix payload. leb_form prefix \<and> length prefix \<le> 5 \<and> leb_value prefix = length payload \<and>
           1 \<le> length payload \<and> length payload \<le> 1000000 \<and> parse P payload = Some msg \<and>
           rx_buffer w @ pending (dev w) = prefix @ payload @ rx_buffer w' @ pending (dev w')"
  using assms by (rule receive_main_message_stream)

theorem message_from_complete_frame_witness:
  "\<exists>prefix payload. leb_form prefix \<and> length prefix \<le> 5 \<and> leb_value prefix = length payload \<and>
     1 \<le> length payload \<and> length payload \<le> 1000000 \<and> parse talking payload = Some probe_echo \<and>
     [2, 9, 9, 5] = prefix @ payload @ [5]"
proof -
  let ?w = "sim_rworld USBTransport None [[2, 9], [9, 5]]"
  have "receive_main_message talking (millis 10) ?w =
      (Inr (Some probe_echo), ?w\<lparr>now := 2006, dev := [], rx_buffer := [5]\<rparr>)"
    by code_simp
  from message_from_complete_frame [OF sim_lossless [of "\<lambda>_. [7]" "\<lambda>_. Some probe_echo" "\<lambda>_. [[1, 7]]",
      folded talking_def] this]
  show ?thesis by (simp add: sim_rworld_def)
qed

text \<open>An exact read returns all the bytes asked for or none, and whatever it returns is
  taken from the front of the stream; the rest of the stream stays for the next read, also when the
  read times out half way.\<close>

theorem receive_exact_exact:
  assumes "lossless P pending" and "receive_exact P n timeout w = (Inr b, w')"
  shows "(b = [] \<or> length b = n) \<and> rx_buffer w @ pending (dev w) = b @ rx_buffer w' @ pending (dev w')"
  using receive_exact_shape [OF assms(2)] receive_exact_lossless [OF assms] by simp

theorem receive_exact_exact_witness:
  "([3, 4, 5] = [] \<or> length [3, 4, 5 :: byte] = 3) \<and> [3, 4, 5, 6 :: byte] = [3, 4, 5] @ [6]"
proof -
  let ?w = "sim_rworld WiFiTransport None [[3], [4, 5, 6]]"
  have "receive_exact talking 3 (millis 10) ?w =
      (Inr [3, 4, 5], ?w\<lparr>now := 2005, dev := [], rx_buffer := [6]\<rparr>)"
    by code_simp
  from receive_exact_exact [OF sim_lossless [of "\<lambda>_. [7]" "\<lambda>_. Some probe_echo" "\<lambda>_. [[1, 7]]",
      folded talking_def] this]
  show ?thesis by (simp add: sim_rworld_def)
qed

text \<open>C31: An exact read ends by its timeout, whatever the device sends or leaves unsent (up to the
  four clock ticks its last pass takes), provided the serial driver keeps to the timeout it is given.\<close>

theorem receive_exact_in_time:
  assumes "punctual P" and "receive_exact P n timeout w = (r, w')"
  shows "now w' \<le> now w + timeout + 4"
  using assms by (rule receive_exact_time)

theorem receive_exact_in_time_witness:
  "now (snd (receive_exact silent 3 (millis 10) (sim_rworld USBTransport None [[1]]))) \<le> millis 10 + 4"
  using receive_exact_in_time [OF sim_punctual [of "\<lambda>_. [7]" "\<lambda>_. Some probe_echo" "\<lambda>_. []", folded silent_def]
      surjective_pairing, of 3 "millis 10" "sim_rworld USBTransport None [[1]]"]
  by (simp add: sim_rworld_def)

text \<open>The chunks of a payload, put together, are the payload; there is at least one, none is
  larger than the chunk size, and none is empty unless the payload is.\<close>

theorem chunk_partition:
  assumes "0 < k"
  shows "concat (chunk data k) = data \<and> chunk data k \<noteq> [] \<and>
         (\<forall>c \<in> set (chunk data k). length c \<le> k \<and> (data \<noteq> [] \<longrightarrow> c \<noteq> []))"
  using chunk_concat [OF assms] chunk_nonempty [OF assms] chunk_bounds chunk_sizes [OF assms] by blast

theorem chunk_partition_witness:
  "concat (chunk [1, 2, 3, 4, 5] 2) = [1, 2, 3, 4, 5] \<and> chunk [1, 2, 3, 4, 5] 2 \<noteq> []"
  using chunk_partition [of 2 "[1, 2, 3, 4, 5]"] by simp

section \<open>The session\<close>

text \<open>C18: A session is only believed to run over USB when the device just echoed the probe: the negotiation came,
  from the state in which it began, to a probe before which the receive buffer was emptied and the line drained, sent that
  probe, and read a message that echoes it, after which nothing but the flag changed.  Otherwise a failure no older
  than the cooldown is on record.\<close>

theorem session_flag_sound:
  assumes "ensure_rpc_session_started P w = (Inr x, w')"
    and "\<not> r_session_started w" and "\<not> is_wifi_transport w"
  shows "if r_session_started w'
         then \<exists>v w1 w2 t m u. probe_begins P (if r_last_failure w = None then w else w\<lparr>now := Suc (now w)\<rparr>) v \<and>
           drain_host_rx P (millis 200) (v\<lparr>rx_buffer := []\<rparr>) = (Inr (), w1) \<and>
           send_message P (main_request 1 False (Request (PingRequest PROBE))) w1 = (Inr (), w2) \<and>
           receive_main_message P t w2 = (Inr (Some m), u) \<and> field is_PingResponse ping_data m = Some PROBE \<and>
           w' = u\<lparr>r_session_started := True\<rparr>
         else \<exists>f. r_last_failure w' = Some f \<and> now w' \<le> f + NEGOTIATION_COOLDOWN"
  using ensure_outcome [OF assms] unfolding session_established_def probe_answered_def
  by (cases "r_session_started w'"; simp only: if_True if_False; blast)

theorem session_flag_sound_witness:
  "\<exists>w' u w2 t m. ensure_rpc_session_started talking (sim_rworld USBTransport None []) = (Inr (), w') \<and>
     receive_main_message talking t w2 = (Inr (Some m), u) \<and> field is_PingResponse ping_data m = Some PROBE \<and>
     w' = u\<lparr>r_session_started := True\<rparr>"
proof -
  let ?w = "sim_rworld USBTransport None []"
  obtain r w' where run: "ensure_rpc_session_started talking ?w = (r, w')" by fastforce
  have "fst (ensure_rpc_session_started talking ?w) = Inr () \<and>
        r_session_started (snd (ensure_rpc_session_started talking ?w))"
    by code_simp
  with run have ok: "r = Inr ()" "r_session_started w'" by simp_all
  have "\<not> r_session_started ?w" "\<not> is_wifi_transport ?w"
    by (simp_all add: sim_rworld_def is_wifi_transport_iff)
  from session_flag_sound [OF run [unfolded ok(1)] this] ok run show ?thesis by auto
qed

text \<open>Whatever the device does, a negotiation puts at most ten writes on the wire, each of them
  the probe frame, the line cancel or the \<^verbatim>\<open>start_rpc_session\<close> command; over WiFi it writes
  nothing and takes the session as running.\<close>

theorem negotiation_writes:
  assumes "ensure_rpc_session_started P w = (r, w')"
  shows "(\<exists>sent. tx_log w' = tx_log w @ sent \<and> length sent \<le> 10 \<and>
            set sent \<subseteq> {framed (serialize P (main_request 1 False (Request (PingRequest PROBE)))),
                        CTRL_C_CR, START_RPC_SESSION}) \<and>
         (r_last_failure w = None \<and> r = Inr () \<and> is_wifi_transport w \<longrightarrow>
            r_session_started w' \<and> tx_log w' = tx_log w)"
proof -
  obtain sent where sent: "tx_log w' = tx_log w @ sent" "set sent \<subseteq> negotiation_sends P" "length sent \<le> 10"
    using sends_uptoD [OF ensure_sends assms] .
  have "r_session_started w' \<and> tx_log w' = tx_log w"
    if "r_last_failure w = None" "r = Inr ()" "is_wifi_transport w"
  proof (cases "r_session_started w")
    case True
    with assms show ?thesis by (auto simp: ensure_started)
  next
    case False
    from assms False show ?thesis
      using that begin_session_wifi by (cases rule: ensure_cases) auto
  qed
  with sent show ?thesis unfolding negotiation_sends_def probe_frame_def by blast
qed

theorem negotiation_writes_witness:
  "\<exists>sent. tx_log (snd (ensure_rpc_session_started talking (sim_rworld WiFiTransport None []))) = sent \<and>
          length sent \<le> 10"
  using negotiation_writes [OF surjective_pairing, of talking "sim_rworld WiFiTransport None []"]
  by (auto simp: sim_rworld_def)




end
