(* ===== verification/Rpc_Properties.thy ===== *)
theory Rpc_Properties
  imports Rpc_Storage Wire_Properties
begin

text \<open>
  The properties of the RPC calls, each with an instance on a concrete device.
\<close>

section \<open>Writing a file\<close>

text \<open>Negotiation does not use up command numbers.\<close>

definition same_id :: "('d, 'z) rworld_scheme \<Rightarrow> ('d, 'z) rworld_scheme \<Rightarrow> bool" where
  "same_id w w' \<longleftrightarrow> r_command_id w' = r_command_id w"

interpretation idf: frame_rel same_id
  by unfold_locales (simp_all add: same_id_def)

lemma t_same_id: "keeps t_frame m \<Longrightarrow> keeps same_id m"
  by (erule keeps_mono) (simp add: same_id_def t_frame_rpc_fields)

lemma ensure_same_id: "keeps same_id (ensure_rpc_session_started P)"
proof -
  have "keeps same_id (set_session b)" for b
    by (simp add: keeps_def set_session_def modify_def same_id_def)
  moreover have "keeps same_id record_failure"
    by (simp add: keeps_def record_failure_def action_defs monotonic_def same_id_def)
  ultimately show ?thesis
    unfolding ensure_rpc_session_started_def begin_session_def negotiate_def
    by (intro idf.keeps_rules t_same_id [OF probe_rpc_t] t_same_id [OF start_session_attempt_t]
        t_same_id [OF sleep_t] t_same_id [OF clear_receive_buffer_t] t_same_id [OF monotonic_t])
qed

text \<open>The shape of a run under the lock and a timeout.\<close>

lemma timed_run:
  assumes "timed t dflt m w = (r, w')" and "\<not> io_locked w"
  obtains r0 v c where "m (w\<lparr>io_locked := True, cancel_at := c\<rparr>) = (r0, v)"
    and "w' = v\<lparr>cancel_at := cancel_at w, io_locked := False\<rparr>"
    and "r = r0 \<or> r = Inr dflt \<or> (\<exists>e. r = Inl e)"
proof -
  obtain c where c: "c = Some (if case cancel_at w of None \<Rightarrow> True | Some c \<Rightarrow> now w + t < c
    then now w + t else the (cancel_at w))" by blast
  obtain r0 v where run: "m (w\<lparr>io_locked := True, cancel_at := c\<rparr>) = (r0, v)" by fastforce
  have "w' = v\<lparr>cancel_at := cancel_at w, io_locked := False\<rparr>" and "r = r0 \<or> r = Inr dflt \<or> (\<exists>e. r = Inl e)"
    using assms run c
    by (auto simp: timed_def with_lock_def try_except_def wait_for_def ret_def Let_def
        split: sum.splits prod.splits if_splits)
  with run that show ?thesis by blast
qed

lemma storage_write_internal_wire:
  assumes "storage_write_internal P path data w = (r, w')"
  defines "cid \<equiv> (r_command_id w + 1) mod 0xFFFFFFFF"
  shows "\<exists>pre sent rest. tx_log w' = tx_log w @ pre @ sent \<and>
           set pre \<subseteq> negotiation_sends P \<and> length pre \<le> 10 \<and>
           wire P (write_messages cid path (chunk data WRITE_CHUNK_SIZE)) = sent @ rest \<and>
           (r = Inr True \<longrightarrow> rest = [])"
proof -
  obtain r1 w1 where e: "ensure_rpc_session_started P w = (r1, w1)" by fastforce
  obtain pre where pre: "tx_log w1 = tx_log w @ pre" "set pre \<subseteq> negotiation_sends P" "length pre \<le> 10"
    using sends_uptoD [OF ensure_sends e] .
  have cid: "(r_command_id w1 + 1) mod 0xFFFFFFFF = cid"
    using keepsD [OF ensure_same_id e] by (simp add: same_id_def cid_def)
  let ?w2 = "w1\<lparr>r_command_id := cid\<rparr>"
  show ?thesis
  proof (cases r1)
    case (Inl ex)
    with assms(1) e have "w' = w1" and "r \<noteq> Inr True"
      by (auto simp: storage_write_internal_def guarded_def try_except_def thenM_def bindM_def ret_def
          split: if_splits)
    with pre show ?thesis by - (rule exI [of _ pre], rule exI [of _ "[]"], auto)
  next
    case (Inr x)
    obtain r3 w3 where f: "write_fragments P cid path (chunk data WRITE_CHUNK_SIZE) ?w2 = (r3, w3)" by fastforce
    with Inr e cid assms(1) have "w' = w3" and "r = Inr True \<Longrightarrow> r3 = Inr True"
      by (auto simp: storage_write_internal_def guarded_def try_except_def thenM_def bindM_def ret_def
          get_next_command_id_def Let_def split: sum.splits if_splits)
    with sends_prefixD [OF write_fragments_wire f] pre show ?thesis by (auto; metis append_assoc)
  qed
qed

text \<open>C10: What a file write puts on the wire is, after at most ten negotiation writes, the fragments
  of one command in order, each framed, and nothing after the first that failed; a write that
  reports success has sent all of them.  A device that appends the data of the fragments until one
  announces no other ends up with exactly the file's content.\<close>

theorem storage_write_wire:
  assumes "storage_write P path data w = (r, w')" and "\<not> io_locked w"
  shows "\<exists>cid pre sent rest. tx_log w' = tx_log w @ pre @ sent \<and>
           set pre \<subseteq> negotiation_sends P \<and> length pre \<le> 10 \<and>
           wire P (write_messages cid path (chunk data WRITE_CHUNK_SIZE)) = sent @ rest \<and>
           (r = Inr True \<longrightarrow> rest = []) \<and>
           reassemble cid path (write_messages cid path (chunk data WRITE_CHUNK_SIZE)) = Some data"
proof -
  obtain r0 v c where
    m: "storage_write_internal P path data (w\<lparr>io_locked := True, cancel_at := c\<rparr>) = (r0, v)"
    and w': "w' = v\<lparr>cancel_at := cancel_at w, io_locked := False\<rparr>"
    and r: "r = r0 \<or> r = Inr False \<or> (\<exists>e. r = Inl e)"
    using timed_run [OF assms(1) [unfolded storage_write_def] assms(2)] .
  obtain pre sent rest cid where "tx_log v = tx_log w @ pre @ sent" "set pre \<subseteq> negotiation_sends P"
    "length pre \<le> 10" "wire P (write_messages cid path (chunk data WRITE_CHUNK_SIZE)) = sent @ rest"
    "r0 = Inr True \<longrightarrow> rest = []"
    using storage_write_internal_wire [OF m] by auto
  with w' r write_messages_chunk show ?thesis
    by - (rule exI [of _ cid], rule exI [of _ pre], rule exI [of _ sent], rule exI [of _ rest], auto)
qed

text \<open>The witness writes three bytes over WiFi to a device that acknowledges them.\<close>

theorem storage_write_wire_witness:
  "\<exists>cid pre sent. tx_log (snd (storage_write talking ''/ext/a'' [1, 2, 3] (sim_rworld WiFiTransport None []))) = pre @ sent \<and>
     sent = wire talking (write_messages cid ''/ext/a'' (chunk [1, 2, 3] WRITE_CHUNK_SIZE)) \<and>
     reassemble cid ''/ext/a'' (write_messages cid ''/ext/a'' (chunk [1, 2, 3] WRITE_CHUNK_SIZE)) = Some [1, 2, 3]"
proof -
  let ?run = "storage_write talking ''/ext/a'' [1, 2, 3] (sim_rworld WiFiTransport None [])"
  have ok: "fst ?run = Inr True" by code_simp
  have "\<not> io_locked (sim_rworld WiFiTransport None [])" by (simp add: sim_rworld_def)
  from storage_write_wire [OF surjective_pairing this, of talking "''/ext/a''" "[1, 2, 3]"] ok
  show ?thesis by (auto simp: sim_rworld_def)
qed

section \<open>Listing a directory\<close>

text \<open>C16: A directory listing is never silently cut short: the names returned are those of the frames that this
  run read from the link, one after the other up to its last state, the first of them the answer to this listing's
  request.  They are a complete stream, all with status OK, each but the last announcing the next; at most 101
  frames are read.  Every failure is a timeout or protocol error, or a size filter that does not fit the request.\<close>

theorem storage_list_complete_or_error:
  assumes "storage_list P path md5 n w = (r, w')" and "\<not> io_locked w"
  shows "(\<forall>names. r = Inr names \<longrightarrow>
            (\<exists>m ms v u. answered P (StorageListRequest path md5 n) RESPONSE_TIMEOUT (w\<lparr>io_locked := True\<rparr>) m v \<and>
               frames_read P v ms u \<and> w' = u\<lparr>io_locked := False\<rparr> \<and>
               complete_stream (m # ms) \<and> length (m # ms) \<le> 101 \<and>
               (\<forall>x \<in> set (m # ms). command_status x = STATUS_OK) \<and>
               names = map f_name (concat (map frame_files (m # ms))))) \<and>
         (\<forall>e. r = Inl e \<longrightarrow> is_exception e \<longrightarrow>
            (\<exists>t. e = FlipperTimeoutError t) \<or> (\<exists>t. e = FlipperProtocolError t) \<or>
            (\<exists>t. e = ValueError t) \<and> 2 ^ 32 \<le> n)"
proof -
  let ?body = "bindM (storage_list_frames P path md5 n) (\<lambda>frames. ret (map f_name (concat (map frame_files frames))))"
  obtain u where run: "?body (w\<lparr>io_locked := True\<rparr>) = (r, u)" and w': "w' = u\<lparr>io_locked := False\<rparr>"
    using assms by (auto simp: storage_list_def with_lock_def split: prod.splits)
  have "\<exists>m ms v. answered P (StorageListRequest path md5 n) RESPONSE_TIMEOUT (w\<lparr>io_locked := True\<rparr>) m v \<and>
      frames_read P v ms u \<and> complete_stream (m # ms) \<and> length (m # ms) \<le> 101 \<and>
      (\<forall>x \<in> set (m # ms). command_status x = STATUS_OK) \<and> names = map f_name (concat (map frame_files (m # ms)))"
    if "r = Inr names" for names
  proof -
    from run that obtain frames where f: "storage_list_frames P path md5 n (w\<lparr>io_locked := True\<rparr>) = (Inr frames, u)"
      and names: "names = map f_name (concat (map frame_files frames))"
      by (auto simp: ret_def bindM_eq_Inr)
    have "Suc MAX_ITERATIONS = 101" by (simp add: MAX_ITERATIONS_def)
    with storage_list_frames_complete [OF f] names show ?thesis by metis
  qed
  moreover have "(\<exists>t. e = FlipperTimeoutError t) \<or> (\<exists>t. e = FlipperProtocolError t) \<or>
            (\<exists>t. e = ValueError t) \<and> 2 ^ 32 \<le> n" if "r = Inl e" "is_exception e" for e
    using run that by (auto simp: bindM_def ret_def split: prod.splits sum.splits dest: storage_list_frames_error)
  ultimately show ?thesis using w' by blast
qed

text \<open>The witness lists a directory whose two frames the device has queued.\<close>

definition listing_frame :: "bool \<Rightarrow> string \<Rightarrow> main_msg" where
  "listing_frame nxt name = \<lparr>command_id = 1, command_status = STATUS_OK, has_next = nxt,
     content = Response (StorageListResponse
       [\<lparr>f_type = FILE, f_name = name, f_size = 3, f_data = [], f_md5sum = []\<rparr>])\<rparr>"

definition lister :: "bytes list platform" where
  "lister = sim_platform (\<lambda>_. [7]) (\<lambda>b. Some (listing_frame (b = [1]) (if b = [1] then ''a'' else ''b'')))
     (\<lambda>_. [[1, 1], [1, 2]])"

theorem storage_list_complete_or_error_witness:
  "\<exists>m ms v u. answered lister (StorageListRequest ''/ext'' False 0) RESPONSE_TIMEOUT
        ((sim_rworld WiFiTransport None [])\<lparr>io_locked := True\<rparr>) m v \<and> frames_read lister v ms u \<and>
     complete_stream (m # ms) \<and> [''a'', ''b''] = map f_name (concat (map frame_files (m # ms)))"
proof -
  let ?w = "sim_rworld WiFiTransport None []"
  have ok: "fst (storage_list lister ''/ext'' False 0 ?w) = Inr [''a'', ''b'']" by code_simp
  have "\<not> io_locked ?w" by (simp add: sim_rworld_def)
  moreover obtain w' where "storage_list lister ''/ext'' False 0 ?w = (Inr [''a'', ''b''], w')"
    using ok by (metis prod.collapse)
  ultimately obtain m ms v u where "answered lister (StorageListRequest ''/ext'' False 0) RESPONSE_TIMEOUT (?w\<lparr>io_locked := True\<rparr>) m v"
    "frames_read lister v ms u" "complete_stream (m # ms)"
    "[''a'', ''b''] = map f_name (concat (map frame_files (m # ms)))"
    using storage_list_complete_or_error [of lister "''/ext''" False 0 ?w "Inr [''a'', ''b'']" w'] by (metis (no_types, lifting))
  then show ?thesis by (intro exI conjI)
qed

section \<open>Answers and failures\<close>

text \<open>C32: The calls that promise a default on failure keep the promise: whatever the device, the
  driver or the parser does, none of them lets an ordinary exception through.  What is left is a
  cancellation from outside and the wait for a lock that the caller itself holds.\<close>

theorem rpc_calls_contained:
  "contained (ping P data) \<and> contained (app_lock_status P) \<and> contained (app_get_error P) \<and>
   contained (app_start P name args) \<and> contained (desktop_is_locked P) \<and> contained (gpio_read P pin) \<and>
   contained (system_protobuf_version P) \<and> contained (system_datetime P) \<and> contained (system_power_info P) \<and>
   contained (get_property P key) \<and> contained (rpc_get_device_info P) \<and> contained (storage_read P path) \<and>
   contained (storage_info P path) \<and> contained (storage_stat P path) \<and> contained (storage_timestamp P path) \<and>
   contained (storage_md5sum P path) \<and> contained (storage_mkdir P path) \<and>
   contained (storage_delete P path recursive) \<and> contained (storage_rename P path path') \<and>
   contained (storage_write P path data)"
  by (simp add: contained_ping contained_calls contained_storage)

lemma timed_answer:
  assumes "timed t dflt m w = (Inr x, w')" and "\<not> io_locked w" and "x \<noteq> dflt"
  obtains c v where "m (w\<lparr>io_locked := True, cancel_at := c\<rparr>) = (Inr x, v)"
    and "w' = v\<lparr>cancel_at := cancel_at w, io_locked := False\<rparr>"
  using timed_run [OF assms(1,2)] assms(3) by (metis Inl_Inr_False sum.inject(2))

text \<open>An MD5 is only reported when the device sent it: it is the non-empty digest of the message with status OK that
  answered this request, read under the lock and the deadline of the call.\<close>

theorem storage_md5sum_from_device:
  assumes "storage_md5sum P path w = (Inr (Some d), w')" and "\<not> io_locked w"
  shows "d \<noteq> [] \<and> (\<exists>c m v. answered P (StorageMd5sumRequest path) MD5SUM_RESPONSE_TIMEOUT
            (w\<lparr>io_locked := True, cancel_at := c\<rparr>) m v \<and> command_status m = STATUS_OK \<and>
            field is_StorageMd5sumResponse md5sum_of m = Some d \<and> w' = v\<lparr>cancel_at := cancel_at w, io_locked := False\<rparr>)"
proof -
  let ?q = "query P (StorageMd5sumRequest path) MD5SUM_RESPONSE_TIMEOUT is_StorageMd5sumResponse md5sum_of"
  obtain c v where "bindM ?q (\<lambda>r. ret (if r = Some [] then None else r)) (w\<lparr>io_locked := True, cancel_at := c\<rparr>)
      = (Inr (Some d), v)" and w': "w' = v\<lparr>cancel_at := cancel_at w, io_locked := False\<rparr>"
    using timed_answer [OF assms(1) [unfolded storage_md5sum_def] assms(2)] by blast
  then have "?q (w\<lparr>io_locked := True, cancel_at := c\<rparr>) = (Inr (Some d), v)" and "d \<noteq> []"
    by (auto simp: ret_def bindM_eq_Inr split: if_splits)
  with w' show ?thesis by (auto simp: query_answer)
qed

definition hasher :: "bytes list platform" where
  "hasher = sim_platform (\<lambda>_. [7])
     (\<lambda>_. Some \<lparr>command_id = 1, command_status = STATUS_OK, has_next = False,
                content = Response (StorageMd5sumResponse ''abc'')\<rparr>)
     (\<lambda>_. [[1, 7]])"

theorem storage_md5sum_from_device_witness:
  "\<exists>w'. storage_md5sum hasher ''/ext/a'' (sim_rworld WiFiTransport None []) = (Inr (Some ''abc''), w') \<and>
     (\<exists>c m v. answered hasher (StorageMd5sumRequest ''/ext/a'') MD5SUM_RESPONSE_TIMEOUT
        ((sim_rworld WiFiTransport None [])\<lparr>io_locked := True, cancel_at := c\<rparr>) m v)"
proof -
  let ?w = "sim_rworld WiFiTransport None []"
  obtain r w' where run: "storage_md5sum hasher ''/ext/a'' ?w = (r, w')" by fastforce
  moreover have "fst (storage_md5sum hasher ''/ext/a'' ?w) = Inr (Some ''abc'')" by code_simp
  moreover have "\<not> io_locked ?w" by (simp add: sim_rworld_def)
  ultimately show ?thesis using storage_md5sum_from_device [of hasher "''/ext/a''" ?w "''abc''" w'] by auto
qed

section \<open>Device information\<close>

definition good_dict :: "dict \<Rightarrow> bool" where
  "good_dict info \<longleftrightarrow> distinct (map fst info) \<and> (\<forall>(k, v) \<in> set info. k \<noteq> [] \<and> v \<noteq> [])"

lemma good_dict_Nil [simp]: "good_dict []"
  by (simp add: good_dict_def)

lemma set_AList_update: "set (AList.update k v xs) \<subseteq> insert (k, v) (set xs)"
  by (induction xs) auto

lemma good_dict_update: "good_dict info \<Longrightarrow> k \<noteq> [] \<Longrightarrow> v \<noteq> [] \<Longrightarrow> good_dict (AList.update k v info)"
  using set_AList_update [of k v info] by (auto simp: good_dict_def distinct_update)

lemma good_dict_collect: "good_dict info \<Longrightarrow> good_dict (collect_pair p key val m info)"
  by (auto simp: collect_pair_def good_dict_update split: option.splits)

lemma device_info_loop_good:
  "device_info_loop P k m info w = (Inr info', w') \<Longrightarrow> good_dict info \<Longrightarrow> good_dict info'"
proof (induction k arbitrary: m info w)
  case (Suc k)
  then show ?case
    by (auto simp: ret_def Let_def good_dict_collect elim!: bindM_InrE split: if_splits option.splits)
qed (simp add: ret_def)

lemma property_fallback_good:
  "property_fallback P keys info w = (Inr info', w') \<Longrightarrow> good_dict info \<Longrightarrow> [] \<notin> set keys \<Longrightarrow> good_dict info'"
proof (induction keys arbitrary: info w)
  case (Cons key keys)
  from Cons.prems(1) obtain v w1 where
    "property_fallback P keys (case v of None \<Rightarrow> info | Some x \<Rightarrow> if x \<noteq> [] then AList.update key x info else info) w1 = (Inr info', w')"
    by (auto elim!: bindM_InrE)
  from Cons.IH [OF this] Cons.prems(2,3) show ?case
    by (auto simp: good_dict_update split: option.splits if_splits)
qed (simp add: ret_def)

lemma property_keys: "[] \<notin> set PROPERTY_KEYS"
  by (simp add: PROPERTY_KEYS_def)

text \<open>The device information returned never has two entries for one key, and no empty key or
  value, over every number of frames, every bad frame and the fallback to single properties.\<close>

theorem device_info_well_formed:
  assumes "rpc_get_device_info P w = (Inr info, w')"
  shows "distinct (map fst info) \<and> (\<forall>(k, v) \<in> set info. k \<noteq> [] \<and> v \<noteq> [])"
proof -
  have internal: "good_dict i" if "get_device_info_internal P u = (Inr i, u')" for i u u'
  proof -
    from that obtain info0 w1 where
      a: "guarded [] (bindM (request P DeviceInfoRequest RESPONSE_TIMEOUT) (\<lambda>resp.
           case resp of None \<Rightarrow> ret []
           | Some m \<Rightarrow> (if command_status m \<noteq> STATUS_OK then ret []
               else device_info_loop P MAX_ITERATIONS m
                      (collect_pair is_DeviceInfoResponse info_key info_value m [])))) u = (Inr info0, w1)"
      and b: "(if info0 = [] then property_fallback P PROPERTY_KEYS [] else ret info0) w1 = (Inr i, u')"
      unfolding get_device_info_internal_def by (rule bindM_InrE)
    from a have "good_dict info0"
      by (auto simp: guarded_def try_except_def ret_def good_dict_collect elim!: bindM_InrE
          split: prod.splits sum.splits option.splits if_splits dest!: device_info_loop_good)
    then show ?thesis
      using b property_keys by (auto simp: ret_def split: if_splits dest!: property_fallback_good)
  qed
  show ?thesis
  proof (cases "io_locked w")
    case True
    with assms show ?thesis by (simp add: rpc_get_device_info_def timed_def with_lock_def)
  next
    case False
    have "good_dict info" if "info \<noteq> []"
      using timed_answer [OF assms [unfolded rpc_get_device_info_def] False that] internal by metis
    then have "good_dict info" using good_dict_Nil by blast
    then show ?thesis by (simp add: good_dict_def)
  qed
qed


definition informer :: "bytes list platform" where
  "informer = sim_platform (\<lambda>_. [7])
     (\<lambda>b. Some \<lparr>command_id = 1, command_status = STATUS_OK, has_next = (b = [1]),
                content = Response (DeviceInfoResponse ''hardware_model'' (if b = [1] then ''x'' else ''y''))\<rparr>)
     (\<lambda>_. [[1, 1], [1, 2]])"

theorem device_info_well_formed_witness:
  "fst (rpc_get_device_info informer (sim_rworld WiFiTransport None [])) = Inr [(''hardware_model'', ''y'')] \<and>
   distinct (map fst [(''hardware_model'', ''y'')])"
proof -
  let ?run = "rpc_get_device_info informer (sim_rworld WiFiTransport None [])"
  have ok: "fst ?run = Inr [(''hardware_model'', ''y'')]" by code_simp
  then have "?run = (Inr [(''hardware_model'', ''y'')], snd ?run)" by (metis surjective_pairing)
  from device_info_well_formed [OF this] ok show ?thesis by blast
qed

end
