(* ===== verification/Client_Properties.thy ===== *)
theory Client_Properties
  imports Client Config Rpc_Properties
begin

text \<open>
  The properties of the client and its configuration, each with an instance on a concrete
  device.
\<close>

section \<open>A concrete client\<close>

definition sim_cworld :: "transport_class \<Rightarrow> link_class option \<Rightarrow> bytes list \<Rightarrow> bytes list cworld" where
  "sim_cworld c active script =
     \<lparr>dev = script, now = 0, cancel_at = None, io_locked = False, tx_log = [], tx_free = [],
      t_class = c, t_usb = sim_usb, t_wifi = sim_wifi, t_auto = sim_auto active, rx_buffer = [],
      r_command_id = 0, r_session_started = False, r_last_failure = None,
      c_connected = True, c_rpc = True, c_last_error = None, c_sd_card = None, c_mode = UNKNOWN\<rparr>"

text \<open>A device that answers every write with a prompt.\<close>

definition shell :: "bytes list platform" where
  "shell = sim_platform (\<lambda>_. [7]) (\<lambda>_. None) (\<lambda>_. [encode ''ok >: ''])"

section \<open>Refusals\<close>

lemma reject_shell_chaining_cases:
  "reject_shell_chaining command w =
     (if \<exists>token \<in> set SHELL_CHAINING. str_in token command
      then (Inl (FlipperCLIRefusedError
        (''shell chaining is not allowed; send exactly one command per call (found '' @
         py_repr (hd (filter (\<lambda>token. str_in token command) SHELL_CHAINING)) @ '')'')), w)
      else (Inr (), w))"
proof (cases "filter (\<lambda>token. str_in token command) SHELL_CHAINING")
  case Nil
  then have "\<not> (\<exists>token \<in> set SHELL_CHAINING. str_in token command)" by (simp add: filter_empty_conv)
  with Nil show ?thesis by (simp add: reject_shell_chaining_def ret_def)
next
  case (Cons t ts)
  then have "t \<in> set (filter (\<lambda>token. str_in token command) SHELL_CHAINING)" by simp
  then have "\<exists>token \<in> set SHELL_CHAINING. str_in token command" by auto
  with Cons show ?thesis by (simp add: reject_shell_chaining_def raise_def)
qed

definition is_cli_refusal :: "exn \<Rightarrow> bool" where
  "is_cli_refusal e = (case e of FlipperNotConnectedError _ \<Rightarrow> True | FlipperCLIUnavailableError _ \<Rightarrow> True
     | FlipperCLIRefusedError _ \<Rightarrow> True | _ \<Rightarrow> False)"

definition cli_permitted :: "string \<Rightarrow> bool \<Rightarrow> bool \<Rightarrow> ('d, 'z) cworld_scheme \<Rightarrow> bool" where
  "cli_permitted command accept tx w \<longleftrightarrow>
     c_rpc w \<and> supports_cli_text_mode w \<and> \<not> (\<exists>token \<in> set SHELL_CHAINING. str_in token command) \<and>
     (risk_gated (classify command) \<longrightarrow> accept \<and> tx)"

lemma cli_exec_refused:
  assumes "\<not> cli_permitted command accept tx w"
  shows "\<exists>e. cli_exec P command timeout accept tx w = (Inl e, w) \<and> is_cli_refusal e"
proof (cases "c_rpc w \<and> supports_cli_text_mode w \<and> \<not> (\<exists>token \<in> set SHELL_CHAINING. str_in token command)")
  case True
  with assms have "risk_gated (classify command)" "\<not> (accept \<and> tx)" by (auto simp: cli_permitted_def)
  with True show ?thesis
    by (cases tx) (simp_all add: cli_exec_def bindM_def thenM_def get_def reject_shell_chaining_cases
        enforce_tx_gate_def raise_def is_cli_refusal_def Let_def)
next
  case False
  then show ?thesis
    by (cases "c_rpc w"; cases "supports_cli_text_mode w")
      (auto simp: cli_exec_def bindM_def thenM_def get_def reject_shell_chaining_cases raise_def is_cli_refusal_def)
qed

lemma cli_exec_allowed:
  assumes "cli_permitted command accept tx w"
  shows "cli_exec P command timeout accept tx w =
     bindM (with_lock (cli_exchange P command timeout)) (\<lambda>(output, completed).
       ret \<lparr>x_output = output, x_completed = completed,
            x_risk = category_text (risk_category (classify command)),
            x_warning = risk_warning (classify command)\<rparr>) w"
  using assms
  by (auto simp: cli_permitted_def cli_exec_def bindM_def [of "get _"] thenM_def [of "reject_shell_chaining _"]
      thenM_def [of "if _ then _ else _"] bindM_def [of "reject_shell_chaining _"] bindM_def [of "if _ then _ else _"]
      get_def reject_shell_chaining_cases enforce_tx_gate_def ret_def Let_def)

text \<open>C3: A CLI command is refused without touching the device when there is no connection, when the
  transport has no text mode, when the line holds a chaining character, and when it is a transmit
  or destructive command for which the operator's flag or the caller's acceptance is missing: the
  state is exactly what it was.\<close>

theorem cli_refusal_touches_nothing:
  assumes "\<not> c_rpc w \<or> \<not> supports_cli_text_mode w \<or> (\<exists>token \<in> set SHELL_CHAINING. str_in token command) \<or>
           (risk_gated (classify command) \<and> \<not> (accept \<and> tx))"
  shows "\<exists>e. cli_exec P command timeout accept tx w = (Inl e, w) \<and> is_cli_refusal e"
  using assms by (intro cli_exec_refused) (auto simp: cli_permitted_def)

theorem cli_refusal_touches_nothing_witness:
  "\<exists>e. cli_exec shell '' SubGHz   TX 433920000'' (seconds 1) True False (sim_cworld USBTransport None []) =
         (Inl e, sim_cworld USBTransport None []) \<and> is_cli_refusal e"
proof -
  have "risk_gated (classify '' SubGHz   TX 433920000'')" by code_simp
  then show ?thesis by (intro cli_refusal_touches_nothing) simp
qed

text \<open>C34: The classification is by the first words of the line, whatever its case and spacing: a line
  is gated exactly when its words begin with the words of a rule, and the first such rule gives the
  category and the warning.\<close>

theorem classify_by_first_words:
  "classify command =
     (case first_rule RULE_WORDS (split_ws (lower command)) of
        None \<Rightarrow> \<lparr>risk_category = Benign, risk_gated = False, risk_warning = None\<rparr>
      | Some c \<Rightarrow> \<lparr>risk_category = c, risk_gated = True, risk_warning = WARNINGS c\<rparr>)"
  using classify_words by (simp add: words_def)

section \<open>What a command puts on the wire\<close>

lemma encode_no_control:
  assumes "b \<in> set (encode s)" and "unat b < 128"
  shows "\<exists>c \<in> set s. code c = unat b"
proof -
  from assms(1) obtain c where c: "c \<in> set s" "b \<in> set (utf8_char c)" by (auto simp: encode_def)
  have "code c div 64 < 4" by (rule less_mult_imp_div_less) simp
  then have "192 + code c div 64 < 256" "128 + code c mod 64 < 256" by auto
  then have "unat (of_nat (192 + code c div 64) :: byte) = 192 + code c div 64"
    "unat (of_nat (128 + code c mod 64) :: byte) = 128 + code c mod 64"
    by (simp_all only: unat_of_nat_byte)
  with c assms(2) have "b = of_nat (code c)" and "code c < 128"
    by (auto simp: utf8_char_def split: if_splits)
  then have "unat b = code c" by (simp add: unat_of_nat_byte)
  with c show ?thesis by metis
qed

lemma no_chaining_one_line:
  assumes "\<not> (\<exists>token \<in> set SHELL_CHAINING. str_in token command)"
  shows "0x0D \<notin> set (encode command) \<and> 0x0A \<notin> set (encode command)"
proof -
  have "CHR 0x0D \<notin> set command" and "CHR 0x0A \<notin> set command"
    using assms by (auto simp: SHELL_CHAINING_def)
  moreover have "c = CHR 0x0D" if "code c = 13" for c
    using that code_eq_iff [of c "CHR 0x0D"] by (simp add: code_def)
  moreover have "c = CHR 0x0A" if "code c = 10" for c
    using that code_eq_iff [of c "CHR 0x0A"] by (simp add: code_def)
  ultimately show ?thesis
    using encode_no_control [of "0x0D" command] encode_no_control [of "0x0A" command] by fastforce
qed

lemma read_prompt_loop_quiet: "read_prompt_loop P deadline buf w = (r, w') \<Longrightarrow> quiet w w'"
proof (induction P deadline buf w arbitrary: r w' rule: read_prompt_loop.induct)
  case (1 P deadline buf w)
  have tick: "quiet w (w\<lparr>now := k\<rparr>)" if "now w \<le> k" for k
    using that by (simp add: quiet_def t_frame_def io_frame_def)
  show ?case
  proof (cases "now w < deadline")
    case False
    with "1.prems" tick show ?thesis by (auto simp: read_prompt_loop.simps [of P deadline buf w])
  next
    case True
    obtain r1 w1 where w1: "transport_receive P (Some (min CLI_READ_SLICE (deadline - Suc (now w))))
        (w\<lparr>now := Suc (Suc (now w))\<rparr>) = (r1, w1)" by fastforce
    have "quiet w w1" using qf.trans [OF tick keepsD [OF transport_receive_quiet w1]] by simp
    with "1.prems" "1.IH" [OF True w1 [symmetric]] True w1 show ?thesis
      by (auto simp: read_prompt_loop.simps [of P deadline buf w] split: sum.splits if_splits intro: qf.trans)
  qed
qed

lemma read_until_prompt_quiet: "keeps quiet (read_until_prompt P t)"
proof -
  have "keeps quiet (read_prompt_loop P d b)" for d b by (blast intro: keepsI read_prompt_loop_quiet)
  then show ?thesis unfolding read_until_prompt_def by (intro quiet_rules)
qed

definition cli_writes :: "'d platform \<Rightarrow> string \<Rightarrow> bytes list" where
  "cli_writes P command =
     [framed (serialize P (main_request 0 False StopSession)), CTRL_C_CR, encode command @ [0x0D]]"

lemma cli_exchange_wire: "sends_prefix (cli_writes P command) (cli_exchange P command timeout)"
proof -
  have mode: "sends_prefix [] (set_mode m)" for m
    by (rule sends_prefix_silent) (auto simp: set_mode_def modify_def)
  have "sends_prefix ([framed (serialize P (main_request 0 False StopSession))] @ [] @ [] @ [CTRL_C_CR] @ [] @ [] @
      [encode command @ [0x0D]] @ [] @ []) (cli_exchange P command timeout)"
    unfolding cli_exchange_def
    by (intro sends_prefix_rules sends_prefix_stop mode sends_prefix_quiet [OF read_until_prompt_quiet])
      (simp add: case_prod_unfold sends_prefix_simple)
  then show ?thesis by (simp add: cli_writes_def)
qed

lemma cli_exchange_begin:
  obtains rest where
    "cli_exchange P command timeout = thenM (transport_send P (framed (serialize P (main_request 0 False StopSession)))) rest"
    and "sends_prefix [CTRL_C_CR, encode command @ [0x0D]] rest"
proof -
  let ?rest = "thenM (drain_host_rx P (millis 400)) (thenM (set_session False) (thenM (set_mode CLI) (thenM clear_receive_buffer
      (thenM (transport_send P CTRL_C_CR) (thenM (read_until_prompt P (seconds 2)) (thenM clear_receive_buffer
      (thenM (transport_send P (encode command @ [0x0D])) (bindM (read_until_prompt P timeout) (\<lambda>(raw, completed).
        ret (strip_cli_output P raw command, completed))))))))))"
  have mode: "sends_prefix [] (set_mode m)" for m
    by (rule sends_prefix_silent) (auto simp: set_mode_def modify_def)
  have "sends_prefix ([] @ [] @ [] @ [] @ [CTRL_C_CR] @ [] @ [] @ [encode command @ [0x0D]] @ [] @ []) ?rest"
    by (intro sends_prefix_rules sends_prefix_drain mode sends_prefix_quiet [OF read_until_prompt_quiet])
      (simp add: case_prod_unfold sends_prefix_simple)
  then have "sends_prefix [CTRL_C_CR, encode command @ [0x0D]] ?rest" by simp
  moreover have "cli_exchange P command timeout =
      thenM (transport_send P (framed (serialize P (main_request 0 False StopSession)))) ?rest"
    by (simp add: cli_exchange_def send_stop_session_def send_message_def thenM_def bindM_assoc)
  ultimately show ?thesis by (rule that [rotated])
qed

lemma keeps_t_client:
  fixes v :: "('d, 'z) cworld_scheme"
  assumes "keeps t_frame m" and "m v = (r, v')"
  shows "c_mode v' = c_mode v \<and> r_session_started v' = r_session_started v"
  using t_frame_rpc_fields [OF keepsD [OF assms]] by (cases v; cases v'; simp)

lemma cli_exchange_state:
  assumes "cli_exchange P command timeout w = (Inr x, w')"
  shows "c_mode w' = CLI \<and> \<not> r_session_started w'"
proof -
  note step = keeps_t_client
  from assms obtain w1 w2 w3 w4 w5 w6 w7 w8 y1 y2 y3 y4 y5 y6 y7 y8 where
    "send_stop_session P w = (Inr y1, w1)" and m: "set_mode CLI w1 = (Inr y2, w2)"
    and rest: "clear_receive_buffer w2 = (Inr y3, w3)" "transport_send P CTRL_C_CR w3 = (Inr y4, w4)"
      "read_until_prompt P (seconds 2) w4 = (Inr y5, w5)" "clear_receive_buffer w5 = (Inr y6, w6)"
      "transport_send P (encode command @ [0x0D]) w6 = (Inr y7, w7)"
      "read_until_prompt P timeout w7 = (Inr y8, w8)"
    and last: "(case y8 of (raw, completed) \<Rightarrow> ret (strip_cli_output P raw command, completed)) w8 = (Inr x, w')"
    unfolding cli_exchange_def thenM_def by (elim bindM_InrE) (rule that)
  have "\<not> r_session_started w1"
    using \<open>send_stop_session P w = (Inr y1, w1)\<close>
    by (auto simp: send_stop_session_def thenM_def set_session_def modify_def elim!: bindM_InrE)
  with m have "c_mode w2 = CLI \<and> \<not> r_session_started w2" by (auto simp: set_mode_def modify_def)
  moreover from last have "w' = w8" by (simp add: case_prod_unfold ret_def)
  moreover have rp: "keeps t_frame (read_until_prompt P t)" for t
    using read_until_prompt_quiet by (rule quiet_keeps_t)
  ultimately show ?thesis
    using step [OF clear_receive_buffer_t rest(1)] step [OF transport_send_t rest(2)] step [OF rp rest(3)]
      step [OF clear_receive_buffer_t rest(4)] step [OF transport_send_t rest(5)] step [OF rp rest(6)]
    by metis
qed

lemma cli_exec_written:
  assumes "cli_exec P command timeout accept tx w = (Inr x, w')"
  shows "tx_log w' = tx_log w @ cli_writes P command"
proof -
  have "cli_permitted command accept tx w" using assms cli_exec_refused [of command accept tx w P timeout] by auto
  then have "bindM (with_lock (cli_exchange P command timeout)) (\<lambda>(output, completed).
      ret \<lparr>x_output = output, x_completed = completed, x_risk = category_text (risk_category (classify command)),
           x_warning = risk_warning (classify command)\<rparr>) w = (Inr x, w')"
    using assms by (simp add: cli_exec_allowed)
  then obtain y where "with_lock (cli_exchange P command timeout) w = (Inr y, w')"
    by (auto simp: case_prod_unfold ret_def elim!: bindM_InrE)
  from sends_prefixD [OF sends_prefix_with_lock [OF cli_exchange_wire] this] show ?thesis by auto
qed

text \<open>C22: An executed command writes exactly three byte strings in this order, the end of the RPC
  session, the line cancel, and the command with one carriage return at its end and none before
  it, so the shell sees one line; an exception only cuts the sequence short.  Nothing is
  written unless the command was permitted, and after it the link is in CLI mode with no session
  believed to run.\<close>

theorem cli_exec_writes_one_line:
  assumes "cli_exec P command timeout accept tx w = (r, w')"
  shows "\<exists>sent rest. cli_writes P command = sent @ rest \<and> tx_log w' = tx_log w @ sent \<and>
     (sent \<noteq> [] \<longrightarrow> 0x0D \<notin> set (encode command) \<and> 0x0A \<notin> set (encode command) \<and>
        (risk_gated (classify command) \<longrightarrow> accept \<and> tx) \<and> supports_cli_text_mode w) \<and>
     (\<forall>x. r = Inr x \<longrightarrow> rest = [] \<and> c_mode w' = CLI \<and> \<not> r_session_started w')"
proof (cases "cli_permitted command accept tx w")
  case False
  then obtain e where "cli_exec P command timeout accept tx w = (Inl e, w)" using cli_exec_refused by metis
  with assms show ?thesis by - (rule exI [of _ "[]"], auto)
next
  case True
  let ?k = "\<lambda>(output, completed). ret \<lparr>x_output = output, x_completed = completed,
            x_risk = category_text (risk_category (classify command)),
            x_warning = risk_warning (classify command)\<rparr>"
  have run: "bindM (with_lock (cli_exchange P command timeout)) ?k w = (r, w')"
    using assms cli_exec_allowed [OF True] by simp
  have "sends_prefix (cli_writes P command @ []) (bindM (with_lock (cli_exchange P command timeout)) ?k)"
    by (intro sends_prefix_bindM sends_prefix_with_lock cli_exchange_wire)
      (simp add: case_prod_unfold sends_prefix_simple)
  then obtain sent rest where s: "cli_writes P command = sent @ rest" "tx_log w' = tx_log w @ sent"
    "(\<exists>x. r = Inr x) \<longrightarrow> rest = []" using run by (auto elim: sends_prefixD)
  have "c_mode w' = CLI \<and> \<not> r_session_started w'" if "r = Inr x" for x
  proof -
    from run that obtain y where "with_lock (cli_exchange P command timeout) w = (Inr y, w')"
      by (auto simp: ret_def elim!: bindM_InrE)
    then obtain v where "cli_exchange P command timeout (w\<lparr>io_locked := True\<rparr>) = (Inr y, v)"
      and "w' = v\<lparr>io_locked := False\<rparr>"
      by (auto simp: with_lock_def split: if_splits prod.splits)
    with cli_exchange_state show ?thesis by fastforce
  qed
  with s True no_chaining_one_line show ?thesis
    by - (rule exI [of _ sent], rule exI [of _ rest], auto simp: cli_permitted_def)
qed

theorem cli_exec_writes_one_line_witness:
  "\<exists>w'. fst (cli_exec shell ''help'' (seconds 1) False False (sim_cworld USBTransport None [])) =
          Inr \<lparr>x_output = ''ok'', x_completed = True, x_risk = ''benign'', x_warning = None\<rparr> \<and>
        snd (cli_exec shell ''help'' (seconds 1) False False (sim_cworld USBTransport None [])) = w' \<and>
        tx_log w' = cli_writes shell ''help'' \<and> c_mode w' = CLI"
proof -
  let ?run = "cli_exec shell ''help'' (seconds 1) False False (sim_cworld USBTransport None [])"
  have ok: "fst ?run = Inr \<lparr>x_output = ''ok'', x_completed = True, x_risk = ''benign'', x_warning = None\<rparr>"
    by code_simp
  from cli_exec_writes_one_line [OF surjective_pairing, of shell "''help''" "seconds 1" False False
      "sim_cworld USBTransport None []"] ok
  show ?thesis by (auto simp: sim_cworld_def)
qed


section \<open>Reading up to the prompt\<close>





section \<open>Connection\<close>

lemma drain_socket_loop_link: "drain_socket_loop P deadline w = (r, w') \<Longrightarrow> link_frame w w'"
proof (induction P deadline w arbitrary: r w' rule: drain_socket_loop.induct)
  case (1 P deadline w)
  have tick: "link_frame w (w\<lparr>now := Suc (now w)\<rparr>)" by (simp add: link_frame_def io_frame_def)
  obtain r1 w1 where w1: "drain_read P (w\<lparr>now := Suc (now w)\<rparr>) = (r1, w1)" by fastforce
  have l1: "link_frame w w1" using lf.trans [OF tick keepsD [OF drain_read_link w1]] .
  show ?case
  proof (cases "now w < deadline")
    case True
    have "link_frame w1 v" if "sleep 0 w1 = (x, v)" for x v using keepsD [OF sleep_link that] .
    with "1.prems" "1.IH" [OF True w1 [symmetric]] True w1 l1 show ?thesis
      by (auto simp: drain_socket_loop.simps [of P deadline w] split: sum.splits if_splits intro: lf.trans)
  next
    case False
    with "1.prems" tick show ?thesis by (simp add: drain_socket_loop.simps [of P deadline w])
  qed
qed

lemma connect_frames:
  "keeps t_frame (usb_connect P)" "keeps t_frame (wifi_connect P)"
proof -
  note rules = tf.keeps_rules t_modifies sleep_t monotonic_t clear_receive_buffer_t
    link_keeps_t_frame [OF block_io_link] link_keeps_t_frame [OF wait_for_link [OF await_io_link]]
  show "keeps t_frame (usb_connect P)"
    unfolding usb_connect_def set_usb_connected_def by (intro rules)
  have "keeps t_frame (drain_socket_loop P d)" for d
    by (rule link_keeps_t_frame) (blast intro: keepsI drain_socket_loop_link)
  then show "keeps t_frame (wifi_connect P)"
    unfolding wifi_connect_def set_wifi_def drain_socket_buffer_def by (intro rules)
qed

lemma transport_connect_t: "keeps t_frame (transport_connect P)"
proof -
  have "keeps t_frame (auto_connect P)"
    unfolding auto_connect_def auto_select_def set_auto_def
    by (intro tf.keeps_rules t_modifies connect_frames clear_receive_buffer_t)
  with connect_frames show ?thesis
    unfolding keeps_def transport_connect_def by (auto split: transport_class.split)
qed

text \<open>C23: A successful connection starts from a clean slate: a fresh RPC object with no session, no
  recorded failure and no command sent, no cached SD-card state, no error, and an unknown link
  mode.  A failed one keeps the RPC object, the cache and the mode as they were.\<close>

theorem connect_outcome:
  assumes "connect P w = (Inr ok, w')"
  shows "if ok
    then c_connected w' \<and> c_rpc w' \<and> r_command_id w' = 0 \<and> \<not> r_session_started w' \<and> r_last_failure w' = None \<and>
         c_last_error w' = None \<and> c_sd_card w' = None \<and> c_mode w' = UNKNOWN
    else c_connected w' = c_connected w \<and> c_rpc w' = c_rpc w \<and> r_session_started w' = r_session_started w \<and>
         c_sd_card w' = c_sd_card w \<and> c_mode w' = c_mode w"
proof -
  obtain r1 w1 where w1: "transport_connect P w = (r1, w1)" by fastforce
  have t: "t_frame w w1" using keepsD [OF transport_connect_t w1] .
  then have "rworld.more w1 = rworld.more w" "r_session_started w1 = r_session_started w"
    by (simp_all add: t_frame_rpc_fields)
  then have keep: "c_connected w1 = c_connected w \<and> c_rpc w1 = c_rpc w \<and> r_session_started w1 = r_session_started w \<and>
      c_sd_card w1 = c_sd_card w \<and> c_mode w1 = c_mode w"
    by (cases w; cases w1; simp)
  with assms w1 show ?thesis
    by (auto simp: connect_def action_defs set_last_error_def new_rpc_def split: sum.splits if_splits)
qed

theorem connect_outcome_witness:
  "c_rpc (snd (connect shell (sim_cworld USBTransport None []\<lparr>c_mode := CLI, r_session_started := True\<rparr>))) \<and>
   c_mode (snd (connect shell (sim_cworld USBTransport None []\<lparr>c_mode := CLI, r_session_started := True\<rparr>))) = UNKNOWN"
proof -
  let ?run = "connect shell (sim_cworld USBTransport None []\<lparr>c_mode := CLI, r_session_started := True\<rparr>)"
  have "fst ?run = Inr True" by code_simp
  then have "?run = (Inr True, snd ?run)" by (metis surjective_pairing)
  from connect_outcome [OF this] show ?thesis by simp
qed

text \<open>The SD-card answer is asked for once per connection: after a first answer every later call
  returns it without touching the device, whatever RPC calls are made in between.\<close>

theorem sd_card_answer_cached:
  assumes "check_sd_card_available P w = (Inr b, w')" and "keeps r_frame m" and "m w' = (r, w'')"
  shows "check_sd_card_available P w'' = (Inr b, w'')"
proof -
  have "c_sd_card w' = Some b"
    using assms(1)
    by (auto simp: check_sd_card_available_def ret_def get_def thenM_def modify_def elim!: bindM_InrE
        split: option.splits)
  moreover have "rworld.more w'' = rworld.more w'"
    using keepsD [OF assms(2,3)] by (simp add: r_frame_def)
  then have "c_sd_card w'' = c_sd_card w'" by (cases w'; cases w''; simp)
  ultimately show ?thesis by (simp add: check_sd_card_available_def bindM_def get_def ret_def)
qed

definition space_reporter :: "bytes list platform" where
  "space_reporter = sim_platform (\<lambda>_. [7])
     (\<lambda>_. Some \<lparr>command_id = 1, command_status = STATUS_OK, has_next = False,
                content = Response (StorageInfoResponse 1000 10)\<rparr>)
     (\<lambda>_. [[1, 7]])"

theorem sd_card_answer_cached_witness:
  "\<exists>w''. snd (ping space_reporter HEALTH_PROBE (snd (check_sd_card_available space_reporter (sim_cworld WiFiTransport None [])))) = w'' \<and>
         check_sd_card_available space_reporter w'' = (Inr True, w'')"
proof -
  let ?run = "check_sd_card_available space_reporter (sim_cworld WiFiTransport None [])"
  have "fst ?run = Inr True" by code_simp
  then have "?run = (Inr True, snd ?run)" by (metis surjective_pairing)
  from sd_card_answer_cached [OF this ping_r surjective_pairing] show ?thesis by blast
qed

section \<open>Health\<close>

lemma transport_is_connected_pure: "\<exists>b. transport_is_connected P w = (Inr b, w)"
  by (auto simp: transport_is_connected_def usb_is_connected_def wifi_is_connected_def auto_is_connected_def
      action_defs split: transport_class.split option.split link_class.split)

text \<open>The RPC layer echoed the probe of a health check made in \<open>w\<close>, which ended in \<open>w'\<close>.\<close>

definition health_echoed :: "'d platform \<Rightarrow> ('d, 'z) cworld_scheme \<Rightarrow> ('d, 'z) cworld_scheme \<Rightarrow> bool" where
  "health_echoed P w w' \<longleftrightarrow> \<not> io_locked w \<and>
     (\<exists>m v. answered P (PingRequest HEALTH_PROBE) RESPONSE_TIMEOUT (w\<lparr>io_locked := True\<rparr>) m v \<and>
        command_status m = STATUS_OK \<and> field is_PingResponse ping_data m = Some HEALTH_PROBE \<and>
        w' = v\<lparr>io_locked := False\<rparr>)"

lemma probe_health_result:
  fixes w :: "('d, 'z) cworld_scheme"
  assumes "probe_health P tc w = (Inr b, w')"
  shows "b \<longleftrightarrow> tc \<and> c_rpc w \<and> health_echoed P w w'" and "tc \<and> c_rpc w \<and> \<not> b \<Longrightarrow> c_last_error w' \<noteq> None"
proof -
  have "(b \<longleftrightarrow> tc \<and> c_rpc w \<and> health_echoed P w w') \<and> (tc \<and> c_rpc w \<and> \<not> b \<longrightarrow> c_last_error w' \<noteq> None)"
  proof (cases "tc \<and> c_rpc w")
    case False
    with assms show ?thesis by (auto simp: probe_health_def action_defs)
  next
    case True
    obtain r1 w1 where w1: "ping P HEALTH_PROBE w = (r1, w1)" by fastforce
    have "health_echoed P w u \<longleftrightarrow> ping P HEALTH_PROBE w = (Inr (Some HEALTH_PROBE), u)" for u
      by (simp add: health_echoed_def ping_answer)
    with True assms w1 show ?thesis
      by (auto simp: probe_health_def action_defs set_last_error_def split: sum.splits if_splits)
  qed
  then show "b \<longleftrightarrow> tc \<and> c_rpc w \<and> health_echoed P w w'" and "tc \<and> c_rpc w \<and> \<not> b \<Longrightarrow> c_last_error w' \<noteq> None"
    by blast+
qed

text \<open>C24: The health report is what was observed.  It reports the transport as connected exactly when \<open>is_connected\<close>
  of the transport says so in the state in which it is made; the RPC layer as responsive exactly when a probe was asked for, the
  transport was up, an RPC object existed, and the ping made then was answered, with status OK and with the same bytes, in the exchange
  that ends the check; and the client as connected exactly when the transport is and no probe failed.  A probe that found the
  transport up but got no echo leaves an error on record, and without a probe nothing is sent or changed.\<close>

theorem health_report_sound:
  fixes w :: "('d, 'z) cworld_scheme"
  assumes "get_connection_health P probe w = (Inr h, w')"
  shows "transport_is_connected P w = (Inr (h_transport_connected h), w) \<and>
    h_connected h = (h_transport_connected h \<and> h_rpc_responsive h \<noteq> Some False) \<and>
    (h_rpc_responsive h = None \<longleftrightarrow> \<not> probe) \<and> (\<not> probe \<longrightarrow> w' = w) \<and>
    (h_rpc_responsive h = Some True \<longleftrightarrow> probe \<and> h_transport_connected h \<and> c_rpc w \<and> \<not> io_locked w \<and>
       (\<exists>m v. answered P (PingRequest HEALTH_PROBE) RESPONSE_TIMEOUT (w\<lparr>io_locked := True\<rparr>) m v \<and>
          command_status m = STATUS_OK \<and> field is_PingResponse ping_data m = Some HEALTH_PROBE \<and>
          w' = v\<lparr>io_locked := False\<rparr>)) \<and>
    (h_rpc_responsive h = Some False \<and> h_transport_connected h \<and> c_rpc w \<longrightarrow> h_last_error h \<noteq> None)"
proof -
  obtain tc where tc: "transport_is_connected P w = (Inr tc, w)" using transport_is_connected_pure by blast
  show ?thesis
  proof (cases probe)
    case False
    with assms tc show ?thesis by (auto simp: get_connection_health_def action_defs)
  next
    case True
    with assms tc obtain b where run: "probe_health P tc w = (Inr b, w')"
      and h: "h_rpc_responsive h = Some b" "h_connected h = (tc \<and> b)" "h_transport_connected h = tc"
        "h_last_error h = c_last_error w'"
      by (auto simp: get_connection_health_def action_defs split: prod.splits sum.splits)
    define echoed where "echoed \<longleftrightarrow> (\<exists>m v. answered P (PingRequest HEALTH_PROBE) RESPONSE_TIMEOUT (w\<lparr>io_locked := True\<rparr>) m v \<and>
          command_status m = STATUS_OK \<and> field is_PingResponse ping_data m = Some HEALTH_PROBE \<and>
          w' = v\<lparr>io_locked := False\<rparr>)"
    have "b \<longleftrightarrow> tc \<and> c_rpc w \<and> \<not> io_locked w \<and> echoed"
      using probe_health_result(1) [OF run] unfolding health_echoed_def echoed_def by blast
    moreover have "tc \<and> c_rpc w \<and> \<not> b \<longrightarrow> c_last_error w' \<noteq> None" using probe_health_result(2) [OF run] by blast
    ultimately show ?thesis unfolding echoed_def [symmetric] using h tc True by auto
  qed
qed

definition health_echo :: "bytes list platform" where
  "health_echo = sim_platform (\<lambda>_. [7])
     (\<lambda>_. Some \<lparr>command_id = 1, command_status = STATUS_OK, has_next = False,
                content = Response (PingResponse HEALTH_PROBE)\<rparr>)
     (\<lambda>_. [[1, 7]])"

theorem health_report_sound_witness:
  "\<exists>h w'. get_connection_health health_echo True (sim_cworld WiFiTransport None []) = (Inr h, w') \<and>
     h_connected h \<and> h_transport_connected h \<and> h_rpc_responsive h = Some True"
proof -
  let ?run = "get_connection_health health_echo True (sim_cworld WiFiTransport None [])"
  have "(case fst ?run of Inl _ \<Rightarrow> False | Inr h \<Rightarrow> h_connected h)" by code_simp
  then obtain h w' where "?run = (Inr h, w')" "h_connected h"
    by (cases ?run) (auto split: sum.splits)
  with health_report_sound [OF \<open>?run = (Inr h, w')\<close>] show ?thesis by (cases "h_rpc_responsive h") auto
qed

section \<open>Configuration\<close>

text \<open>A configuration that passes validation always yields a transport of the configured kind:
  with WiFi the host is the configured, non-blank one; with USB the explicit port when there is
  one; and the automatic transport considers WiFi exactly when the configuration does.\<close>

theorem valid_config_yields_transport:
  assumes "validate_config c = Inr c'"
  shows "c' = c \<and>
    (case get_transport P d (cfg_transport c) (as_transport_config c) of
       Inl e \<Rightarrow> False
     | Inr (NewUSB u) \<Rightarrow> cfg_transport c = ''usb'' \<and> u_baudrate u = cfg_usb_baudrate c \<and> \<not> u_connected u \<and>
         (\<forall>p. cfg_usb_port c = Some p \<and> p \<noteq> [] \<longrightarrow> u_port u = p)
     | Inr (NewWiFi t) \<Rightarrow> cfg_transport c = ''wifi'' \<and> cfg_wifi_host c = Some (w_host t) \<and>
         strip (w_host t) \<noteq> [] \<and> w_port t = cfg_wifi_port c \<and> \<not> w_connected t
     | Inr (NewAuto a) \<Rightarrow> cfg_transport c = ''auto'' \<and> wifi_is_configured a = wifi_configured c \<and> \<not> a_connected a)"
proof -
  have c': "c' = c" and kind: "cfg_transport c = ''auto'' \<or> cfg_transport c = ''usb'' \<or> cfg_transport c = ''wifi''"
    and host: "cfg_transport c = ''wifi'' \<Longrightarrow> wifi_configured c"
    using assms by (auto simp: validate_config_def split: if_splits)
  from kind show ?thesis
  proof (elim disjE)
    assume "cfg_transport c = ''auto''"
    then show ?thesis
      by (simp add: c' get_transport_def lower_types wifi_configured_auto) (simp add: auto_new_def)
  next
    assume "cfg_transport c = ''usb''"
    then show ?thesis
      by (auto simp: c' get_transport_def lower_types usb_new_def as_transport_config_def truthy_def)
  next
    assume "cfg_transport c = ''wifi''"
    with host show ?thesis
      by (auto simp: c' get_transport_def lower_types wifi_new_def as_transport_config_def truthy_def
          wifi_configured_def split: option.splits)
  qed
qed


theorem valid_config_yields_transport_witness:
  "\<exists>t. get_transport shell [] ''wifi'' (as_transport_config
         (default_config\<lparr>cfg_transport := ''wifi'', cfg_wifi_host := Some ''flipper''\<rparr>)) = Inr (NewWiFi t) \<and>
       w_host t = ''flipper''"
proof -
  let ?c = "default_config\<lparr>cfg_transport := ''wifi'', cfg_wifi_host := Some ''flipper''\<rparr>"
  have "validate_config ?c = Inr ?c" by code_simp
  from valid_config_yields_transport [OF this, of shell "[]"] show ?thesis
    by (auto simp: default_config_def split: sum.splits transport_object.splits)
qed


section \<open>Where the code and its documentation part\<close>

text \<open>No word of a rule holds a control character, so a line whose first word holds one is under no rule.\<close>

lemma rule_words_printable: "list_all (\<lambda>(ps, c). ps \<noteq> [] \<and> list_all (\<lambda>x. 32 \<le> code x) (hd ps)) RULE_WORDS"
  by code_simp

lemma first_rule_None:
  assumes "list_all (\<lambda>(ps, c). ps \<noteq> [] \<and> list_all (\<lambda>x. 32 \<le> code x) (hd ps)) rules"
    and "x \<in> set u" and "code x < 32"
  shows "first_rule rules (u # us) = None"
  using assms(1)
proof (induction rules)
  case (Cons rule rules)
  obtain ps c where rule: "rule = (ps, c)" by (cases rule)
  with Cons.prems obtain q qs where ps: "ps = q # qs" "list_all (\<lambda>x. 32 \<le> code x) q" by (cases ps) auto
  with assms(2,3) have "u \<noteq> q" by (auto simp: list_all_iff)
  with Cons rule ps show ?case by simp
qed simp

lemma lower_char_control: "code c < 32 \<Longrightarrow> lower_char c = c"
  by (simp add: lower_char_def)

lemma control_word_ungated:
  assumes c: "code c < 32" "\<not> py_space c" and "\<forall>x \<in> set p. \<not> py_space x"
  shows "\<not> risk_gated (classify (p @ c # command))"
proof -
  let ?s = "lower (p @ c # command)"
  let ?u = "takeWhile (\<lambda>x. \<not> py_space x) ?s"
  have s: "?s = lower p @ c # lower command" using lower_char_control [OF c(1)] by (simp add: lower_def)
  have p: "\<forall>x \<in> set (lower p). \<not> py_space x" using assms(3) by (simp add: lower_def)
  have "dropWhile py_space ?s = ?s" using p c(2) by (cases "lower p") (simp_all add: s)
  then have "words (p @ c # command) = ?u # split_ws (dropWhile (\<lambda>x. \<not> py_space x) ?s)"
    using split_ws_step [of ?s ?s] by (simp add: words_def s)
  moreover have "c \<in> set ?u" using p c(2) by (simp add: s)
  ultimately show ?thesis
    using first_rule_None [OF rule_words_printable _ c(1)] by (simp add: classify_words)
qed

text \<open>C35: A control character passes both checks: put in front of any command line, after a first word or none, it makes the
  line one that no rule matches, whatever the command.  On a connected text-mode link such a line (a Ctrl-C, on which the
  device's line editor acts, and then a transmit command) is exchanged without the flag and without the acceptance: what the
  call does is the exchange of the whole line, and a call that returns has written it.  The same command without the control
  character, if a rule matches it, is refused.\<close>

theorem control_bytes_pass_the_gate:
  assumes "code c < 32" and "\<not> py_space c" and "\<forall>x \<in> set p. \<not> py_space x"
    and "\<not> (\<exists>token \<in> set SHELL_CHAINING. str_in token (p @ c # command))"
    and "c_rpc w" and "supports_cli_text_mode w"
  shows "cli_exec P (p @ c # command) timeout False False w =
           bindM (with_lock (cli_exchange P (p @ c # command) timeout))
             (\<lambda>(output, completed). ret \<lparr>x_output = output, x_completed = completed, x_risk = ''benign'', x_warning = None\<rparr>) w \<and>
         (\<forall>x w'. cli_exec P (p @ c # command) timeout False False w = (Inr x, w') \<longrightarrow>
            tx_log w' = tx_log w @ cli_writes P (p @ c # command)) \<and>
         (risk_gated (classify command) \<longrightarrow>
            (\<exists>e. cli_exec P command timeout accept False w = (Inl e, w) \<and> is_cli_refusal e))"
proof (intro conjI allI impI)
  let ?line = "p @ c # command"
  have benign: "classify ?line = \<lparr>risk_category = Benign, risk_gated = False, risk_warning = None\<rparr>"
    using control_word_ungated [OF assms(1-3), of command] by (auto simp: classify_words split: option.splits)
  then have allowed: "cli_permitted ?line False False w" using assms(4-6) by (simp add: cli_permitted_def)
  show "cli_exec P ?line timeout False False w = bindM (with_lock (cli_exchange P ?line timeout))
      (\<lambda>(output, completed). ret \<lparr>x_output = output, x_completed = completed, x_risk = ''benign'', x_warning = None\<rparr>) w"
    by (simp add: cli_exec_allowed [OF allowed] benign)
  show "tx_log w' = tx_log w @ cli_writes P ?line" if "cli_exec P ?line timeout False False w = (Inr x, w')" for x w'
    using cli_exec_written [OF that] .
  show "\<exists>e. cli_exec P command timeout accept False w = (Inl e, w) \<and> is_cli_refusal e" if "risk_gated (classify command)"
    by (rule cli_exec_refused) (simp add: cli_permitted_def that)
qed

theorem control_bytes_pass_the_gate_witness:
  "tx_log (snd (cli_exec shell (''x'' @ CHR 0x03 # ''subghz tx 1'') (seconds 1) False False (sim_cworld USBTransport None []))) =
     [framed [7], CTRL_C_CR, encode ''x'' @ [0x03] @ encode ''subghz tx 1'' @ [0x0D]] \<and>
   (\<exists>e. cli_exec shell ''subghz tx 1'' (seconds 1) True False (sim_cworld USBTransport None []) =
          (Inl e, sim_cworld USBTransport None []) \<and> is_cli_refusal e)"
proof -
  let ?w = "sim_cworld USBTransport None []"
  let ?run = "cli_exec shell (''x'' @ CHR 0x03 # ''subghz tx 1'') (seconds 1) False False ?w"
  have "case fst ?run of Inl _ \<Rightarrow> False | Inr _ \<Rightarrow> True" by code_simp
  then obtain x where run: "?run = (Inr x, snd ?run)" by (cases ?run) (auto split: sum.splits)
  have "risk_gated (classify ''subghz tx 1'')" by code_simp
  moreover have "code CHR 0x03 < 32" "\<not> py_space CHR 0x03" "\<forall>x \<in> set ''x''. \<not> py_space x"
    "\<not> (\<exists>token \<in> set SHELL_CHAINING. str_in token (''x'' @ CHR 0x03 # ''subghz tx 1''))" by code_simp+
  moreover have "c_rpc ?w" "supports_cli_text_mode ?w" by (simp_all add: sim_cworld_def supports_cli_text_mode_def)
  ultimately have "tx_log (snd ?run) = tx_log ?w @ cli_writes shell (''x'' @ CHR 0x03 # ''subghz tx 1'') \<and>
      (\<exists>e. cli_exec shell ''subghz tx 1'' (seconds 1) True False ?w = (Inl e, ?w) \<and> is_cli_refusal e)"
    using control_bytes_pass_the_gate [of "CHR 0x03" "''x''" "''subghz tx 1''" ?w shell "seconds 1" True] run by blast
  moreover have "cli_writes shell (''x'' @ CHR 0x03 # ''subghz tx 1'') =
      [framed [7], CTRL_C_CR, encode ''x'' @ [0x03] @ encode ''subghz tx 1'' @ [0x0D]]" by code_simp
  ultimately show ?thesis by (simp add: sim_cworld_def)
qed

text \<open>A write to an open bridge is on the log, whether it succeeds or not.\<close>

lemma auto_wifi_send:
  fixes w :: "('d, 'z) tworld_scheme"
  assumes "t_class w = AutoTransport" and "a_active (t_auto w) = Some WiFi" and "w_writer (t_wifi w)"
  shows "transport_send P data w = wifi_send P data w" and "tx_log (snd (transport_send P data w)) = tx_log w @ [data]"
proof -
  show wifi: "transport_send P data w = wifi_send P data w"
    using assms(1,2) by (simp add: transport_send_def auto_send_def action_defs)
  obtain r v where v: "await_io (tcp_write P data) (snd (log_tx data w)) = (r, v)" by fastforce
  then have "tx_log v = tx_log w @ [data]" by (auto dest: await_io_log simp: log_tx_def modify_def)
  with v show "tx_log (snd (transport_send P data w)) = tx_log w @ [data]"
    unfolding wifi using assms(3) by (simp add: wifi_send_def thenM_def bindM_def get_def log_tx_def modify_def)
qed

text \<open>C38: The automatic transport claims a text mode whatever it selected: with the WiFi bridge active, which only speaks RPC,
  every CLI command that the other checks let pass goes out to the bridge: at least the first of its three writes, and all of
  them if the call returns.  On the WiFi transport itself the same command is refused as unavailable and nothing
  happens.\<close>

theorem auto_over_wifi_is_not_refused:
  fixes w :: "('d, 'z) cworld_scheme"
  assumes "t_class w = AutoTransport" and "a_active (t_auto w) = Some WiFi" and "w_writer (t_wifi w)"
    and "c_rpc w" and "\<not> io_locked w"
    and "\<not> (\<exists>token \<in> set SHELL_CHAINING. str_in token command)" and "risk_gated (classify command) \<longrightarrow> accept \<and> tx"
  shows "get_name w = ''WiFi'' \<and> transport_send P data w = wifi_send P data w \<and>
    (\<exists>r w' sent rest. cli_exec P command timeout accept tx w = (r, w') \<and> cli_writes P command = sent @ rest \<and>
       sent \<noteq> [] \<and> tx_log w' = tx_log w @ sent \<and> (\<forall>x. r = Inr x \<longrightarrow> rest = [])) \<and>
    cli_exec P command timeout accept tx (w\<lparr>t_class := WiFiTransport\<rparr>) =
      (Inl (FlipperCLIUnavailableError ''CLI text mode unavailable over WiFi bridge''), w\<lparr>t_class := WiFiTransport\<rparr>)"
proof -
  let ?frame = "framed (serialize P (main_request 0 False StopSession))" and ?w = "w\<lparr>io_locked := True\<rparr>"
  have allowed: "cli_permitted command accept tx w"
    using assms by (simp add: cli_permitted_def supports_cli_text_mode_def)
  obtain more :: "(('d, 'z) cworld_scheme, string \<times> bool) action" where more: "cli_exchange P command timeout = thenM (transport_send P ?frame) more"
    "sends_prefix [CTRL_C_CR, encode command @ [0x0D]] more" by (rule cli_exchange_begin)
  obtain r1 v1 where v1: "transport_send P ?frame ?w = (r1, v1)" by fastforce
  have log1: "tx_log v1 = tx_log w @ [?frame]" using auto_wifi_send(2) [of ?w P ?frame] assms(1-3) v1 by simp
  obtain r2 v2 where v2: "cli_exchange P command timeout ?w = (r2, v2)" by fastforce
  have "\<exists>sent rest. [CTRL_C_CR, encode command @ [0x0D]] = sent @ rest \<and> tx_log v2 = tx_log v1 @ sent \<and>
      ((\<exists>x. r2 = Inr x) \<longrightarrow> rest = [])"
  proof (cases r1)
    case (Inl e)
    have "r2 = Inl e" and "v2 = v1" using v1 v2 Inl more(1) by (simp_all add: thenM_def bindM_def)
    then show ?thesis by simp
  next
    case (Inr u)
    with v1 v2 more(1) have "more v1 = (r2, v2)" by (simp add: thenM_def bindM_def)
    with more(2) show ?thesis unfolding sends_prefix_def by blast
  qed
  then obtain sent rest where sent: "[CTRL_C_CR, encode command @ [0x0D]] = sent @ rest" "tx_log v2 = tx_log v1 @ sent"
    "(\<exists>x. r2 = Inr x) \<longrightarrow> rest = []" by blast
  obtain r w' where run: "cli_exec P command timeout accept tx w = (r, w')" by fastforce
  then have "tx_log w' = tx_log w @ ?frame # sent" and "r = Inr x \<Longrightarrow> \<exists>y. r2 = Inr y" for x
    using v2 sent(2) log1 assms(5)
    by (auto simp: cli_exec_allowed [OF allowed] bindM_def with_lock_def case_prod_unfold ret_def split: sum.splits)
  moreover have "cli_writes P command = (?frame # sent) @ rest" using sent(1) by (simp add: cli_writes_def)
  ultimately have "\<exists>r w' sent rest. cli_exec P command timeout accept tx w = (r, w') \<and> cli_writes P command = sent @ rest \<and>
       sent \<noteq> [] \<and> tx_log w' = tx_log w @ sent \<and> (\<forall>x. r = Inr x \<longrightarrow> rest = [])"
    using run sent(3) by blast
  moreover have "cli_exec P command timeout accept tx (w\<lparr>t_class := WiFiTransport\<rparr>) =
      (Inl (FlipperCLIUnavailableError ''CLI text mode unavailable over WiFi bridge''), w\<lparr>t_class := WiFiTransport\<rparr>)"
    using assms(4) by (simp add: cli_exec_def action_defs supports_cli_text_mode_def)
  moreover have "get_name w = ''WiFi''" using assms(1,2) by (simp add: get_name_def)
  ultimately show ?thesis using auto_wifi_send(1) [OF assms(1-3)] by blast
qed

theorem auto_over_wifi_is_not_refused_witness:
  "\<exists>r w' sent rest. cli_exec shell ''help'' (seconds 1) False False (sim_cworld AutoTransport (Some WiFi) []) = (r, w') \<and>
     cli_writes shell ''help'' = sent @ rest \<and> sent \<noteq> [] \<and> tx_log w' = sent"
proof -
  let ?w = "sim_cworld AutoTransport (Some WiFi) []"
  have "t_class ?w = AutoTransport" "a_active (t_auto ?w) = Some WiFi" "w_writer (t_wifi ?w)" "c_rpc ?w" "\<not> io_locked ?w"
    by (simp_all add: sim_cworld_def sim_auto_def sim_wifi_def)
  moreover have "\<not> (\<exists>token \<in> set SHELL_CHAINING. str_in token ''help'')" "risk_gated (classify ''help'') \<longrightarrow> False \<and> False"
    by code_simp+
  ultimately have "\<exists>r w' sent rest. cli_exec shell ''help'' (seconds 1) False False ?w = (r, w') \<and>
     cli_writes shell ''help'' = sent @ rest \<and> sent \<noteq> [] \<and> tx_log w' = tx_log ?w @ sent"
    using auto_over_wifi_is_not_refused [of ?w "''help''" False False shell "[]" "seconds 1"] by blast
  then show ?thesis by (simp add: sim_cworld_def)
qed

text \<open>An answered call that leaves no failure on record has started a session.\<close>

lemma ensure_session:
  assumes "ensure_rpc_session_started P w = (Inr u, w')" and "r_last_failure w' = None"
  shows "r_session_started w'"
proof (cases "r_session_started w")
  case True
  with assms show ?thesis by (simp add: ensure_started)
next
  case no: False
  show ?thesis
  proof (cases "is_wifi_transport w")
    case False
    from ensure_outcome [OF assms(1) no False] assms(2) show ?thesis by (auto split: if_splits)
  next
    case True
    from assms(1) no show ?thesis
      using begin_session_wifi True assms(2) by (cases rule: ensure_cases) (auto simp: is_wifi_transport_iff)
  qed
qed

lemma answered_session:
  assumes "answered P c t w m w'" and "r_last_failure w' = None"
  shows "r_session_started w'"
proof -
  from assms(1) obtain w1 w2 v msg where e: "ensure_rpc_session_started P v = (Inr (), w1)"
    and s: "send_message P msg w1 = (Inr (), w2)" and m: "receive_main_message P t w2 = (Inr (Some m), w')"
    unfolding answered_def by blast
  note kept = t_frame_rpc_fields(2,3) [OF keepsD [OF send_message_t s]] t_frame_rpc_fields(2,3) [OF keepsD [OF receive_main_message_t m]]
  with ensure_session [OF e] assms(2) show ?thesis by simp
qed

lemma enter_cli_result:
  assumes "enter_cli P w = (Inr mode, w')" and "c_rpc w"
  shows "mode = CLI \<and> c_mode w' = CLI \<and> \<not> r_session_started w'"
proof -
  have "bindM (with_lock (thenM (send_stop_session P) (set_mode CLI))) (\<lambda>_. get c_mode) w = (Inr mode, w')"
    using assms unfolding enter_cli_def thenM_def by (simp add: bindM_def get_def)
  then obtain y where l: "with_lock (thenM (send_stop_session P) (set_mode CLI)) w = (Inr y, w')" and m: "mode = c_mode w'"
    by (auto simp: get_def elim: bindM_InrE)
  from l obtain v where v: "thenM (send_stop_session P) (set_mode CLI) (w\<lparr>io_locked := True\<rparr>) = (Inr y, v)"
    and w': "w' = v\<lparr>io_locked := False\<rparr>"
    by (auto simp: with_lock_def split: if_splits prod.splits)
  from v obtain u where "v = u\<lparr>c_mode := CLI\<rparr>" and "\<not> r_session_started u"
    by (auto simp: thenM_def send_stop_session_def set_mode_def set_session_def modify_def elim!: bindM_InrE)
  with w' m show ?thesis by simp
qed

text \<open>C39: The recorded link mode is not the mode of the device.  Entering RPC mode while a failed negotiation cools down
  writes nothing and starts no session, and still records and returns RPC; and after the CLI was entered a ping leaves CLI on
  record, also when it was answered in the RPC session that it started.\<close>

theorem link_mode_is_not_the_device_mode:
  fixes w :: "('d, 'z) cworld_scheme"
  assumes "c_rpc w" and "\<not> io_locked w"
  shows "(\<not> r_session_started w \<and> r_last_failure w = Some f \<and> now w < f + NEGOTIATION_COOLDOWN \<longrightarrow>
            enter_rpc P w = (Inr RPC, w\<lparr>now := Suc (now w), c_mode := RPC\<rparr>)) \<and>
         (\<forall>mode w1 r w2. enter_cli P w = (Inr mode, w1) \<and> ping P data w1 = (r, w2) \<longrightarrow>
            mode = CLI \<and> \<not> r_session_started w1 \<and> c_mode w2 = CLI \<and>
            (\<forall>x. r = Inr (Some x) \<and> r_last_failure w2 = None \<longrightarrow> r_session_started w2))"
proof (intro conjI allI impI; (elim conjE)?)
  assume "\<not> r_session_started w" "r_last_failure w = Some f" "now w < f + NEGOTIATION_COOLDOWN"
  then have "ensure_rpc_session_started P (w\<lparr>io_locked := True\<rparr>) = (Inr (), w\<lparr>io_locked := True, now := Suc (now w)\<rparr>)"
    by (subst ensure_cooldown) simp_all
  with assms show "enter_rpc P w = (Inr RPC, w\<lparr>now := Suc (now w), c_mode := RPC\<rparr>)"
    by (simp add: enter_rpc_def with_lock_def thenM_def bindM_def get_def set_mode_def modify_def)
next
  fix mode w1 r w2 x
  assume cli: "enter_cli P w = (Inr mode, w1)" and ping: "ping P data w1 = (r, w2)"
  note cli' = enter_cli_result [OF cli assms(1)]
  then show "mode = CLI" and "\<not> r_session_started w1" by blast+
  have "c_mode w1 = CLI" using cli' by blast
  moreover have "rworld.more w2 = rworld.more w1" using keepsD [OF ping_r ping] by (simp add: r_frame_def)
  then have "c_mode w2 = c_mode w1" by (cases w1; cases w2; simp)
  ultimately show "c_mode w2 = CLI" by simp
  assume "r = Inr (Some x)" and "r_last_failure w2 = None"
  then show "r_session_started w2" using ping by (auto simp: ping_answer dest: answered_session)
qed

theorem link_mode_is_not_the_device_mode_witness:
  "\<exists>w1 w2. enter_cli talking (sim_cworld USBTransport None []) = (Inr CLI, w1) \<and> \<not> r_session_started w1 \<and>
     ping talking PROBE w1 = (Inr (Some PROBE), w2) \<and> r_session_started w2 \<and> c_mode w2 = CLI"
proof -
  let ?w = "sim_cworld USBTransport None []"
  obtain r1 w1 where w1: "enter_cli talking ?w = (r1, w1)" by fastforce
  obtain r2 w2 where w2: "ping talking PROBE w1 = (r2, w2)" by fastforce
  have "case enter_cli talking ?w of (r, w) \<Rightarrow>
      r = Inr CLI \<and> (case ping talking PROBE w of (r', w') \<Rightarrow> r' = Inr (Some PROBE) \<and> r_last_failure w' = None)"
    by code_simp
  with w1 w2 have ok: "r1 = Inr CLI" "r2 = Inr (Some PROBE)" "r_last_failure w2 = None" by simp_all
  have "c_rpc ?w" "\<not> io_locked ?w" by (simp_all add: sim_cworld_def)
  from link_mode_is_not_the_device_mode [OF this, of undefined talking PROBE] w1 w2 ok show ?thesis by auto
qed

end
