(* ===== verification/Installer_Trace.thy ===== *)
theory Installer_Trace
  imports Installer
begin

text \<open>
  The installer observed from outside: every operation of the RPC protocol is wrapped so that it
  notes what it was asked and answered.  The wrapped run is the run itself (\<open>traces\<close>), and a
  small calculus (\<open>emits\<close>) derives what its record may look like.
\<close>

section \<open>Events\<close>

datatype event =
    Asked dict
  | Made string bool
  | Wrote string bytes bool
  | Md5 string "string option"
  | Stat string "entry option"
  | Updated string nat
  | Rebooting
  | Slept nat
  | Resynced

type_synonym 's traced = "'s \<times> event list"

definition note_result :: "('a \<Rightarrow> event) \<Rightarrow> ('s, 'a) action \<Rightarrow> ('s traced, 'a) action" where
  "note_result f m st =
     (case m (fst st) of
        (Inl e, s') \<Rightarrow> (Inl e, (s', snd st))
      | (Inr x, s') \<Rightarrow> (Inr x, (s', snd st @ [f x])))"

text \<open>A reboot is noted when it is attempted, whatever comes of it.\<close>

definition note_call :: "'e \<Rightarrow> ('s, 'a) action \<Rightarrow> ('s \<times> 'e list, 'a) action" where
  "note_call ev m st = (case m (fst st) of (r, s') \<Rightarrow> (r, (s', snd st @ [ev])))"

definition watched :: "'s rpc_like \<Rightarrow> 's traced rpc_like" where
  "watched rpc =
     \<lparr>rl_get_device_info = note_result Asked (rl_get_device_info rpc),
      rl_storage_mkdir = (\<lambda>p. note_result (Made p) (rl_storage_mkdir rpc p)),
      rl_storage_write = (\<lambda>p d. note_result (Wrote p d) (rl_storage_write rpc p d)),
      rl_storage_md5sum = (\<lambda>p. note_result (Md5 p) (rl_storage_md5sum rpc p)),
      rl_storage_stat = (\<lambda>p. note_result (Stat p) (rl_storage_stat rpc p)),
      rl_system_update = (\<lambda>p. note_result (Updated p) (rl_system_update rpc p)),
      rl_system_reboot_update = note_call Rebooting (rl_system_reboot_update rpc),
      rl_sleep = (\<lambda>t. note_result (\<lambda>_. Slept t) (rl_sleep rpc t))\<rparr>"

definition watched_resync :: "('s, unit) action option \<Rightarrow> ('s traced, unit) action option" where
  "watched_resync = map_option (note_result (\<lambda>_. Resynced))"

section \<open>Watching does not interfere\<close>

definition traces :: "('s, 'a) action \<Rightarrow> ('s \<times> 'e list, 'a) action \<Rightarrow> bool" where
  "traces m m' \<longleftrightarrow> (\<forall>s t. fst (m' (s, t)) = fst (m s) \<and> fst (snd (m' (s, t))) = snd (m s))"

lemma tracesD: "traces m m' \<Longrightarrow> m' (s, t) = (r, (s', t')) \<Longrightarrow> m s = (r, s')"
  unfolding traces_def by (metis fst_conv snd_conv surjective_pairing)

lemma tracesE:
  assumes "traces m m'"
  obtains t' where "m' (s, t) = (fst (m s), (snd (m s), t'))"
  using assms unfolding traces_def by (metis surjective_pairing)

lemma traces_basic: "traces (ret x) (ret x)" "traces (raise e) (raise e)"
  by (simp_all add: traces_def ret_def raise_def)

lemma traces_note: "traces m (note_result f m)" "traces m (note_call ev m)"
  by (auto simp: traces_def note_result_def note_call_def split: prod.split sum.split)

lemma traces_bindM:
  assumes m: "traces m m'" and k: "\<And>x. traces (k x) (k' x)"
  shows "traces (bindM m k) (bindM m' k')"
  unfolding traces_def
proof (intro allI)
  fix s t
  obtain t' where m': "m' (s, t) = (fst (m s), (snd (m s), t'))" using m by (rule tracesE)
  obtain r s1 where r: "m s = (r, s1)" by fastforce
  show "fst (bindM m' k' (s, t)) = fst (bindM m k s) \<and> fst (snd (bindM m' k' (s, t))) = snd (bindM m k s)"
    using m' r k by (cases r) (auto simp: bindM_def traces_def)
qed

lemma traces_thenM: "traces m m' \<Longrightarrow> traces k k' \<Longrightarrow> traces (thenM m k) (thenM m' k')"
  by (simp add: thenM_def traces_bindM)

lemma traces_try:
  assumes m: "traces m m'" and h: "\<And>e. traces (h e) (h' e)"
  shows "traces (try_except p m h) (try_except p m' h')"
  unfolding traces_def
proof (intro allI)
  fix s t
  obtain t' where m': "m' (s, t) = (fst (m s), (snd (m s), t'))" using m by (rule tracesE)
  obtain r s1 where r: "m s = (r, s1)" by fastforce
  show "fst (try_except p m' h' (s, t)) = fst (try_except p m h s) \<and>
      fst (snd (try_except p m' h' (s, t))) = snd (try_except p m h s)"
    using m' r h by (cases r) (auto simp: try_except_def traces_def)
qed

lemma traces_if: "traces m m' \<Longrightarrow> traces n n' \<Longrightarrow> traces (if b then m else n) (if b then m' else n')"
  by simp

lemma watched_simps [simp]:
  "rl_get_device_info (watched rpc) = note_result Asked (rl_get_device_info rpc)"
  "rl_storage_mkdir (watched rpc) p = note_result (Made p) (rl_storage_mkdir rpc p)"
  "rl_storage_write (watched rpc) p d = note_result (Wrote p d) (rl_storage_write rpc p d)"
  "rl_storage_md5sum (watched rpc) p = note_result (Md5 p) (rl_storage_md5sum rpc p)"
  "rl_storage_stat (watched rpc) p = note_result (Stat p) (rl_storage_stat rpc p)"
  "rl_system_update (watched rpc) p = note_result (Updated p) (rl_system_update rpc p)"
  "rl_system_reboot_update (watched rpc) = note_call Rebooting (rl_system_reboot_update rpc)"
  "rl_sleep (watched rpc) t = note_result (\<lambda>_. Slept t) (rl_sleep rpc t)"
  by (simp_all add: watched_def)

lemmas traces_rules = traces_basic traces_note traces_bindM traces_thenM traces_try traces_if

text \<open>Whatever is noted of the operations, and however, the installer runs as it does unobserved.\<close>

locale observed_installer =
  fixes rpc :: "'s rpc_like" and resync :: "('s, unit) action option"
    and seen :: "('s \<times> 'e list) rpc_like" and seen_resync :: "('s \<times> 'e list, unit) action option"
  assumes info_traces: "traces (rl_get_device_info rpc) (rl_get_device_info seen)"
    and mkdir_traces: "traces (rl_storage_mkdir rpc p) (rl_storage_mkdir seen p)"
    and write_traces: "traces (rl_storage_write rpc p d) (rl_storage_write seen p d)"
    and md5sum_traces: "traces (rl_storage_md5sum rpc p) (rl_storage_md5sum seen p)"
    and stat_traces: "traces (rl_storage_stat rpc p) (rl_storage_stat seen p)"
    and update_traces: "traces (rl_system_update rpc p) (rl_system_update seen p)"
    and reboot_traces: "traces (rl_system_reboot_update rpc) (rl_system_reboot_update seen)"
    and sleep_traces: "traces (rl_sleep rpc t) (rl_sleep seen t)"
    and resync_traces: "rel_option traces resync seen_resync"
begin

lemmas op_traces = traces_rules info_traces mkdir_traces write_traces md5sum_traces stat_traces update_traces reboot_traces
  sleep_traces

lemma reconnect_traces:
  "traces (case resync of Some m \<Rightarrow> m | None \<Rightarrow> ret ()) (case seen_resync of Some m \<Rightarrow> m | None \<Rightarrow> ret ())"
  using resync_traces by (cases resync; cases seen_resync) (simp_all add: traces_basic)

lemma check_md5_traces: "traces (check_md5_loop rpc p e k) (check_md5_loop seen p e k)"
proof (induction k)
  case 0
  show ?case by (simp add: traces_basic)
next
  case (Suc k)
  show ?case unfolding check_md5_loop.simps by (intro op_traces Suc.IH)
qed

lemma verify_traces: "traces (verify_written rpc p d e) (verify_written seen p d e)"
  unfolding verify_written_def check_size_def check_md5_def by (intro op_traces check_md5_traces)

lemma push_loop_traces: "traces (push_loop rpc resync p d k w ew st) (push_loop seen seen_resync p d k w ew st)"
proof (induction k arbitrary: w ew st)
  case 0
  show ?case
    unfolding push_loop.simps [of rpc resync p d 0 w ew st] push_loop.simps [of seen seen_resync p d 0 w ew st]
      push_write_def push_verify_def nat.case prod.case
    by (intro op_traces verify_traces)
next
  case (Suc k)
  have again: "traces
      (case resync of None \<Rightarrow> raise e | Some m \<Rightarrow> thenM m (thenM (rl_sleep rpc t) (push_loop rpc resync p d k w' ew' st')))
      (case seen_resync of None \<Rightarrow> raise e
       | Some m \<Rightarrow> thenM m (thenM (rl_sleep seen t) (push_loop seen seen_resync p d k w' ew' st')))" for e t w' ew' st'
    using Suc.IH [of w' ew' st'] resync_traces
    by (cases resync; cases seen_resync) (auto intro!: op_traces)
  show ?case
    unfolding push_loop.simps [of rpc resync p d "Suc k" w ew st] push_loop.simps [of seen seen_resync p d "Suc k" w ew st]
      push_write_def push_verify_def nat.case prod.case
    by (intro op_traces verify_traces again)
qed

lemma trigger_loop_traces: "traces (trigger_loop rpc resync p k) (trigger_loop seen seen_resync p k)"
proof (induction k)
  case 0
  show ?case
    unfolding trigger_loop.simps [of rpc resync p 0] trigger_loop.simps [of seen seen_resync p 0] nat.case
    by (intro op_traces)
next
  case (Suc k)
  show ?case
    unfolding trigger_loop.simps [of rpc resync p "Suc k"] trigger_loop.simps [of seen seen_resync p "Suc k"] nat.case
    by (intro op_traces reconnect_traces Suc.IH)
qed

lemma push_files_traces: "traces (push_files rpc resync dir fs) (push_files seen seen_resync dir fs)"
proof (induction fs)
  case Nil
  show ?case by (simp add: traces_basic)
next
  case (Cons f fs)
  then show ?case
    by (cases f) (auto simp: Let_def push_file_def intro!: op_traces push_loop_traces)
qed

lemma install_traces: "traces (install_bundle rpc b pkg resync) (install_bundle seen b pkg seen_resync)"
  unfolding install_bundle_def Let_def trigger_update_def
  by (intro op_traces push_files_traces trigger_loop_traces)

end

interpretation watched: observed_installer rpc resync "watched rpc" "watched_resync resync" for rpc resync
  by unfold_locales (simp_all add: traces_note watched_resync_def option.rel_map option.rel_refl)

end
