(* ===== verification/Installer_Spec.thy ===== *)
theory Installer_Spec
  imports Installer_Trace
begin

text \<open>
  What an installation may look like from outside: a calculus for the record of a watched run,
  the specification \<open>installed\<close> of a record that ends in a reboot, and the contract of the RPC
  protocol under which the installer fails with \<^verbatim>\<open>FlashError\<close> only.
\<close>

section \<open>The record of a run\<close>

text \<open>\<open>emits Q m\<close>: whatever happened before, the run of \<open>m\<close> adds to the record, and its outcome and
  what it added satisfy \<open>Q\<close>.  The rules compute the weakest condition from the outside in.\<close>

definition emits :: "(exn + 'a \<Rightarrow> event list \<Rightarrow> bool) \<Rightarrow> ('s traced, 'a) action \<Rightarrow> bool" where
  "emits Q m \<longleftrightarrow> (\<forall>s t. \<exists>ev. snd (snd (m (s, t))) = t @ ev \<and> Q (fst (m (s, t))) ev)"

lemma emitsE:
  assumes "emits Q m"
  obtains r s' ev where "m (s, t) = (r, (s', t @ ev))" and "Q r ev"
  using assms unfolding emits_def by (metis prod.collapse)

lemma emitsI: "(\<And>s t. \<exists>r s' ev. m (s, t) = (r, (s', t @ ev)) \<and> Q r ev) \<Longrightarrow> emits Q m"
  unfolding emits_def by (metis fst_conv snd_conv)

lemma emits_run: "emits Q m \<Longrightarrow> m (s, []) = (r, (s', ev)) \<Longrightarrow> Q r ev"
  unfolding emits_def by (metis append_Nil fst_conv snd_conv)

lemma emits_mono: "emits Q m \<Longrightarrow> (\<And>r ev. Q r ev \<Longrightarrow> Q' r ev) \<Longrightarrow> emits Q' m"
  unfolding emits_def by blast

lemma emits_ret: "Q (Inr x) [] \<Longrightarrow> emits Q (ret x)"
  by (simp add: emits_def ret_def)

lemma emits_raise: "Q (Inl e) [] \<Longrightarrow> emits Q (raise e)"
  by (simp add: emits_def raise_def)

lemma emits_note_result:
  "(\<And>e. Q (Inl e) []) \<Longrightarrow> (\<And>x. Q (Inr x) [f x]) \<Longrightarrow> emits Q (note_result f m)"
  by (rule emitsI) (auto simp: note_result_def split: prod.split sum.split)

lemma emits_note_call: "(\<And>r. Q r [ev]) \<Longrightarrow> emits Q (note_call ev m)"
  by (rule emitsI) (auto simp: note_call_def split: prod.split)

lemma emits_bindM:
  assumes "emits (\<lambda>r ev. case r of Inl e \<Rightarrow> Q (Inl e) ev | Inr x \<Rightarrow> emits (\<lambda>r ev'. Q r (ev @ ev')) (k x)) m"
  shows "emits Q (bindM m k)"
proof (rule emitsI)
  fix s t
  obtain r s1 ev where m: "m (s, t) = (r, (s1, t @ ev))"
    and q: "case r of Inl e \<Rightarrow> Q (Inl e) ev | Inr x \<Rightarrow> emits (\<lambda>r ev'. Q r (ev @ ev')) (k x)"
    using emitsE [OF assms] .
  show "\<exists>r s' ev. bindM m k (s, t) = (r, (s', t @ ev)) \<and> Q r ev"
  proof (cases r)
    case (Inl e)
    with m q show ?thesis by (simp add: bindM_def)
  next
    case (Inr x)
    with q have "emits (\<lambda>r ev'. Q r (ev @ ev')) (k x)" by simp
    then obtain r2 s2 ev2 where "k x (s1, t @ ev) = (r2, (s2, (t @ ev) @ ev2))" "Q r2 (ev @ ev2)"
      by (rule emitsE [of _ _ s1 "t @ ev"])
    with m Inr show ?thesis by (simp add: bindM_def)
  qed
qed

lemma emits_thenM:
  "emits (\<lambda>r ev. case r of Inl e \<Rightarrow> Q (Inl e) ev | Inr x \<Rightarrow> emits (\<lambda>r ev'. Q r (ev @ ev')) k) m \<Longrightarrow>
   emits Q (thenM m k)"
  unfolding thenM_def by (rule emits_bindM)

lemma emits_try:
  assumes "emits (\<lambda>r ev. case r of Inl e \<Rightarrow> (if p e then emits (\<lambda>r ev'. Q r (ev @ ev')) (h e) else Q (Inl e) ev)
    | Inr x \<Rightarrow> Q (Inr x) ev) m"
  shows "emits Q (try_except p m h)"
proof (rule emitsI)
  fix s t
  obtain r s1 ev where m: "m (s, t) = (r, (s1, t @ ev))"
    and q: "case r of Inl e \<Rightarrow> (if p e then emits (\<lambda>r ev'. Q r (ev @ ev')) (h e) else Q (Inl e) ev)
      | Inr x \<Rightarrow> Q (Inr x) ev"
    using emitsE [OF assms] .
  show "\<exists>r s' ev. try_except p m h (s, t) = (r, (s', t @ ev)) \<and> Q r ev"
  proof (cases r)
    case (Inl e)
    show ?thesis
    proof (cases "p e")
      case True
      with q Inl have "emits (\<lambda>r ev'. Q r (ev @ ev')) (h e)" by simp
      then obtain r2 s2 ev2 where "h e (s1, t @ ev) = (r2, (s2, (t @ ev) @ ev2))" "Q r2 (ev @ ev2)"
        by (rule emitsE [of _ _ s1 "t @ ev"])
      with m Inl True show ?thesis by (simp add: try_except_def)
    next
      case False
      with m q Inl show ?thesis by (simp add: try_except_def)
    qed
  next
    case (Inr x)
    with m q show ?thesis by (simp add: try_except_def)
  qed
qed

lemmas emits_rules = emits_ret emits_raise emits_note_result emits_note_call emits_bindM emits_thenM emits_try

section \<open>Verified files\<close>

fun is_write :: "event \<Rightarrow> bool" where
  "is_write (Wrote _ _ _) = True"
| "is_write _ = False"

fun is_update :: "event \<Rightarrow> bool" where
  "is_update (Updated _ _) = True"
| "is_update _ = False"

text \<open>What the installer takes as proof that the device holds the data: the size of a large file,
  the digest of any other.\<close>

fun proves :: "string \<Rightarrow> bytes \<Rightarrow> event \<Rightarrow> bool" where
  "proves dest data (Stat p (Some e)) \<longleftrightarrow> p = dest \<and> MD5_VERIFY_MAX_BYTES < length data \<and> e_size e = length data"
| "proves dest data (Md5 p (Some d)) \<longleftrightarrow> p = dest \<and> \<not> MD5_VERIFY_MAX_BYTES < length data \<and> d = md5_hex data"
| "proves dest data _ \<longleftrightarrow> False"

text \<open>The events of verifying and retrying: none of them changes the device.\<close>

fun quiet_event :: "event \<Rightarrow> bool" where
  "quiet_event (Md5 _ _) = True"
| "quiet_event (Stat _ _) = True"
| "quiet_event (Slept _) = True"
| "quiet_event Resynced = True"
| "quiet_event _ = False"

lemma quiet_not_write: "quiet_event e \<Longrightarrow> \<not> is_write e"
  by (cases e) simp_all

lemma quiet_no_write: "list_all quiet_event ev \<Longrightarrow> filter is_write ev = []"
  by (auto simp: list_all_iff filter_empty_conv quiet_not_write)

definition verify_spec :: "string \<Rightarrow> bytes \<Rightarrow> exn + md5_status \<Rightarrow> event list \<Rightarrow> bool" where
  "verify_spec dest data r ev \<longleftrightarrow>
     list_all quiet_event ev \<and> (r = Inr Match \<longrightarrow> ev \<noteq> [] \<and> proves dest data (last ev))"

lemma check_md5_emits:
  "\<not> MD5_VERIFY_MAX_BYTES < length data \<Longrightarrow>
   emits (verify_spec dest data) (check_md5_loop (watched rpc) dest (md5_hex data) k)"
proof (induction k)
  case 0
  show ?case by (simp add: emits_ret verify_spec_def)
next
  case (Suc k)
  have rec: "emits (\<lambda>r ev'. verify_spec dest data r (Md5 dest None # Slept t # ev'))
      (check_md5_loop (watched rpc) dest (md5_hex data) k)" for t
    by (rule emits_mono [OF Suc.IH [OF Suc.prems]]) (auto simp: verify_spec_def)
  have rec': "emits (\<lambda>r ev'. verify_spec dest data r (Md5 dest None # ev'))
      (check_md5_loop (watched rpc) dest (md5_hex data) k)"
    by (rule emits_mono [OF Suc.IH [OF Suc.prems]]) (auto simp: verify_spec_def)
  show ?case
    using Suc.prems rec rec'
    by (auto simp: verify_spec_def intro!: emits_rules)
qed

lemma verify_written_emits:
  "emits (verify_spec dest data) (verify_written (watched rpc) dest data (md5_hex data))"
proof (cases "MD5_VERIFY_MAX_BYTES < length data")
  case True
  then show ?thesis
    unfolding verify_written_def check_size_def watched_simps
    by (auto simp: verify_spec_def split: option.split intro!: emits_rules)
next
  case False
  then show ?thesis by (simp add: verify_written_def check_md5_def check_md5_emits)
qed

lemma push_verify_emits: "emits (verify_spec dest data) (push_verify (watched rpc) dest data)"
  unfolding push_verify_def
proof (intro emits_try, rule emits_mono [OF verify_written_emits])
  fix r ev assume "verify_spec dest data r ev"
  then show "case r of Inl e \<Rightarrow> if is_push_error e then emits (\<lambda>r ev'. verify_spec dest data r (ev @ ev')) (ret Unreadable)
      else verify_spec dest data (Inl e) ev | Inr x \<Rightarrow> verify_spec dest data (Inr x) ev"
    by (auto simp: verify_spec_def split: sum.split intro!: emits_ret)
qed

section \<open>Pushing\<close>

text \<open>\<open>w\<close> says whether the data was already on the device when the record began.\<close>

definition push_spec :: "string \<Rightarrow> bytes \<Rightarrow> nat \<Rightarrow> bool \<Rightarrow> exn + unit \<Rightarrow> event list \<Rightarrow> bool" where
  "push_spec dest data n w r ev \<longleftrightarrow>
     list_all (\<lambda>e. quiet_event e \<or> (\<exists>b. e = Wrote dest data b)) ev \<and>
     length (filter is_write ev) \<le> n \<and>
     (r = Inr () \<longrightarrow> ev \<noteq> [] \<and> proves dest data (last ev) \<and>
        (if filter is_write ev = [] then w else last (filter is_write ev) = Wrote dest data True))"

lemma push_write_emits:
  "emits (\<lambda>r ev. r = Inr True \<and> w \<and> ev = [] \<or> \<not> w \<and> (\<exists>b. r = Inr b \<and> ev = [Wrote dest data b]) \<or>
      \<not> w \<and> ev = [] \<and> r \<noteq> Inr True)
    (push_write (watched rpc) dest data w)"
  unfolding push_write_def watched_simps by (auto intro!: emits_rules)

lemma push_spec_pass:
  assumes "push_spec dest data n w' r ev" and "list_all quiet_event b"
    and "a = [] \<and> (w' \<longrightarrow> w) \<or> a = [Wrote dest data c] \<and> (w' \<longrightarrow> c)"
  shows "push_spec dest data (Suc n) w r (a @ b @ ev)"
  using assms by (auto simp: push_spec_def quiet_no_write list_all_iff)

text \<open>One pass, given what the rest of the loop does: \<open>a\<close> is the record of the write, \<open>b\<close> that of the
  verification.\<close>

definition writes_to :: "string \<Rightarrow> bytes \<Rightarrow> bool \<Rightarrow> bool \<Rightarrow> event list \<Rightarrow> bool" where
  "writes_to dest data w w' a \<longleftrightarrow> a = [] \<and> (w' \<longrightarrow> w) \<or> (\<exists>c. a = [Wrote dest data c] \<and> (w' \<longrightarrow> c))"

lemma push_spec_done:
  assumes "writes_to dest data w w' a" and "list_all quiet_event b"
    and "r = Inr () \<Longrightarrow> w' \<and> b \<noteq> [] \<and> proves dest data (last b)"
  shows "push_spec dest data (Suc n) w r (a @ b)"
  using assms by (auto simp: push_spec_def writes_to_def quiet_no_write list_all_iff)

lemma push_stage_emits:
  assumes rest: "\<And>k' w' ew' st'. k = Suc k' \<Longrightarrow>
      emits (push_spec dest data k w') (push_loop (watched rpc) (watched_resync resync) dest data k' w' ew' st')"
    and a: "writes_to dest data w w' a" and b: "list_all quiet_event b"
    and m: "w' \<and> st = Match \<Longrightarrow> b \<noteq> [] \<and> proves dest data (last b)"
  shows "emits (\<lambda>r ev. push_spec dest data (Suc k) w r (a @ b @ ev))
    (if w' \<and> st = Match then ret ()
     else case (k, watched_resync resync) of
            (Suc k', Some reconnect) \<Rightarrow>
              thenM reconnect
              (thenM (rl_sleep (watched rpc) POST_WRITE_SETTLE)
              (push_loop (watched rpc) (watched_resync resync) dest data k' (w' \<and> st \<noteq> Mismatch) ew' st))
          | _ \<Rightarrow> raise (push_failure dest st ew'))"
proof (cases "w' \<and> st = Match")
  case True
  then show ?thesis using push_spec_done [OF a b, of "Inr ()"] m by (auto intro!: emits_ret)
next
  case False
  have err: "push_spec dest data (Suc k) w (Inl e) (a @ b @ c)" if "list_all quiet_event c" for e c
    using push_spec_done [OF a, of "b @ c" "Inl e"] b that by simp
  show ?thesis
  proof (cases "\<exists>k' m. k = Suc k' \<and> resync = Some m")
    case True
    then obtain k' m where k: "k = Suc k'" and res: "resync = Some m" by blast
    let ?w = "w' \<and> st \<noteq> Mismatch"
    have "emits (\<lambda>r ev. push_spec dest data (Suc k) w r (a @ b @ Resynced # Slept POST_WRITE_SETTLE # ev))
        (push_loop (watched rpc) (watched_resync resync) dest data k' ?w ew' st)"
    proof (rule emits_mono [OF rest [OF k]])
      fix r ev assume "push_spec dest data k ?w r ev"
      from push_spec_pass [OF this, of "b @ [Resynced, Slept POST_WRITE_SETTLE]" a w] a b
      show "push_spec dest data (Suc k) w r (a @ b @ Resynced # Slept POST_WRITE_SETTLE # ev)"
        by (auto simp: writes_to_def)
    qed
    with False k res err err [of "[]"] show ?thesis
      by (auto simp: watched_resync_def intro!: emits_rules)
  next
    case no: False
    then show ?thesis
      using False err [of "[]"]
      by (auto simp: watched_resync_def split: nat.split option.split intro!: emits_raise)
  qed
qed

lemma push_loop_emits:
  "emits (push_spec dest data (Suc k) w) (push_loop (watched rpc) (watched_resync resync) dest data k w ew st)"
proof (induction k arbitrary: w ew st rule: less_induct)
  case (less k)
  define rest where "rest w' st' = (if w' \<and> st' = Match then ret ()
     else case (k, watched_resync resync) of
            (Suc k', Some reconnect) \<Rightarrow>
              thenM reconnect
              (thenM (rl_sleep (watched rpc) POST_WRITE_SETTLE)
              (push_loop (watched rpc) (watched_resync resync) dest data k' (w' \<and> st' \<noteq> Mismatch) (ew \<or> w') st'))
          | _ \<Rightarrow> raise (push_failure dest st' (ew \<or> w')))" for w' st'
  have stage: "emits (\<lambda>r ev. push_spec dest data (Suc k) w r (a @ b @ ev)) (rest w' st')"
    if "writes_to dest data w w' a" "list_all quiet_event b"
      "w' \<and> st' = Match \<Longrightarrow> b \<noteq> [] \<and> proves dest data (last b)" for a b w' st'
    using less.IH that unfolding rest_def by (intro push_stage_emits) auto
  have verify: "emits (\<lambda>r ev. push_spec dest data (Suc k) w r (a @ ev))
      (bindM (if w' then push_verify (watched rpc) dest data else ret st) (rest w'))"
    if a: "writes_to dest data w w' a" for a w'
  proof (cases w')
    case True
    have "emits (\<lambda>r ev. case r of Inl e \<Rightarrow> push_spec dest data (Suc k) w (Inl e) (a @ ev)
        | Inr x \<Rightarrow> emits (\<lambda>r ev'. push_spec dest data (Suc k) w r (a @ ev @ ev')) (rest w' x))
        (push_verify (watched rpc) dest data)"
      by (rule emits_mono [OF push_verify_emits])
        (use stage [OF a] push_spec_done [OF a, of _ "Inl _"] in \<open>auto simp: verify_spec_def split: sum.split\<close>)
    then have "emits (\<lambda>r ev. push_spec dest data (Suc k) w r (a @ ev)) (bindM (push_verify (watched rpc) dest data) (rest w'))"
      by (rule emits_bindM)
    with True show ?thesis by simp
  next
    case False
    then show ?thesis using stage [OF a, of "[]" st] by simp
  qed
  show ?case
    unfolding push_loop.simps [of "watched rpc" "watched_resync resync" dest data k w ew st]
      rest_def [symmetric]
  proof (rule emits_bindM, rule emits_mono [OF push_write_emits])
    fix r :: "exn + bool" and ev
    assume "r = Inr True \<and> w \<and> ev = [] \<or> \<not> w \<and> (\<exists>b. r = Inr b \<and> ev = [Wrote dest data b]) \<or>
      \<not> w \<and> ev = [] \<and> r \<noteq> Inr True"
    then have err: "writes_to dest data w False ev" and ok: "\<And>w'. r = Inr w' \<Longrightarrow> writes_to dest data w w' ev"
      by (auto simp: writes_to_def)
    show "case r of Inl e \<Rightarrow> push_spec dest data (Suc k) w (Inl e) ev
      | Inr x \<Rightarrow> emits (\<lambda>r ev'. push_spec dest data (Suc k) w r (ev @ ev'))
          (bindM (if x then push_verify (watched rpc) dest data else ret st) (rest x))"
      using push_spec_done [OF err, of "[]" "Inl _"] verify [OF ok] by (cases r) simp_all
  qed
qed

text \<open>The record of a file that was pushed: a last write that the device acknowledged, then quiet
  events, then the proof.\<close>

definition certified :: "string \<Rightarrow> bytes \<Rightarrow> event list \<Rightarrow> bool" where
  "certified dest data seg \<longleftrightarrow>
     (\<exists>pre mid v. seg = pre @ Wrote dest data True # mid @ [v] \<and> list_all quiet_event mid \<and> proves dest data v) \<and>
     list_all (\<lambda>e. is_write e \<longrightarrow> (\<exists>b. e = Wrote dest data b)) seg \<and>
     length (filter is_write seg) \<le> 3"

lemma last_write_split:
  assumes "filter is_write ev \<noteq> []"
  obtains pre post where "ev = pre @ last (filter is_write ev) # post" and "filter is_write post = []"
  using assms
proof (induction ev arbitrary: thesis)
  case (Cons e ev)
  show ?case
  proof (cases "filter is_write ev = []")
    case True
    with Cons.prems show ?thesis by (auto split: if_splits)
  next
    case False
    then obtain pre post where "ev = pre @ last (filter is_write ev) # post" "filter is_write post = []"
      using Cons.IH by metis
    with False Cons.prems(1) [of "e # pre" post] show ?thesis by auto
  qed
qed simp

lemma push_spec_certified:
  assumes "push_spec dest data 3 False (Inr ()) ev"
  shows "certified dest data ev"
proof -
  from assms have ne: "filter is_write ev \<noteq> []" and lw: "last (filter is_write ev) = Wrote dest data True"
    and p: "proves dest data (last ev)" and all: "list_all (\<lambda>e. quiet_event e \<or> (\<exists>b. e = Wrote dest data b)) ev"
    and len: "length (filter is_write ev) \<le> 3"
    by (auto simp: push_spec_def split: if_splits)
  obtain pre post where split: "ev = pre @ Wrote dest data True # post" and quiet: "filter is_write post = []"
    using last_write_split [OF ne] lw by metis
  have "post \<noteq> []" using p split by auto
  then have post: "post = butlast post @ [last post]" by simp
  have "list_all quiet_event post"
    using all quiet unfolding split by (fastforce simp: list_all_iff filter_empty_conv)
  then have "list_all quiet_event (butlast post)" by (auto simp: list_all_iff dest: in_set_butlastD)
  moreover have "proves dest data (last post)" using p split \<open>post \<noteq> []\<close> by simp
  moreover have "list_all (\<lambda>e. is_write e \<longrightarrow> (\<exists>b. e = Wrote dest data b)) ev"
    using all quiet_not_write by (fastforce simp: list_all_iff)
  ultimately show ?thesis using split post len unfolding certified_def by metis
qed

lemma certified_Made: "certified dest data seg \<Longrightarrow> certified dest data (Made p b # seg)"
  unfolding certified_def by (auto; metis append_Cons)

text \<open>Until the update is requested the device is not asked to restart.\<close>

definition staging :: "string \<Rightarrow> (string \<times> bytes) list \<Rightarrow> event \<Rightarrow> bool" where
  "staging dir files e \<longleftrightarrow> quiet_event e \<or>
     (\<exists>(rel, data) \<in> set files. (\<exists>b. e = Wrote (dir @ ''/'' @ rel) data b) \<or>
        (\<exists>b. e = Made (before_last CHR ''/'' (dir @ ''/'' @ rel)) b))"

lemma staging_mono: "list_all (staging dir files) ev \<Longrightarrow> list_all (staging dir (f # files)) ev"
  by (auto simp: list_all_iff staging_def)

definition files_spec :: "string \<Rightarrow> (string \<times> bytes) list \<Rightarrow> exn + unit \<Rightarrow> event list \<Rightarrow> bool" where
  "files_spec dir files r ev \<longleftrightarrow> list_all (staging dir files) ev \<and> length (filter is_write ev) \<le> 3 * length files \<and>
     (r = Inr () \<longrightarrow> (\<exists>segs. ev = concat segs \<and>
        list_all2 (\<lambda>(rel, data) seg. certified (dir @ ''/'' @ rel) data seg) files segs))"

lemma push_file_emits:
  "emits (\<lambda>r ev. list_all (\<lambda>e. quiet_event e \<or> (\<exists>b. e = Wrote dest data b)) ev \<and> length (filter is_write ev) \<le> 3 \<and> (r = Inr () \<longrightarrow> certified dest data ev))
    (push_file (watched rpc) (watched_resync resync) dest data)"
  unfolding push_file_def
proof (rule emits_mono [OF push_loop_emits])
  fix r ev assume "push_spec dest data (Suc RESYNC_ATTEMPTS) False r ev"
  then have spec: "push_spec dest data 3 False r ev" by (simp add: RESYNC_ATTEMPTS_def numeral_3_eq_3)
  then have "list_all (\<lambda>e. quiet_event e \<or> (\<exists>b. e = Wrote dest data b)) ev \<and> length (filter is_write ev) \<le> 3"
    by (auto simp: push_spec_def)
  with spec push_spec_certified show "list_all (\<lambda>e. quiet_event e \<or> (\<exists>b. e = Wrote dest data b)) ev \<and> length (filter is_write ev) \<le> 3 \<and> (r = Inr () \<longrightarrow> certified dest data ev)" by blast
qed

lemma push_files_emits:
  "emits (files_spec dir files) (push_files (watched rpc) (watched_resync resync) dir files)"
proof (induction files)
  case Nil
  show ?case by (auto simp: files_spec_def intro!: emits_ret)
next
  case (Cons f files)
  obtain rel data where f: "f = (rel, data)" by (cases f)
  let ?dest = "dir @ ''/'' @ rel" and ?parent = "before_last CHR ''/'' (dir @ ''/'' @ rel)"
  have rest: "emits (\<lambda>r ev. files_spec dir (f # files) r (seg @ ev)) (push_files (watched rpc) (watched_resync resync) dir files)"
    if "list_all (staging dir (f # files)) seg" "length (filter is_write seg) \<le> 3" "certified ?dest data seg" for seg
  proof (rule emits_mono [OF Cons.IH])
    fix r ev assume "files_spec dir files r ev"
    moreover have "\<exists>segs'. seg @ concat segs = concat segs' \<and>
        list_all2 (\<lambda>(rel, data) seg. certified (dir @ ''/'' @ rel) data seg) (f # files) segs'"
      if "list_all2 (\<lambda>(rel, data) seg. certified (dir @ ''/'' @ rel) data seg) files segs" for segs
      using that \<open>certified ?dest data seg\<close> f by (intro exI [of _ "seg # segs"]) simp
    ultimately show "files_spec dir (f # files) r (seg @ ev)"
      using that staging_mono by (auto simp: files_spec_def)
  qed
  have push: "emits (\<lambda>r ev. files_spec dir (f # files) r (mk @ ev))
      (thenM (push_file (watched rpc) (watched_resync resync) ?dest data)
        (push_files (watched rpc) (watched_resync resync) dir files))"
    if mk: "mk = [] \<or> (\<exists>b. mk = [Made ?parent b])" for mk
  proof (rule emits_thenM, rule emits_mono [OF push_file_emits])
    fix r :: "exn + unit" and ev assume q: "list_all (\<lambda>e. quiet_event e \<or> (\<exists>b. e = Wrote ?dest data b)) ev \<and> length (filter is_write ev) \<le> 3 \<and> (r = Inr () \<longrightarrow> certified ?dest data ev)"
    with mk have st: "list_all (staging dir (f # files)) (mk @ ev)" "length (filter is_write (mk @ ev)) \<le> 3"
      by (auto simp: staging_def f list_all_iff)
    have "certified ?dest data (mk @ ev)" if "r = Inr ()" using q that mk certified_Made by auto
    with st rest [of "mk @ ev"]
    show "case r of Inl e \<Rightarrow> files_spec dir (f # files) (Inl e) (mk @ ev)
        | Inr x \<Rightarrow> emits (\<lambda>r ev'. files_spec dir (f # files) r (mk @ ev @ ev'))
            (push_files (watched rpc) (watched_resync resync) dir files)"
      by (auto simp: files_spec_def split: sum.split)
  qed
  have mkdir: "emits (files_spec dir (f # files)) (thenM (if c then thenM (rl_storage_mkdir (watched rpc) ?parent) (ret ()) else ret ()) k)"
    if k: "\<And>mk. mk = [] \<or> (\<exists>b. mk = [Made ?parent b]) \<Longrightarrow> emits (\<lambda>r ev. files_spec dir (f # files) r (mk @ ev)) k" for c k
  proof -
    have "emits (\<lambda>r ev. case r of Inl e \<Rightarrow> files_spec dir (f # files) (Inl e) ev
        | Inr x \<Rightarrow> emits (\<lambda>r ev'. files_spec dir (f # files) r (ev @ ev')) k)
        (if c then thenM (rl_storage_mkdir (watched rpc) ?parent) (ret ()) else ret ())"
      using k [of "[]"] k [of "[Made ?parent _]"] by (auto simp: files_spec_def [of _ _ "Inl _"] intro!: emits_rules)
    then show ?thesis by (rule emits_thenM)
  qed
  show ?case
    unfolding f push_files.simps Let_def using mkdir push unfolding f by blast
qed

section \<open>Triggering\<close>

definition settling :: "string \<Rightarrow> event \<Rightarrow> bool" where
  "settling manifest e \<longleftrightarrow> quiet_event e \<or> (\<exists>c. e = Updated manifest c)"

definition trigger_spec :: "string \<Rightarrow> nat \<Rightarrow> exn + unit \<Rightarrow> event list \<Rightarrow> bool" where
  "trigger_spec manifest n r ev \<longleftrightarrow>
     list_all (settling manifest) ev \<and> length (filter is_update ev) \<le> n \<and>
     (r = Inr () \<longrightarrow> ev \<noteq> [] \<and> last ev = Updated manifest 0)"

lemma trigger_spec_Cons:
  "trigger_spec m n r ev \<Longrightarrow> list_all (settling m) a \<Longrightarrow> length (filter is_update a) \<le> 1 \<Longrightarrow>
   trigger_spec m (Suc n) r (a @ ev)"
  by (auto simp: trigger_spec_def)

lemma trigger_loop_emits:
  "emits (trigger_spec m (Suc k)) (trigger_loop (watched rpc) (watched_resync resync) m k)"
proof (induction k)
  case 0
  show ?case
    unfolding trigger_loop.simps [of "watched rpc" "watched_resync resync" m 0] watched_simps nat.case
    by (auto simp: trigger_spec_def settling_def UPDATE_OK_def intro!: emits_rules)
next
  case (Suc k)
  have rest: "emits (\<lambda>r ev. trigger_spec m (Suc (Suc k)) r (a @ ev)) (trigger_loop (watched rpc) (watched_resync resync) m k)"
    if "list_all (settling m) a" "length (filter is_update a) \<le> 1" for a
    by (rule emits_mono [OF Suc.IH]) (use trigger_spec_Cons that in blast)
  have again: "emits (\<lambda>r ev. trigger_spec m (Suc (Suc k)) r ([Slept UPDATE_SETTLE, Updated m c] @ ev))
      (thenM (case watched_resync resync of Some reconnect \<Rightarrow> reconnect | None \<Rightarrow> ret ())
        (trigger_loop (watched rpc) (watched_resync resync) m k))" for c
    using rest [of "[Slept UPDATE_SETTLE, Updated m c]"] rest [of "[Slept UPDATE_SETTLE, Updated m c, Resynced]"]
    by (cases resync)
      (auto simp: watched_resync_def trigger_spec_def [of _ _ "Inl _"] settling_def intro!: emits_rules)
  show ?case
    unfolding trigger_loop.simps [of "watched rpc" "watched_resync resync" m "Suc k"] watched_simps nat.case
    using again by (auto simp: trigger_spec_def [of _ _ "Inl _"] trigger_spec_def [of _ _ "Inr _"] settling_def UPDATE_OK_def intro!: emits_rules)
qed

section \<open>Installing\<close>

text \<open>The specification of an installation that restarts the device.\<close>

definition installed :: "local_bundle \<Rightarrow> string \<Rightarrow> event list \<Rightarrow> bool" where
  "installed b pkg ev \<longleftrightarrow>
     (\<exists>info m1 m2 segs tail.
        ev = [Asked info, Made UPDATE_ROOT m1, Made (UPDATE_ROOT @ ''/'' @ pkg) m2] @ concat segs @ tail @
             [Updated (UPDATE_ROOT @ ''/'' @ pkg @ ''/'' @ manifest_name b) 0, Rebooting] \<and>
        bundle_target b = CHR ''f'' # strip (or_empty (map_of info ''hardware_target'')) \<and>
        list_all2 (\<lambda>(rel, data) seg. certified (UPDATE_ROOT @ ''/'' @ pkg @ ''/'' @ rel) data seg) (bundle_files b) segs \<and>
        list_all (settling (UPDATE_ROOT @ ''/'' @ pkg @ ''/'' @ manifest_name b)) tail \<and> length (filter is_update tail) \<le> 2)"

text \<open>What the device is told to change: directories and files of the package only, and the update
  only from its manifest.\<close>

fun touches :: "local_bundle \<Rightarrow> string \<Rightarrow> event \<Rightarrow> bool" where
  "touches b pkg (Wrote p d _) \<longleftrightarrow>
     (\<exists>rel. p = UPDATE_ROOT @ ''/'' @ pkg @ ''/'' @ rel \<and> (rel, d) \<in> set (bundle_files b))"
| "touches b pkg (Made p _) \<longleftrightarrow>
     p = UPDATE_ROOT \<or> p = UPDATE_ROOT @ ''/'' @ pkg \<or>
     (\<exists>rel d. p = before_last CHR ''/'' (UPDATE_ROOT @ ''/'' @ pkg @ ''/'' @ rel) \<and> (rel, d) \<in> set (bundle_files b))"
| "touches b pkg (Updated p _) \<longleftrightarrow> p = UPDATE_ROOT @ ''/'' @ pkg @ ''/'' @ manifest_name b"
| "touches b pkg _ \<longleftrightarrow> True"

definition install_spec :: "local_bundle \<Rightarrow> string \<Rightarrow> exn + unit \<Rightarrow> event list \<Rightarrow> bool" where
  "install_spec b pkg r ev \<longleftrightarrow> list_all (touches b pkg) ev \<and>
     length (filter is_write ev) \<le> 3 * length (bundle_files b) \<and> length (filter is_update ev) \<le> 3 \<and>
     (r = Inr () \<or> Rebooting \<in> set ev \<longrightarrow> installed b pkg ev)"

lemma no_reboot:
  "list_all (staging dir files) ev \<Longrightarrow> Rebooting \<notin> set ev" "list_all (settling m) ev \<Longrightarrow> Rebooting \<notin> set ev"
  by (auto simp: list_all_iff staging_def settling_def)

lemma no_update_staging: "list_all (staging dir files) ev \<Longrightarrow> filter is_update ev = []"
  and no_write_settling: "list_all (settling m) ev \<Longrightarrow> filter is_write ev = []"
  by (auto simp: list_all_iff staging_def settling_def filter_empty_conv elim!: is_update.elims is_write.elims)

lemma touches_quiet: "quiet_event e \<Longrightarrow> touches b pkg e"
  by (cases e) simp_all

lemma touches_staging:
  "list_all (staging (UPDATE_ROOT @ ''/'' @ pkg) (bundle_files b)) ev \<Longrightarrow> list_all (touches b pkg) ev"
  by (auto simp: list_all_iff staging_def touches_quiet) (fastforce simp: touches_quiet)

lemma touches_settling:
  "list_all (settling (UPDATE_ROOT @ ''/'' @ pkg @ ''/'' @ manifest_name b)) ev \<Longrightarrow> list_all (touches b pkg) ev"
  by (auto simp: list_all_iff settling_def touches_quiet)

lemma install_emits:
  "emits (install_spec b pkg) (install_bundle (watched rpc) b pkg (watched_resync resync))"
proof -
  let ?dir = "UPDATE_ROOT @ ''/'' @ pkg"
  let ?manifest = "?dir @ ''/'' @ manifest_name b"
  let ?files = "push_files (watched rpc) (watched_resync resync) ?dir (bundle_files b)"
  let ?trigger = "trigger_loop (watched rpc) (watched_resync resync) ?manifest RESYNC_ATTEMPTS"
  have trigger: "emits (\<lambda>r ev. install_spec b pkg r (hd0 @ segs @ ev)) (thenM ?trigger (note_call Rebooting (rl_system_reboot_update rpc)))"
    if hd0: "hd0 = [Asked info, Made UPDATE_ROOT m1, Made ?dir m2]"
      and target: "bundle_target b = CHR ''f'' # strip (or_empty (map_of info ''hardware_target''))"
      and files: "files_spec ?dir (bundle_files b) (Inr ()) segs" for hd0 info m1 m2 segs
  proof (rule emits_thenM, rule emits_mono [OF trigger_loop_emits])
    fix r :: "exn + unit" and ev assume t: "trigger_spec ?manifest (Suc RESYNC_ATTEMPTS) r ev"
    have quiet: "Rebooting \<notin> set (hd0 @ segs @ ev)"
      using hd0 files t no_reboot by (auto simp: files_spec_def trigger_spec_def)
    have bound: "length (filter is_write (hd0 @ segs @ ev)) \<le> 3 * length (bundle_files b)"
      "length (filter is_update (hd0 @ segs @ ev)) \<le> 3"
      using hd0 files t no_update_staging no_write_settling
      by (auto simp: files_spec_def trigger_spec_def RESYNC_ATTEMPTS_def)
    have touch: "list_all (touches b pkg) (hd0 @ segs @ ev)"
      using hd0 files t touches_staging touches_settling by (auto simp: files_spec_def trigger_spec_def)
    have "installed b pkg (hd0 @ segs @ ev @ [Rebooting])" if "r = Inr ()"
    proof -
      from t that have "ev = butlast ev @ [Updated ?manifest 0]"
        by (auto simp: trigger_spec_def) (metis append_butlast_last_id)
      then obtain tail where ev: "ev = tail @ [Updated ?manifest 0]" by blast
      with t have tail: "list_all (settling ?manifest) tail" "length (filter is_update tail) \<le> 2"
        by (simp_all add: trigger_spec_def RESYNC_ATTEMPTS_def)
      have "hd0 @ segs @ ev @ [Rebooting] = hd0 @ segs @ tail @ [Updated ?manifest 0, Rebooting]" using ev by simp
      with files tail hd0 target show ?thesis unfolding installed_def files_spec_def by fastforce
    qed
    with quiet bound touch show "case r of Inl e \<Rightarrow> install_spec b pkg (Inl e) (hd0 @ segs @ ev)
        | Inr x \<Rightarrow> emits (\<lambda>r ev'. install_spec b pkg r (hd0 @ segs @ ev @ ev')) (note_call Rebooting (rl_system_reboot_update rpc))"
      by (cases r) (auto simp: install_spec_def intro!: emits_note_call)
  qed
  have files: "emits (\<lambda>r ev. install_spec b pkg r ([Asked info, Made UPDATE_ROOT m1, Made ?dir m2] @ ev))
      (thenM ?files (thenM ?trigger (note_call Rebooting (rl_system_reboot_update rpc))))"
    if target: "bundle_target b = CHR ''f'' # strip (or_empty (map_of info ''hardware_target''))" for info m1 m2
  proof (rule emits_thenM, rule emits_mono [OF push_files_emits])
    fix r :: "exn + unit" and ev assume f: "files_spec ?dir (bundle_files b) r ev"
    then have "Rebooting \<notin> set ev" "length (filter is_write ev) \<le> 3 * length (bundle_files b)" "filter is_update ev = []"
        "list_all (touches b pkg) ev"
      using no_reboot no_update_staging touches_staging by (auto simp: files_spec_def)
    with f trigger [OF refl target, of ev m1 m2]
    show "case r of Inl e \<Rightarrow> install_spec b pkg (Inl e) ([Asked info, Made UPDATE_ROOT m1, Made ?dir m2] @ ev)
        | Inr x \<Rightarrow> emits (\<lambda>r ev'. install_spec b pkg r ([Asked info, Made UPDATE_ROOT m1, Made ?dir m2] @ ev @ ev'))
            (thenM ?trigger (note_call Rebooting (rl_system_reboot_update rpc)))"
      by (cases r) (auto simp: install_spec_def)
  qed
  show ?thesis
    unfolding install_bundle_def Let_def watched_simps trigger_update_def
    using files by (auto simp: install_spec_def [of _ _ "Inl _"] intro!: emits_rules)
qed

section \<open>The contract of the RPC protocol\<close>

text \<open>\<open>raises Q m\<close>: an exception that leaves \<open>m\<close>, and the state it leaves behind, satisfy \<open>Q\<close>.\<close>

definition raises :: "(exn \<Rightarrow> 's \<Rightarrow> bool) \<Rightarrow> ('s, 'a) action \<Rightarrow> bool" where
  "raises Q m \<longleftrightarrow> (\<forall>s e s'. m s = (Inl e, s') \<longrightarrow> Q e s')"

lemma raisesD: "raises Q m \<Longrightarrow> m s = (Inl e, s') \<Longrightarrow> Q e s'"
  unfolding raises_def by blast

lemma raises_ret: "raises Q (ret x)"
  by (simp add: raises_def ret_def)

lemma raises_raise: "(\<And>s. Q e s) \<Longrightarrow> raises Q (raise e)"
  by (simp add: raises_def raise_def)

lemma raises_bindM: "raises Q m \<Longrightarrow> (\<And>x. raises Q (k x)) \<Longrightarrow> raises Q (bindM m k)"
  unfolding raises_def bindM_def by (fastforce split: prod.splits sum.splits)

lemma raises_thenM: "raises Q m \<Longrightarrow> raises Q k \<Longrightarrow> raises Q (thenM m k)"
  by (simp add: thenM_def raises_bindM)

lemma raises_try:
  "raises (\<lambda>e s. p e \<or> Q e s) m \<Longrightarrow> (\<And>e. p e \<Longrightarrow> raises Q (h e)) \<Longrightarrow> raises Q (try_except p m h)"
  unfolding raises_def try_except_def by (fastforce split: prod.splits sum.splits if_splits)

lemma raises_if: "(b \<Longrightarrow> raises Q m) \<Longrightarrow> (\<not> b \<Longrightarrow> raises Q n) \<Longrightarrow> raises Q (if b then m else n)"
  by simp

lemma raises_mono: "raises Q m \<Longrightarrow> (\<And>e s. Q e s \<Longrightarrow> Q' e s) \<Longrightarrow> raises Q' m"
  unfolding raises_def by blast

lemma contained_raises: "contained m \<Longrightarrow> (\<And>e s. \<not> is_exception e \<Longrightarrow> Q e s) \<Longrightarrow> raises Q m"
  unfolding raises_def contained_def by blast

lemmas raises_rules = raises_ret raises_raise raises_bindM raises_thenM raises_if

fun is_flash_error :: "exn \<Rightarrow> bool" where
  "is_flash_error (FlashError _) = True"
| "is_flash_error _ = False"

text \<open>What the installer relies on: every operation answers with its default instead of raising,
  except the update request, which may time out, and the reboot.\<close>

locale rpc_contract =
  fixes rpc :: "'s rpc_like"
  assumes device_info_contained: "contained (rl_get_device_info rpc)"
    and mkdir_contained: "contained (rl_storage_mkdir rpc p)"
    and write_contained: "contained (rl_storage_write rpc p d)"
    and md5sum_contained: "contained (rl_storage_md5sum rpc p)"
    and stat_contained: "contained (rl_storage_stat rpc p)"
    and sleep_contained: "contained (rl_sleep rpc t)"
    and update_raises: "raises (\<lambda>e _. is_exception e \<longrightarrow> is_timeout e) (rl_system_update rpc p)"
begin

definition benign :: "(exn \<Rightarrow> bool) \<Rightarrow> exn \<Rightarrow> 's \<Rightarrow> bool" where
  "benign E e s \<longleftrightarrow> \<not> is_exception e \<or> is_flash_error e \<or> E e \<or> (\<exists>v. rl_system_reboot_update rpc v = (Inl e, s))"

lemma benign_simps: "\<not> is_exception e \<Longrightarrow> benign E e s" "is_flash_error e \<Longrightarrow> benign E e s"
    "E e \<Longrightarrow> benign E e s"
  by (simp_all add: benign_def)

lemma ops_raise:
  "raises (benign E) (rl_get_device_info rpc)" "raises (benign E) (rl_storage_mkdir rpc p)"
  "raises (benign E) (rl_storage_write rpc p d)" "raises (benign E) (rl_storage_md5sum rpc p)"
  "raises (benign E) (rl_storage_stat rpc p)" "raises (benign E) (rl_sleep rpc t)"
  by (rule contained_raises; simp add: benign_simps device_info_contained mkdir_contained write_contained
      md5sum_contained stat_contained sleep_contained)+

lemma reboot_raises: "raises (benign E) (rl_system_reboot_update rpc)"
  unfolding raises_def benign_def by blast

lemma check_md5_raises: "raises (benign E) (check_md5_loop rpc p e k)"
  by (induction k) (simp_all add: raises_rules ops_raise)

lemma try_raises:
  "raises (benign E) m \<Longrightarrow> (\<And>e. raises (benign E) (h e)) \<Longrightarrow> raises (benign E) (try_except p m h)"
  by (rule raises_try) (auto elim: raises_mono)

lemma push_verify_raises: "raises (benign E) (push_verify rpc p d)"
  unfolding push_verify_def verify_written_def check_size_def check_md5_def
  by (intro try_raises raises_rules ops_raise check_md5_raises)

lemma push_write_raises: "raises (benign E) (push_write rpc p d w)"
  unfolding push_write_def by (intro try_raises raises_rules ops_raise)

lemma push_failure_flash: "is_flash_error (push_failure p st ew)"
  by (simp add: push_failure_def)

lemma push_loop_raises:
  assumes "\<And>m. resync = Some m \<Longrightarrow> raises (\<lambda>e _. is_exception e \<longrightarrow> E e) m"
  shows "raises (benign E) (push_loop rpc resync p d k w ew st)"
proof (induction k arbitrary: w ew st)
  case 0
  show ?case
    unfolding push_loop.simps [of rpc resync p d 0 w ew st]
    by (auto intro!: raises_rules push_write_raises push_verify_raises benign_simps(2) push_failure_flash)
next
  case (Suc k)
  have "raises (benign E) m" if "resync = Some m" for m
    using raises_mono [OF assms [OF that]] benign_simps by metis
  then show ?case
    unfolding push_loop.simps [of rpc resync p d "Suc k" w ew st]
    using Suc.IH
    by (cases resync)
      (auto intro!: raises_rules push_write_raises push_verify_raises benign_simps(2) push_failure_flash ops_raise)
qed

lemma trigger_loop_raises:
  assumes "\<And>m. resync = Some m \<Longrightarrow> raises (\<lambda>e _. is_exception e \<longrightarrow> E e) m"
  shows "raises (benign E) (trigger_loop rpc resync p k)"
proof (induction k)
  have update: "raises (benign E) (try_except is_timeout (rl_system_update rpc p)
      (\<lambda>e. raise (FlashError (f e))))" for f
    by (intro raises_try raises_mono [OF update_raises] raises_raise) (auto simp: benign_def)
  {
    case 0
    show ?case
      unfolding trigger_loop.simps [of rpc resync p 0]
      by (auto simp: rejection_def intro!: raises_rules update ops_raise benign_simps(2))
  next
    case (Suc k)
    have "raises (benign E) m" if "resync = Some m" for m
      using raises_mono [OF assms [OF that]] benign_simps by metis
    then show ?case
      unfolding trigger_loop.simps [of rpc resync p "Suc k"]
      using Suc.IH
      by (auto simp: rejection_def intro!: raises_rules update ops_raise benign_simps(2) split: option.split)
  }
qed

lemma push_files_raises:
  assumes "\<And>m. resync = Some m \<Longrightarrow> raises (\<lambda>e _. is_exception e \<longrightarrow> E e) m"
  shows "raises (benign E) (push_files rpc resync dir fs)"
proof (induction fs)
  case (Cons f fs)
  then show ?case
    by (cases f)
      (auto simp: Let_def push_file_def intro!: raises_rules ops_raise push_loop_raises [OF assms])
qed (simp add: raises_rules)

lemma install_bundle_raises:
  assumes "\<And>m. resync = Some m \<Longrightarrow> raises (\<lambda>e _. is_exception e \<longrightarrow> E e) m"
  shows "raises (benign E) (install_bundle rpc b pkg resync)"
  unfolding install_bundle_def Let_def trigger_update_def
  by (auto intro!: raises_rules ops_raise reboot_raises push_files_raises [OF assms] trigger_loop_raises [OF assms]
      benign_simps(2))

end

lemma system_update_raises: "raises (\<lambda>e _. is_exception e \<longrightarrow> is_timeout e) (system_update P p)"
proof -
  have body: "raises (\<lambda>e _. is_exception e \<longrightarrow> is_timeout e)
      (bindM (request P (UpdateRequest p) RESPONSE_TIMEOUT) (\<lambda>resp.
        case resp of None \<Rightarrow> raise (FlipperTimeoutError t)
        | Some m \<Rightarrow> (case field is_UpdateResponse update_code m of Some c \<Rightarrow> ret c | None \<Rightarrow> ret UNSPECIFIED_ERROR)))" for t
    by (intro raises_bindM contained_raises [OF contained_request])
      (auto split: option.split intro!: raises_rules)
  show ?thesis
    using body unfolding system_update_def raises_def with_lock_def
    by (auto split: prod.splits if_splits)
qed

interpretation rpc_ops: rpc_contract "rpc_ops P" for P
  by unfold_locales
    (simp_all add: rpc_ops_def contained_calls contained_storage contained_sleep system_update_raises)

section \<open>What an installation keeps\<close>

text \<open>A relation that every operation of the protocol keeps is kept by an installation.\<close>

locale installer_frame = frame_rel R for R :: "'s \<Rightarrow> 's \<Rightarrow> bool" +
  fixes rpc :: "'s rpc_like"
  assumes info_keeps: "keeps R (rl_get_device_info rpc)"
    and mkdir_keeps: "keeps R (rl_storage_mkdir rpc p)"
    and write_keeps: "keeps R (rl_storage_write rpc p d)"
    and md5sum_keeps: "keeps R (rl_storage_md5sum rpc p)"
    and stat_keeps: "keeps R (rl_storage_stat rpc p)"
    and update_keeps: "keeps R (rl_system_update rpc p)"
    and reboot_keeps: "keeps R (rl_system_reboot_update rpc)"
    and sleep_keeps: "keeps R (rl_sleep rpc t)"
begin

lemmas op_rules = keeps_rules info_keeps mkdir_keeps write_keeps md5sum_keeps stat_keeps update_keeps reboot_keeps
  sleep_keeps

lemma check_md5_keeps: "keeps R (check_md5_loop rpc p e k)"
proof (induction k)
  case 0
  show ?case by (simp add: keeps_ret)
next
  case (Suc k)
  show ?case unfolding check_md5_loop.simps by (intro op_rules Suc.IH)
qed

lemma push_steps_keep: "keeps R (push_write rpc p d w)" "keeps R (push_verify rpc p d)"
  unfolding push_write_def push_verify_def verify_written_def check_size_def check_md5_def
  by (intro op_rules check_md5_keeps)+

lemma push_loop_keeps:
  assumes "\<And>m. resync = Some m \<Longrightarrow> keeps R m"
  shows "keeps R (push_loop rpc resync p d k w ew st)"
proof (induction k arbitrary: w ew st)
  case 0
  show ?case
    unfolding push_loop.simps [of rpc resync p d 0 w ew st] by (auto intro!: op_rules push_steps_keep)
next
  case (Suc k)
  show ?case
    unfolding push_loop.simps [of rpc resync p d "Suc k" w ew st]
    using Suc.IH assms by (cases resync) (auto intro!: op_rules push_steps_keep)
qed

lemma trigger_loop_keeps:
  assumes "\<And>m. resync = Some m \<Longrightarrow> keeps R m"
  shows "keeps R (trigger_loop rpc resync p k)"
proof (induction k)
  case 0
  show ?case unfolding trigger_loop.simps [of rpc resync p 0] by (auto intro!: op_rules)
next
  case (Suc k)
  show ?case
    unfolding trigger_loop.simps [of rpc resync p "Suc k"]
    using Suc.IH assms by (cases resync) (auto intro!: op_rules)
qed

lemma push_files_keeps:
  assumes "\<And>m. resync = Some m \<Longrightarrow> keeps R m"
  shows "keeps R (push_files rpc resync dir fs)"
proof (induction fs)
  case (Cons f fs)
  then show ?case
    by (cases f) (auto simp: Let_def push_file_def intro!: op_rules push_loop_keeps [OF assms])
qed (simp add: keeps_ret)

lemma install_keeps:
  assumes "\<And>m. resync = Some m \<Longrightarrow> keeps R m"
  shows "keeps R (install_bundle rpc b pkg resync)"
  unfolding install_bundle_def Let_def trigger_update_def
  by (intro op_rules push_files_keeps [OF assms] trigger_loop_keeps [OF assms])

end

end
