(* ===== verification/Confinement.thy ===== *)
theory Confinement
  imports Server Client_Properties Installer_Spec
begin

text \<open>
  What may leave the host: for every operation of the RPC layer, the client and the tools, the byte
  strings it can put on the link.
\<close>

section \<open>Sending only from a set\<close>

definition sends_in :: "bytes set \<Rightarrow> ('d, 'z) world_scheme \<Rightarrow> ('d, 'z) world_scheme \<Rightarrow> bool" where
  "sends_in S w w' \<longleftrightarrow> (\<exists>sent. tx_log w' = tx_log w @ sent \<and> set sent \<subseteq> S)"

interpretation sf: frame_rel "sends_in S" for S
proof
  fix w w' w'' :: "('d, 'z) world_scheme"
  show "sends_in S w w" by (simp add: sends_in_def)
  assume "sends_in S w w'" and "sends_in S w' w''"
  then show "sends_in S w w''"
    unfolding sends_in_def by (metis append.assoc le_sup_iff set_append)
qed

lemma sends_in_upto: "sends_upto T n m \<Longrightarrow> T \<subseteq> S \<Longrightarrow> keeps (sends_in S) m"
  by (rule keepsI) (auto simp: sends_in_def elim!: sends_uptoD)

lemma sends_in_subset: "keeps (sends_in T) m \<Longrightarrow> T \<subseteq> S \<Longrightarrow> keeps (sends_in S) m"
  by (erule keeps_mono) (auto simp: sends_in_def)

lemma sends_in_rx: "keeps rx_frame m \<Longrightarrow> keeps (sends_in S) m"
  by (erule keeps_mono) (simp add: rx_frame_def sends_in_def)

lemma sends_in_quiet: "keeps quiet m \<Longrightarrow> keeps (sends_in S) m"
  by (blast intro: sends_in_rx quiet_rx_frame)

lemma sends_in_modify: "(\<And>w. tx_log (f w) = tx_log w) \<Longrightarrow> keeps (sends_in S) (modify f)"
  by (rule sf.keeps_modify) (simp add: sends_in_def)

lemma sends_in_basic:
  "keeps (sends_in S) (sleep t)" "keeps (sends_in S) monotonic" "keeps (sends_in S) clear_receive_buffer"
  "keeps (sends_in S) get_next_command_id" "keeps (sends_in S) (set_session b)"
  "keeps (sends_in S) (receive_main_message P t)" "keeps (sends_in S) (await_io f)" "keeps (sends_in S) (block_io f)"
  by (rule sends_in_upto [of S 0], rule sends_rules sends_silent, (erule await_io_log block_io_log)?, rule subset_refl)+

lemma sends_in_send: "data \<in> S \<Longrightarrow> keeps (sends_in S) (transport_send P data)"
  by (rule sends_in_upto [OF sends_transport]) auto

lemma sends_in_lift: "keeps (sends_in S) (lift_result r)"
  by (simp add: keeps_def lift_result_def sf.refl)

lemma sends_in_wait_for:
  assumes "keeps (sends_in S) m"
  shows "keeps (sends_in S) (wait_for t m)"
proof (rule keepsI)
  fix w r w' assume run: "wait_for t m w = (r, w')"
  let ?v = "w\<lparr>cancel_at := Some (if case cancel_at w of None \<Rightarrow> True | Some c \<Rightarrow> now w + t < c
              then now w + t else the (cancel_at w))\<rparr>"
  obtain r1 v where v: "m ?v = (r1, v)" by fastforce
  from keepsD [OF assms v] have "sends_in S w v" by (simp add: sends_in_def)
  moreover have "tx_log w' = tx_log v" using run v by (auto simp: wait_for_def Let_def split: if_splits)
  ultimately show "sends_in S w w'" by (simp add: sends_in_def)
qed

lemma sends_in_with_lock:
  assumes "keeps (sends_in S) m"
  shows "keeps (sends_in S) (with_lock m)"
proof (rule keepsI)
  fix w r w' assume run: "with_lock m w = (r, w')"
  show "sends_in S w w'"
  proof (cases "io_locked w")
    case False
    obtain r1 w1 where w1: "m (w\<lparr>io_locked := True\<rparr>) = (r1, w1)" by fastforce
    from keepsD [OF assms w1] run w1 False show ?thesis by (auto simp: with_lock_def sends_in_def)
  qed (use run in \<open>simp add: with_lock_def sf.refl\<close>)
qed

lemma sends_in_timed: "keeps (sends_in S) m \<Longrightarrow> keeps (sends_in S) (timed t dflt m)"
  unfolding timed_def by (intro sends_in_with_lock sends_in_wait_for sf.keeps_rules)

lemma sends_in_guarded: "keeps (sends_in S) m \<Longrightarrow> keeps (sends_in S) (guarded dflt m)"
  unfolding guarded_def by (intro sf.keeps_rules)

lemmas sends_in_rules = sf.keeps_rules sends_in_basic sends_in_lift sends_in_wait_for sends_in_with_lock
  sends_in_timed sends_in_guarded

section \<open>The RPC layer\<close>

text \<open>\<open>may P S q\<close>: the negotiation and the request \<open>q\<close>, under any command number, may be sent.\<close>

definition frame_of :: "'d platform \<Rightarrow> nat \<Rightarrow> bool \<Rightarrow> request_body \<Rightarrow> bytes" where
  "frame_of P i nxt q = framed (serialize P (main_request i nxt (Request q)))"

definition may :: "'d platform \<Rightarrow> bytes set \<Rightarrow> request_body \<Rightarrow> bool" where
  "may P S q \<longleftrightarrow> negotiation_sends P \<subseteq> S \<and> (\<forall>i nxt. frame_of P i nxt q \<in> S)"

lemma sends_in_ensure: "negotiation_sends P \<subseteq> S \<Longrightarrow> keeps (sends_in S) (ensure_rpc_session_started P)"
  by (rule sends_in_upto [OF ensure_sends])

lemma may_send: "may P S q \<Longrightarrow> keeps (sends_in S) (send_message P (main_request i nxt (Request q)))"
  unfolding send_message_def by (rule sends_in_send) (simp add: may_def frame_of_def)

lemma may_send_rpc: "may P S q \<Longrightarrow> keeps (sends_in S) (send_rpc_message P (main_request i nxt (Request q)) t)"
  unfolding send_rpc_message_def by (intro sends_in_rules sends_in_ensure may_send) (simp_all add: may_def)

lemma may_request: "may P S q \<Longrightarrow> keeps (sends_in S) (request P q t)"
  unfolding request_def by (intro sends_in_rules may_send_rpc)

lemma may_query: "may P S q \<Longrightarrow> keeps (sends_in S) (query P q t p f)"
  unfolding query_def by (intro sends_in_rules may_request)

lemma may_perform: "may P S q \<Longrightarrow> keeps (sends_in S) (perform P q)"
  unfolding perform_def by (intro sends_in_rules may_request)

lemma may_gpio: "may P S (c pin) \<Longrightarrow> keeps (sends_in S) (gpio_request P c pin)"
  unfolding gpio_request_def by (intro sends_in_rules may_send_rpc)

lemma sends_in_power_loop: "keeps (sends_in S) (power_info_loop P k m info)"
proof (induction k arbitrary: m info)
  case 0
  show ?case by (simp add: sf.keeps_ret)
next
  case (Suc k)
  show ?case unfolding power_info_loop.simps by (intro sends_in_rules Suc.IH)
qed

lemma sends_in_device_loop: "keeps (sends_in S) (device_info_loop P k m info)"
proof (induction k arbitrary: m info)
  case 0
  show ?case by (simp add: sf.keeps_ret)
next
  case (Suc k)
  show ?case unfolding device_info_loop.simps Let_def by (intro sends_in_rules Suc.IH)
qed

lemma sends_in_fallback:
  "(\<And>key. may P S (PropertyGetRequest key)) \<Longrightarrow> keeps (sends_in S) (property_fallback P keys info)"
proof (induction keys arbitrary: info)
  case Nil
  show ?case by (simp add: sf.keeps_ret)
next
  case (Cons key keys)
  show ?case
    unfolding property_fallback.simps get_property_internal_def
    by (intro sends_in_rules may_query Cons.IH Cons.prems)
qed

lemma sends_in_list_loop: "keeps (sends_in S) (list_frames_loop P path k m)"
proof (induction k arbitrary: m)
  case 0
  show ?case by (subst list_frames_loop.simps) (auto intro: sf.keeps_rules)
next
  case (Suc k)
  show ?case by (subst list_frames_loop.simps) (auto intro!: sends_in_rules Suc.IH)
qed

lemma sends_in_fragments:
  "(\<And>d. may P S (StorageWriteRequest path d)) \<Longrightarrow> keeps (sends_in S) (write_fragments P cid path cs)"
proof (induction cs)
  case Nil
  show ?case by (simp add: sf.keeps_ret)
next
  case (Cons c cs)
  have "keeps (sends_in S) (transport_send P (framed (serialize P (write_message cid path l c))))" for l
    using Cons.prems by (intro sends_in_send) (simp add: may_def frame_of_def write_message_def)
  then show ?case
    unfolding write_fragments.simps Let_def by (intro sends_in_rules Cons.IH Cons.prems)
qed

lemma may_rpc_calls:
  "may P S LockStatusRequest \<Longrightarrow> keeps (sends_in S) (app_lock_status P)"
  "may P S GetErrorRequest \<Longrightarrow> keeps (sends_in S) (app_get_error P)"
  "may P S (AppStartRequest name args) \<Longrightarrow> keeps (sends_in S) (app_start P name args)"
  "may P S IsLockedRequest \<Longrightarrow> keeps (sends_in S) (desktop_is_locked P)"
  "may P S (GpioGetPinMode pin) \<Longrightarrow> may P S (GpioReadPin pin) \<Longrightarrow> keeps (sends_in S) (gpio_read P pin)"
  "may P S ProtobufVersionRequest \<Longrightarrow> keeps (sends_in S) (system_protobuf_version P)"
  "may P S GetDateTimeRequest \<Longrightarrow> keeps (sends_in S) (system_datetime P)"
  "may P S (UpdateRequest path) \<Longrightarrow> keeps (sends_in S) (system_update P path)"
  "may P S RebootRequestUpdate \<Longrightarrow> keeps (sends_in S) (system_reboot_update P)"
  "may P S PowerInfoRequest \<Longrightarrow> keeps (sends_in S) (system_power_info P)"
  "may P S (PropertyGetRequest key) \<Longrightarrow> keeps (sends_in S) (get_property P key)"
  "may P S (PingRequest data) \<Longrightarrow> keeps (sends_in S) (ping P data)"
  unfolding app_lock_status_def app_get_error_def app_start_def desktop_is_locked_def gpio_read_def
    system_protobuf_version_def system_datetime_def system_update_def system_reboot_update_def
    system_power_info_def system_power_info_internal_def get_property_def get_property_internal_def ping_def
  by (intro sends_in_rules may_request may_query may_perform may_gpio may_send sends_in_power_loop sends_in_ensure;
      simp add: may_def)+

lemma may_device_info:
  "may P S DeviceInfoRequest \<Longrightarrow> (\<And>key. may P S (PropertyGetRequest key)) \<Longrightarrow> keeps (sends_in S) (rpc_get_device_info P)"
  unfolding rpc_get_device_info_def get_device_info_internal_def
  by (intro sends_in_rules may_request sends_in_device_loop sends_in_fallback)

lemma may_storage_calls:
  "(\<And>b n. may P S (StorageListRequest path b n)) \<Longrightarrow> keeps (sends_in S) (storage_list_detailed P path inc n)"
  "may P S (StorageReadRequest path) \<Longrightarrow> keeps (sends_in S) (storage_read P path)"
  "may P S (StorageInfoRequest path) \<Longrightarrow> keeps (sends_in S) (storage_info P path)"
  "may P S (StorageStatRequest path) \<Longrightarrow> keeps (sends_in S) (storage_stat P path)"
  "may P S (StorageTimestampRequest path) \<Longrightarrow> keeps (sends_in S) (storage_timestamp P path)"
  "may P S (StorageMd5sumRequest path) \<Longrightarrow> keeps (sends_in S) (storage_md5sum P path)"
  "may P S (StorageMkdirRequest path) \<Longrightarrow> keeps (sends_in S) (storage_mkdir P path)"
  "may P S (StorageDeleteRequest path b) \<Longrightarrow> keeps (sends_in S) (storage_delete P path b)"
  "may P S (StorageRenameRequest path path') \<Longrightarrow> keeps (sends_in S) (storage_rename P path path')"
  "(\<And>d. may P S (StorageWriteRequest path d)) \<Longrightarrow> keeps (sends_in S) (storage_write P path data)"
  unfolding storage_list_detailed_def storage_list_frames_def storage_read_def storage_info_def storage_stat_def
    storage_timestamp_def storage_md5sum_def storage_mkdir_def storage_delete_def storage_rename_def
    storage_write_def storage_write_internal_def
  by (intro sends_in_rules may_send_rpc may_query may_perform sends_in_list_loop sends_in_fragments sends_in_ensure;
      simp add: may_def)+

section \<open>The client\<close>

text \<open>Connecting and disconnecting send nothing.\<close>

lemma clear_receive_buffer_rx: "keeps rx_frame clear_receive_buffer"
  by (simp add: keeps_def clear_receive_buffer_def modify_def)

lemma link_rx: "keeps link_frame m \<Longrightarrow> (\<And>w r w'. m w = (r, w') \<Longrightarrow> tx_log w' = tx_log w) \<Longrightarrow> keeps rx_frame m"
  by (rule keepsI) (auto simp: rx_frame_def link_frame_t_frame dest: keepsD)

lemma drain_socket_loop_log: "drain_socket_loop P deadline w = (r, w') \<Longrightarrow> tx_log w' = tx_log w"
proof (induction P deadline w arbitrary: r w' rule: drain_socket_loop.induct)
  case (1 P deadline w)
  obtain r1 w1 where w1: "drain_read P (w\<lparr>now := Suc (now w)\<rparr>) = (r1, w1)" by fastforce
  have "keeps quiet (drain_read P)" unfolding drain_read_def by (intro quiet_rules)
  from quietD [OF this w1] have l1: "tx_log w1 = tx_log w" by simp
  have "tx_log v = tx_log w1" if "sleep 0 w1 = (x, v)" for x v using quietD [OF sleep_quiet that] by simp
  with "1.prems" "1.IH" [OF _ w1 [symmetric]] w1 l1 show ?case
    by (auto simp: drain_socket_loop.simps [of P deadline w] split: sum.splits if_splits)
qed

lemma connect_rx: "keeps rx_frame (usb_connect P)" "keeps rx_frame (wifi_connect P)"
proof -
  note rules = rf.keeps_rules clear_receive_buffer_rx quiet_rx_frame [OF sleep_quiet] quiet_rx_frame [OF monotonic_quiet]
    quiet_rx_frame [OF block_io_quiet] quiet_rx_frame [OF wait_for_quiet [OF await_io_quiet]]
    quiet_rx_frame [OF set_objects_quiet(1)] quiet_rx_frame [OF set_objects_quiet(2)] quiet_rx_frame [OF set_objects_quiet(4)]
    quiet_rx_frame [OF set_objects_quiet(5)]
  show "keeps rx_frame (usb_connect P)" unfolding usb_connect_def by (intro rules)
  have "keeps rx_frame (drain_socket_loop P d)" for d
    using drain_socket_loop_link drain_socket_loop_log by (blast intro: link_rx keepsI)
  then show "keeps rx_frame (wifi_connect P)"
    unfolding wifi_connect_def drain_socket_buffer_def by (intro rules)
qed

lemma transport_connect_rx: "keeps rx_frame (transport_connect P)"
proof -
  have "keeps rx_frame (auto_connect P)"
    unfolding auto_connect_def auto_select_def
    by (intro rf.keeps_rules connect_rx clear_receive_buffer_rx quiet_rx_frame [OF set_objects_quiet(3)]
        quiet_rx_frame [OF set_objects_quiet(4)] quiet_rx_frame [OF set_objects_quiet(5)])
  with connect_rx show ?thesis
    unfolding keeps_def transport_connect_def by (auto split: transport_class.split)
qed

lemma transport_disconnect_rx: "keeps rx_frame (transport_disconnect P)"
proof -
  note rules = rf.keeps_rules clear_receive_buffer_rx quiet_rx_frame [OF await_io_quiet]
    quiet_rx_frame [OF block_io_quiet] quiet_rx_frame [OF set_objects_quiet(1)]
    quiet_rx_frame [OF set_objects_quiet(2)] quiet_rx_frame [OF set_objects_quiet(3)] quiet_rx_frame [OF set_objects_quiet(4)]
  have u: "keeps rx_frame (usb_disconnect P)" unfolding usb_disconnect_def by (intro rules)
  have v: "keeps rx_frame (wifi_disconnect P)" unfolding wifi_disconnect_def by (intro rules)
  have "keeps rx_frame (auto_disconnect P)"
    unfolding auto_disconnect_def by (auto intro!: rules u v split: link_class.split)
  with u v show ?thesis
    unfolding keeps_def transport_disconnect_def by (auto split: transport_class.split)
qed

lemma sends_in_set_last_error: "keeps (sends_in S) (set_last_error e)"
  unfolding set_last_error_def by (rule sends_in_modify) simp

lemma sends_in_client:
  "keeps (sends_in S) (connect P)" "keeps (sends_in S) (disconnect P)" "keeps (sends_in S) (ensure_connected P)"
proof -
  show c: "keeps (sends_in S) (connect P)"
    unfolding connect_def new_rpc_def
    by (intro sends_in_rules sends_in_rx transport_connect_rx sends_in_set_last_error sends_in_modify) simp_all
  show d: "keeps (sends_in S) (disconnect P)"
    unfolding disconnect_def
    by (intro sends_in_rules sends_in_rx transport_disconnect_rx sends_in_set_last_error sends_in_modify) simp_all
  have "keeps (sends_in S) (transport_is_connected P)"
    by (rule keepsI) (metis transport_is_connected_pure prod.inject sf.refl)
  with c d show "keeps (sends_in S) (ensure_connected P)"
    unfolding ensure_connected_def by (intro sends_in_rules)
qed

lemma sends_in_rpc_tool: "keeps (sends_in S) m \<Longrightarrow> keeps (sends_in S) (rpc_tool P m)"
  unfolding rpc_tool_def reporting_def get_rpc_def by (intro sends_in_rules sends_in_client)

section \<open>What the configuration allows\<close>

fun changes_device :: "request_body \<Rightarrow> bool" where
  "changes_device (StorageWriteRequest _ _) = True"
| "changes_device (StorageDeleteRequest _ _) = True"
| "changes_device (StorageMkdirRequest _) = True"
| "changes_device (StorageRenameRequest _ _) = True"
| "changes_device (AppStartRequest _ _) = True"
| "changes_device (UpdateRequest _) = True"
| "changes_device RebootRequestUpdate = True"
| "changes_device _ = False"

fun flashes :: "request_body \<Rightarrow> bool" where
  "flashes (UpdateRequest _) = True"
| "flashes RebootRequestUpdate = True"
| "flashes _ = False"

text \<open>The session handling, the requests the operator's flags allow, and the command lines that are
  benign or allowed by the transmit flag.\<close>

definition allowed :: "'d platform \<Rightarrow> flipper_config \<Rightarrow> bytes set" where
  "allowed P cfg =
     negotiation_sends P \<union> {framed (serialize P (main_request 0 False StopSession))} \<union>
     {frame_of P i nxt q | i nxt q.
        (changes_device q \<longrightarrow> cfg_enable_write_tools cfg) \<and> (flashes q \<longrightarrow> cfg_enable_firmware_flash cfg)} \<union>
     {encode command @ [0x0D] | command. risk_gated (classify command) \<longrightarrow> cfg_enable_tx_tools cfg}"

lemma may_allowed:
  "(changes_device q \<Longrightarrow> cfg_enable_write_tools cfg) \<Longrightarrow> (flashes q \<Longrightarrow> cfg_enable_firmware_flash cfg) \<Longrightarrow>
   may P (allowed P cfg) q"
  unfolding may_def allowed_def by blast

abbreviation confined :: "'d platform \<Rightarrow> flipper_config \<Rightarrow> (('d, 'z) cworld_scheme, 'a) action \<Rightarrow> bool" where
  "confined P cfg \<equiv> keeps (sends_in (allowed P cfg))"

lemma sends_prefix_in: "sends_prefix bs m \<Longrightarrow> set bs \<subseteq> S \<Longrightarrow> keeps (sends_in S) m"
  by (rule keepsI) (auto simp: sends_in_def elim!: sends_prefixD)

lemma cli_exec_confined:
  assumes "tx \<Longrightarrow> cfg_enable_tx_tools cfg"
  shows "confined P cfg (cli_exec P command timeout accept tx)"
proof (rule keepsI)
  fix w r w' assume run: "cli_exec P command timeout accept tx w = (r, w')"
  show "sends_in (allowed P cfg) w w'"
  proof (cases "cli_permitted command accept tx w")
    case False
    with run cli_exec_refused [OF False] show ?thesis by (metis prod.inject sf.refl)
  next
    case True
    then have "set (cli_writes P command) \<subseteq> allowed P cfg"
      using assms by (auto simp: cli_writes_def cli_permitted_def allowed_def negotiation_sends_def)
    then have "keeps (sends_in (allowed P cfg)) (cli_exchange P command timeout)"
      by (rule sends_prefix_in [OF cli_exchange_wire])
    then have c: "confined P cfg (bindM (with_lock (cli_exchange P command timeout)) (\<lambda>(output, completed).
       ret \<lparr>x_output = output, x_completed = completed, x_risk = category_text (risk_category (classify command)),
            x_warning = risk_warning (classify command)\<rparr>))"
      by (intro sends_in_rules)
    show ?thesis by (rule keepsD [OF c]) (rule trans [OF cli_exec_allowed [OF True, symmetric] run])
  qed
qed

lemma cli_typed_confined: "confined P cfg (cli_typed P command t)"
  unfolding cli_typed_def reporting_def
  by (intro sends_in_rules sends_in_client cli_exec_confined) simp

lemma gate_confined:
  "(cfg_enable_write_tools cfg \<Longrightarrow> confined P cfg m) \<Longrightarrow> confined P cfg (thenM (require_write_tools cfg) m)"
  by (cases "cfg_enable_write_tools cfg") (simp_all add: require_write_tools_def thenM_def sf.keeps_rules)

lemma helpers_confined: "confined P cfg (answer msg x)" "confined P cfg (insist msg b)" "confined P cfg (verify_md5 a d p)"
  unfolding answer_def insist_def verify_md5_def by (intro sf.keeps_rules)+

lemmas confined_rules = sf.keeps_rules sends_in_basic sends_in_rpc_tool helpers_confined may_allowed sends_in_lift
  may_rpc_calls may_device_info may_storage_calls cli_typed_confined gate_confined

lemma health_confined: "confined P cfg (get_connection_health P probe)"
proof -
  have "keeps (sends_in S) (transport_is_connected P)" for S
    by (rule keepsI) (metis transport_is_connected_pure prod.inject sf.refl)
  then show ?thesis
    unfolding get_connection_health_def probe_health_def
    by (intro confined_rules sends_in_set_last_error) simp_all
qed

lemma device_info_confined: "confined P cfg (get_device_info P)"
  unfolding get_device_info_def by (intro confined_rules sends_in_set_last_error) simp_all

lemma sd_card_confined: "confined P cfg (check_sd_card_available P)"
  unfolding check_sd_card_available_def
  by (intro confined_rules sends_in_set_last_error sends_in_modify) simp_all

section \<open>The tools\<close>

text \<open>With both flags on, every request of the RPC layer is allowed.\<close>

definition rpc_frames :: "'d platform \<Rightarrow> bytes set" where
  "rpc_frames P = negotiation_sends P \<union> {frame_of P i nxt q | i nxt q. True}"

lemma may_rpc_frames: "may P (rpc_frames P) q"
  unfolding may_def rpc_frames_def by blast

interpretation sending_install: installer_frame "sends_in (rpc_frames P)" "rpc_ops P" for P
  by unfold_locales
    (simp_all add: rpc_ops_def may_rpc_calls may_storage_calls may_device_info may_rpc_frames sends_in_basic)

lemma install_confined:
  assumes "cfg_enable_write_tools cfg" and "cfg_enable_firmware_flash cfg"
  shows "confined P cfg (install_bundle (rpc_ops P) b pkg (Some (resync_session P)))"
proof -
  have "keeps (sends_in (rpc_frames P)) (resync_session P)"
    unfolding resync_session_def by (intro sends_in_rules sends_in_client)
  then have "keeps (sends_in (rpc_frames P)) (install_bundle (rpc_ops P) b pkg (Some (resync_session P)))"
    by (intro sending_install.install_keeps) auto
  moreover have "rpc_frames P \<subseteq> allowed P cfg"
    using assms unfolding rpc_frames_def allowed_def by blast
  ultimately show ?thesis by (rule sends_in_subset)
qed

lemma bundle_confined: "confined P cfg (resolve H source target)"
proof -
  have fetch: "confined P cfg (fetch H url)" for url
    unfolding fetch_def by (intro confined_rules)
  show ?thesis
    unfolding resolve_def download_bundle_def download_official_def download_momentum_def load_local_bundle_def
    by (auto split: option.split firmware_flavor.split intro!: confined_rules fetch)
qed

lemma reconnect_confined: "confined P cfg (reconnect_loop P before k l)"
proof (induction k arbitrary: l)
  case 0
  show ?case by (auto split: option.split intro: confined_rules)
next
  case (Suc k)
  show ?case
    unfolding reconnect_loop.simps read_firmware_def
    by (intro confined_rules sends_in_client device_info_confined Suc.IH)
qed

lemma firmware_confined: "confined P cfg (firmware_install P H cfg source confirm)"
proof (cases "cfg_enable_write_tools cfg \<and> cfg_enable_firmware_flash cfg")
  case True
  have "confined P cfg (flash P H source target)" for target
    unfolding flash_def using True by (intro confined_rules bundle_confined install_confined) simp_all
  moreover have "confined P cfg (identify_device P)"
    unfolding identify_device_def reporting_def get_rpc_def
    by (intro confined_rules sends_in_client) simp_all
  moreover have "confined P cfg (interlock confirm device)" for device
    unfolding interlock_def by (intro confined_rules)
  ultimately show ?thesis
    unfolding firmware_install_def require_firmware_flash_def require_write_tools_def reconnect_and_classify_def
    by (intro confined_rules reconnect_confined)
next
  case False
  then show ?thesis
    unfolding firmware_install_def require_firmware_flash_def require_write_tools_def
    by (auto simp: thenM_def intro: confined_rules)
qed

lemma storage_tools_confined:
  "confined P cfg (fs_info P path)" "confined P cfg (fs_stat P path)" "confined P cfg (fs_timestamp P path)"
  "confined P cfg (fs_list P path)" "confined P cfg (fs_mkdir P cfg path)" "confined P cfg (fs_delete P cfg path rec)"
  "confined P cfg (fs_rename P cfg path path')" "confined P cfg (fs_pull P H path path')"
  unfolding fs_info_def fs_stat_def fs_timestamp_def fs_list_def fs_mkdir_def fs_delete_def fs_rename_def fs_pull_def
  by (intro confined_rules; simp)+

lemma fs_push_confined: "confined P cfg (fs_push P H cfg path path')"
  unfolding fs_push_def push_transfer_def get_rpc_def
  by (intro confined_rules sends_in_client; simp)

lemma read_tools_confined:
  "confined P cfg (tool_app_lock_status P)" "confined P cfg (tool_app_get_error P)"
  "confined P cfg (tool_desktop_is_locked P)" "confined P cfg (tool_gpio_read P pin)"
  "confined P cfg (tool_power_info P)" "confined P cfg (tool_protobuf_version P)" "confined P cfg (tool_datetime P)"
  "confined P cfg (tool_ping P)" "confined P cfg (tool_property_get P key)"
  "confined P cfg (tool_app_start P cfg name args)"
  unfolding tool_app_lock_status_def tool_app_get_error_def tool_desktop_is_locked_def tool_gpio_read_def
    tool_power_info_def tool_protobuf_version_def tool_datetime_def tool_ping_def tool_property_get_def tool_app_start_def
  by (intro confined_rules; simp)+

lemma text_tools_confined:
  "confined P cfg (core_status P)" "confined P cfg (fs_tree P path)" "confined P cfg (loader_list P)"
  "confined P cfg (i2c_scan P)" "confined P cfg (tool_cli_exec P cfg command t accept)"
  unfolding core_status_def fs_tree_def loader_list_def i2c_scan_def tool_cli_exec_def reporting_def
  by (intro confined_rules cli_exec_confined sends_in_client; simp)+

lemma connection_tools_confined:
  "confined P cfg (connection_health_tool P probe)" "confined P cfg (connection_reconnect P probe)"
  "confined P cfg (system_info P)"
  unfolding connection_health_tool_def connection_reconnect_def system_info_def reporting_def
  by (intro confined_rules health_confined device_info_confined sd_card_confined sends_in_client)+

lemma run_tool_confined: "confined P cfg (run_tool P H cfg c)"
  by (cases c)
    (simp_all add: storage_tools_confined fs_push_confined read_tools_confined text_tools_confined connection_tools_confined
      firmware_confined sf.keeps_bindM sf.keeps_ret)

end
