(* ===== verification/Server_Invariant.thy ===== *)
theory Server_Invariant
  imports Server Client_Properties Installer_Spec
begin

text \<open>
  What every tool call leaves behind: the state between two calls.
\<close>

section \<open>The frame of the client\<close>

text \<open>A client holds an RPC object exactly when it counts as connected, and the link is in a known mode
  only while it holds one.\<close>

definition client_ok :: "('d, 'z) cworld_scheme \<Rightarrow> bool" where
  "client_ok w \<longleftrightarrow> c_connected w = c_rpc w \<and> (c_mode w \<noteq> UNKNOWN \<longrightarrow> c_rpc w)"

definition s_frame :: "('d, 'z) cworld_scheme \<Rightarrow> ('d, 'z) cworld_scheme \<Rightarrow> bool" where
  "s_frame w w' \<longleftrightarrow> io_frame w w' \<and> t_class w' = t_class w \<and> (client_ok w \<longrightarrow> client_ok w')"

interpretation sv: frame_rel s_frame
proof
  fix w w' w'' :: "('d, 'z) cworld_scheme"
  show "s_frame w w" by (simp add: s_frame_def io.refl)
  assume "s_frame w w'" and "s_frame w' w''"
  then show "s_frame w w''" by (auto simp: s_frame_def intro: io.trans)
qed

lemma more_fields:
  fixes w :: "('d, 'z) cworld_scheme"
  assumes "rworld.more w' = rworld.more w"
  shows "c_connected w' = c_connected w" "c_rpc w' = c_rpc w" "c_mode w' = c_mode w"
  using assms by (cases w; cases w'; simp)+

lemma r_frame_s: "r_frame w w' \<Longrightarrow> s_frame w w'"
  using more_fields [of w' w] by (auto simp: r_frame_def s_frame_def client_ok_def)

lemma keeps_r_s: "keeps r_frame m \<Longrightarrow> keeps s_frame m"
  by (erule keeps_mono) (rule r_frame_s)

lemma keeps_t_s: "keeps t_frame m \<Longrightarrow> keeps s_frame m"
  by (blast intro: keeps_r_s keeps_t_r)

lemma set_last_error_s: "keeps s_frame (set_last_error e)"
  by (simp add: keeps_def set_last_error_def modify_def s_frame_def io_frame_def client_ok_def)

lemma sd_card_s: "keeps s_frame (modify (\<lambda>w. w\<lparr>c_sd_card := x\<rparr>))"
  by (simp add: keeps_def modify_def s_frame_def io_frame_def client_ok_def)

lemma transport_disconnect_t: "keeps t_frame (transport_disconnect P)"
proof -
  note rules = tf.keeps_rules t_modifies clear_receive_buffer_t link_keeps_t_frame [OF block_io_link]
    link_keeps_t_frame [OF await_io_link]
  have u: "keeps t_frame (usb_disconnect P)"
    unfolding usb_disconnect_def set_usb_connected_def by (intro rules)
  have v: "keeps t_frame (wifi_disconnect P)"
    unfolding wifi_disconnect_def set_wifi_def by (intro rules)
  have "keeps t_frame (auto_disconnect P)"
    unfolding auto_disconnect_def set_auto_def by (auto intro!: rules u v split: link_class.split)
  with u v show ?thesis
    unfolding keeps_def transport_disconnect_def by (auto split: transport_class.split)
qed

text \<open>A reset of the client's fields, all at once, as connecting and disconnecting end in.\<close>

lemma reset_s:
  "keeps s_frame (modify (\<lambda>w. w\<lparr>c_connected := False, c_rpc := False, c_sd_card := None, c_mode := UNKNOWN\<rparr>))"
  "keeps s_frame (thenM new_rpc (thenM (modify (\<lambda>w. w\<lparr>c_connected := True, c_last_error := None, c_sd_card := None,
     c_mode := UNKNOWN\<rparr>)) (ret True)))"
  by (simp_all add: keeps_def new_rpc_def action_defs s_frame_def io_frame_def client_ok_def)

lemma client_s:
  "keeps s_frame (connect P)" "keeps s_frame (disconnect P)" "keeps s_frame (ensure_connected P)"
proof -
  show c: "keeps s_frame (connect P)"
    unfolding connect_def
    by (intro sv.keeps_bindM sv.keeps_if sv.keeps_ret reset_s sv.keeps_try_except keeps_t_s [OF transport_connect_t]
        sv.keeps_thenM [OF set_last_error_s])
  show d: "keeps s_frame (disconnect P)"
    unfolding disconnect_def
    by (intro sv.keeps_thenM sv.keeps_try_except keeps_t_s [OF transport_disconnect_t] set_last_error_s reset_s)
  have "keeps s_frame (transport_is_connected P)"
    by (rule keepsI) (metis transport_is_connected_pure prod.inject sv.refl)
  with c d show "keeps s_frame (ensure_connected P)"
    unfolding ensure_connected_def by (intro sv.keeps_rules)
qed

section \<open>The CLI\<close>

text \<open>The exchange changes the mode to CLI; it runs only when there is an RPC object.\<close>

definition cli_frame :: "('d, 'z) cworld_scheme \<Rightarrow> ('d, 'z) cworld_scheme \<Rightarrow> bool" where
  "cli_frame w w' \<longleftrightarrow> io_frame w w' \<and> t_class w' = t_class w \<and> c_connected w' = c_connected w \<and> c_rpc w' = c_rpc w"

interpretation clf: frame_rel cli_frame
proof
  fix w w' w'' :: "('d, 'z) cworld_scheme"
  show "cli_frame w w" by (simp add: cli_frame_def io.refl)
  assume "cli_frame w w'" and "cli_frame w' w''"
  then show "cli_frame w w''" by (auto simp: cli_frame_def intro: io.trans)
qed

lemma keeps_r_cli: "keeps r_frame m \<Longrightarrow> keeps cli_frame m"
  by (erule keeps_mono) (auto simp: r_frame_def cli_frame_def dest: more_fields)

lemma keeps_t_cli: "keeps t_frame m \<Longrightarrow> keeps cli_frame m"
  by (blast intro: keeps_r_cli keeps_t_r)

lemma cli_exchange_frame: "keeps cli_frame (cli_exchange P command timeout)"
proof -
  have mode: "keeps cli_frame (set_mode m)" for m
    by (simp add: keeps_def set_mode_def modify_def cli_frame_def io_frame_def)
  have stop: "keeps r_frame (send_stop_session P)"
    unfolding send_stop_session_def
    by (intro rcall_rules set_session_r keeps_t_r [OF quiet_keeps_t]) blast
  show ?thesis
    unfolding cli_exchange_def
    by (intro clf.keeps_rules mode keeps_r_cli [OF stop] keeps_t_cli [OF clear_receive_buffer_t]
        keeps_t_cli [OF transport_send_t] keeps_t_cli [OF quiet_keeps_t [OF read_until_prompt_quiet]])
qed

lemma cli_exec_s: "keeps s_frame (cli_exec P command timeout accept tx)"
proof (rule keepsI)
  fix w r w' assume run: "cli_exec P command timeout accept tx w = (r, w')"
  show "s_frame w w'"
  proof (cases "cli_permitted command accept tx w")
    case False
    with run cli_exec_refused [OF False] show ?thesis by (metis prod.inject sv.refl)
  next
    case True
    obtain r1 w1 where l: "with_lock (cli_exchange P command timeout) w = (r1, w1)" by fastforce
    have "w' = w1"
      using run l unfolding cli_exec_allowed [OF True] by (auto simp: bindM_def ret_def split: sum.splits prod.splits)
    moreover have "cli_frame w w1"
    proof (cases "io_locked w")
      case False
      obtain r2 v where v: "cli_exchange P command timeout (w\<lparr>io_locked := True\<rparr>) = (r2, v)" by fastforce
      with keepsD [OF cli_exchange_frame v] l False show ?thesis
        by (auto simp: with_lock_def cli_frame_def io_frame_def)
    qed (use l in \<open>simp add: with_lock_def clf.refl\<close>)
    ultimately show ?thesis
      using True by (auto simp: cli_frame_def s_frame_def client_ok_def cli_permitted_def)
  qed
qed

section \<open>The tools\<close>

lemma block_io_s: "keeps s_frame (block_io f)" and await_io_s: "keeps s_frame (await_io f)"
  by (rule keeps_t_s [OF link_keeps_t_frame], blast)+

lemma lift_result_s: "keeps s_frame (lift_result r)"
  by (simp add: keeps_def lift_result_def sv.refl)

lemma rpc_tool_s: "keeps r_frame m \<Longrightarrow> keeps s_frame (rpc_tool P m)"
  unfolding rpc_tool_def reporting_def get_rpc_def by (intro sv.keeps_rules client_s keeps_r_s)

lemma helpers_s:
  "keeps s_frame (answer msg x)" "keeps s_frame (insist msg b)" "keeps s_frame (verify_md5 a d p)"
  "keeps s_frame (require_write_tools cfg)"
  unfolding answer_def insist_def verify_md5_def require_write_tools_def by (intro sv.keeps_rules)+

lemma cli_typed_s: "keeps s_frame (cli_typed P command t)"
  unfolding cli_typed_def reporting_def by (intro sv.keeps_rules client_s cli_exec_s)

lemmas s_rules = sv.keeps_rules block_io_s await_io_s lift_result_s rpc_tool_s helpers_s cli_typed_s client_s
  rpc_calls_r storage_calls_r ping_r

lemma facts_s:
  "keeps s_frame (get_connection_health P probe)" "keeps s_frame (get_device_info P)"
  "keeps s_frame (check_sd_card_available P)"
proof -
  have "keeps s_frame (transport_is_connected P)"
    by (rule keepsI) (metis transport_is_connected_pure prod.inject sv.refl)
  then show "keeps s_frame (get_connection_health P probe)"
    unfolding get_connection_health_def probe_health_def
    by (intro s_rules set_last_error_s keeps_r_s [OF ping_r])
  show "keeps s_frame (get_device_info P)"
    unfolding get_device_info_def by (intro s_rules set_last_error_s keeps_r_s [OF rpc_calls_r(12)])
  show "keeps s_frame (check_sd_card_available P)"
    unfolding check_sd_card_available_def
    by (intro s_rules set_last_error_s sd_card_s keeps_r_s [OF storage_calls_r(4)])
qed

interpretation serving_install: installer_frame s_frame "rpc_ops P" for P
  by unfold_locales
    (simp_all add: rpc_ops_def keeps_r_s [OF rpc_calls_r(12)] keeps_r_s [OF storage_calls_r(8)]
      keeps_r_s [OF storage_calls_r(11)] keeps_r_s [OF storage_calls_r(7)] keeps_r_s [OF storage_calls_r(5)]
      keeps_r_s [OF rpc_calls_r(8)] keeps_r_s [OF rpc_calls_r(9)] keeps_t_s [OF sleep_t])

lemma firmware_s: "keeps s_frame (firmware_install P H cfg source confirm)"
proof -
  have fetch: "keeps s_frame (fetch H url)" for url
    unfolding fetch_def by (intro s_rules)
  have resolve: "keeps s_frame (resolve H source target)" for target
    unfolding resolve_def download_bundle_def download_official_def download_momentum_def load_local_bundle_def
    by (auto split: option.split firmware_flavor.split intro!: s_rules fetch)
  have resync: "keeps s_frame (resync_session P)"
    unfolding resync_session_def by (intro s_rules)
  have "keeps s_frame (install_bundle (rpc_ops P) b pkg (Some (resync_session P)))" for b pkg
    using resync by (intro serving_install.install_keeps) auto
  then have flash: "keeps s_frame (flash P H source target)" for target
    unfolding flash_def by (intro s_rules resolve)
  have loop: "keeps s_frame (reconnect_loop P before k l)" for before k l
  proof (induction k arbitrary: l)
    case 0
    show ?case by (auto split: option.split intro: s_rules)
  next
    case (Suc k)
    show ?case
      unfolding reconnect_loop.simps read_firmware_def by (intro s_rules facts_s keeps_t_s [OF sleep_t] Suc.IH)
  qed
  show ?thesis
    unfolding firmware_install_def require_firmware_flash_def identify_device_def reporting_def get_rpc_def interlock_def
      reconnect_and_classify_def
    by (intro s_rules keeps_r_s [OF rpc_calls_r(12)] flash loop)
qed

lemma storage_tools_s:
  "keeps s_frame (fs_info P path)" "keeps s_frame (fs_stat P path)" "keeps s_frame (fs_timestamp P path)"
  "keeps s_frame (fs_list P path)" "keeps s_frame (fs_mkdir P cfg path)" "keeps s_frame (fs_delete P cfg path rec)"
  "keeps s_frame (fs_rename P cfg path path')" "keeps s_frame (fs_push P H cfg path path')"
  "keeps s_frame (fs_pull P H path path')"
  unfolding fs_info_def fs_stat_def fs_timestamp_def fs_list_def fs_mkdir_def fs_delete_def fs_rename_def fs_push_def
    fs_pull_def push_transfer_def get_rpc_def
  by (intro s_rules rpcf.keeps_rules keeps_r_s [OF storage_calls_r(11)] keeps_r_s [OF storage_calls_r(7)])+

lemma read_tools_s:
  "keeps s_frame (tool_app_lock_status P)" "keeps s_frame (tool_app_get_error P)"
  "keeps s_frame (tool_desktop_is_locked P)" "keeps s_frame (tool_gpio_read P pin)"
  "keeps s_frame (tool_power_info P)" "keeps s_frame (tool_protobuf_version P)" "keeps s_frame (tool_datetime P)"
  "keeps s_frame (tool_ping P)" "keeps s_frame (tool_property_get P key)" "keeps s_frame (tool_app_start P cfg name args)"
  "keeps s_frame (core_status P)" "keeps s_frame (fs_tree P path)" "keeps s_frame (loader_list P)"
  "keeps s_frame (i2c_scan P)" "keeps s_frame (tool_cli_exec P cfg command t accept)"
  "keeps s_frame (connection_health_tool P probe)" "keeps s_frame (connection_reconnect P probe)"
  "keeps s_frame (system_info P)"
  unfolding tool_app_lock_status_def tool_app_get_error_def tool_desktop_is_locked_def tool_gpio_read_def
    tool_power_info_def tool_protobuf_version_def tool_datetime_def tool_ping_def tool_property_get_def tool_app_start_def
    core_status_def fs_tree_def loader_list_def i2c_scan_def tool_cli_exec_def connection_health_tool_def
    connection_reconnect_def system_info_def reporting_def
  by (intro s_rules cli_exec_s facts_s)+

lemma run_tool_s: "keeps s_frame (run_tool P H cfg c)"
  by (cases c) (simp_all add: storage_tools_s read_tools_s firmware_s sv.keeps_bindM sv.keeps_ret)

end
