(* ===== verification/Progress.thy ===== *)
theory Progress
  imports Server Installer_Spec
begin

text \<open>
  Every operation returns: it takes the lock only when it is free, leaves the lock and the deadline as they
  were, and ends in a value or an ordinary exception unless an enclosing deadline cancels it.
\<close>

section \<open>Plain results\<close>

text \<open>A result is plain when it is a value or an ordinary exception.  Of the libraries this is what
  their documentation says: a call returns or raises.\<close>

definition plain :: "exn + 'a \<Rightarrow> bool" where
  "plain r \<longleftrightarrow> (case r of Inl e \<Rightarrow> is_exception e | Inr _ \<Rightarrow> True)"

definition plain_op :: "('d, 'a) platform_op \<Rightarrow> bool" where
  "plain_op f \<longleftrightarrow> (\<forall>lim t d. plain (fst (f lim t d)))"

definition plain_platform :: "'d platform \<Rightarrow> bool" where
  "plain_platform P \<longleftrightarrow>
     (\<forall>port baud t. plain_op (serial_open P port baud t)) \<and> plain_op (serial_close P) \<and>
     (\<forall>data. plain_op (serial_write P data)) \<and> (\<forall>n t. plain_op (serial_read P n t)) \<and>
     (\<forall>host port. plain_op (tcp_open P host port)) \<and> (\<forall>n. plain_op (tcp_read P n)) \<and>
     (\<forall>data. plain_op (tcp_write P data)) \<and> plain_op (tcp_close P)"

definition plain_members :: "tar_member list \<Rightarrow> bool" where
  "plain_members ms \<longleftrightarrow> list_all (\<lambda>m. plain (tm_data m)) ms"

definition plain_host :: "'d host \<Rightarrow> bool" where
  "plain_host H \<longleftrightarrow>
     (\<forall>path. plain_op (read_bytes H path)) \<and> (\<forall>path data. plain_op (write_bytes H path data)) \<and>
     (\<forall>path. plain_op (tar_open H path)) \<and> (\<forall>url. plain_op (http_get H url)) \<and>
     (\<forall>data. plain (tar_of_bytes H data)) \<and> (\<forall>data. plain (json_loads H data)) \<and>
     (\<forall>path lim t d ms. fst (tar_open H path lim t d) = Inr ms \<longrightarrow> plain_members ms) \<and>
     (\<forall>data ms. tar_of_bytes H data = Inr ms \<longrightarrow> plain_members ms)"

lemma plain_Inr [simp]: "plain (Inr x)" and plain_Inl [simp]: "plain (Inl e) \<longleftrightarrow> is_exception e"
  by (simp_all add: plain_def)

lemma plain_bindR: "plain r \<Longrightarrow> (\<And>x. r = Inr x \<Longrightarrow> plain (k x)) \<Longrightarrow> plain (bindR r k)"
  by (cases r) simp_all

lemma plain_catchR: "plain r \<Longrightarrow> (\<And>e. is_exception (h e)) \<Longrightarrow> plain (catchR p r h)"
  by (cases r) (simp_all add: catchR_def)

lemma plain_if: "(b \<Longrightarrow> plain r) \<Longrightarrow> (\<not> b \<Longrightarrow> plain r') \<Longrightarrow> plain (if b then r else r')"
  by simp

lemma plain_json: "plain (jget v k d)" "plain (jkey v k)" "plain (jiter v)"
  by (cases v; simp split: option.split)+

lemma plain_jfirst: "plain (jfirst v)"
  by (cases v rule: jfirst.cases) simp_all

lemma plain_jfind: "plain (jfind k text vs)"
proof (induction vs)
  case (Cons v vs)
  with plain_json(1) [of v k JNull] show ?case by (cases "jget v k JNull") simp_all
qed simp

lemmas plain_rules = plain_bindR plain_catchR plain_if plain_json plain_jfirst plain_jfind plain_Inr

section \<open>Returning\<close>

definition ends :: "('d, 'z) world_scheme \<Rightarrow> exn + 'a \<Rightarrow> ('d, 'z) world_scheme \<Rightarrow> bool" where
  "ends w r w' \<longleftrightarrow> cancel_at w' = cancel_at w \<and> io_locked w' = io_locked w \<and>
     (plain r \<or> r = Inl Cancelled \<and> cancel_at w \<noteq> None)"

text \<open>\<open>returns True\<close> is for the actions that need the lock to be free.\<close>

definition returns :: "bool \<Rightarrow> (('d, 'z) world_scheme, 'a) action \<Rightarrow> bool" where
  "returns b m \<longleftrightarrow> (\<forall>w r w'. m w = (r, w') \<longrightarrow> (b \<longrightarrow> \<not> io_locked w) \<longrightarrow> ends w r w')"

lemma returnsI: "(\<And>w r w'. m w = (r, w') \<Longrightarrow> (b \<Longrightarrow> \<not> io_locked w) \<Longrightarrow> ends w r w') \<Longrightarrow> returns b m"
  unfolding returns_def by blast

lemma returnsD: "returns b m \<Longrightarrow> m w = (r, w') \<Longrightarrow> (b \<Longrightarrow> \<not> io_locked w) \<Longrightarrow> ends w r w'"
  unfolding returns_def by blast

lemma ends_then: "ends w (Inr x) v \<Longrightarrow> ends v r w' \<Longrightarrow> ends w r w'"
  and ends_Inl: "ends w (Inl e) w' \<Longrightarrow> ends w (Inl e) w'"
  and ends_lock: "ends w r w' \<Longrightarrow> io_locked w' = io_locked w"
  by (auto simp: ends_def)

lemma ends_raised: "ends w (Inl e :: exn + 'a) v \<Longrightarrow> ends w (Inl e :: exn + 'b) v"
  by (simp add: ends_def)

lemma ends_handled: "ends w (Inl e) v \<Longrightarrow> ends v r w' \<Longrightarrow> ends w r w'"
  by (auto simp: ends_def)

lemma returns_ret: "returns b (ret x)"
  by (simp add: returns_def ret_def ends_def)

lemma returns_raise: "is_exception e \<Longrightarrow> returns b (raise e)"
  by (simp add: returns_def raise_def ends_def)

lemma returns_get: "returns b (get f)"
  by (simp add: returns_def get_def ends_def)

lemma returns_modify:
  "(\<And>w. cancel_at (f w) = cancel_at w \<and> io_locked (f w) = io_locked w) \<Longrightarrow> returns b (modify f)"
  by (simp add: returns_def modify_def ends_def)

lemma returns_lift: "plain r \<Longrightarrow> returns b (lift_result r)"
  by (simp add: returns_def lift_result_def ends_def)

lemma returns_bindM:
  assumes "returns b m" and "\<And>x. returns b (k x)"
  shows "returns b (bindM m k)"
proof (rule returnsI)
  fix w r w' assume run: "bindM m k w = (r, w')" and l: "b \<Longrightarrow> \<not> io_locked w"
  obtain r1 v where v: "m w = (r1, v)" by fastforce
  from returnsD [OF assms(1) v l] have e: "ends w r1 v" .
  show "ends w r w'"
  proof (cases r1)
    case (Inl e')
    with run v e show ?thesis by (auto simp: bindM_def ends_def)
  next
    case (Inr x)
    with run v have k: "k x v = (r, w')" by (simp add: bindM_def)
    have "ends v r w'" using returnsD [OF assms(2) k] l ends_lock [OF e] by blast
    with e Inr show ?thesis by (blast intro: ends_then)
  qed
qed

lemma returns_thenM: "returns b m \<Longrightarrow> returns b k \<Longrightarrow> returns b (thenM m k)"
  by (simp add: thenM_def returns_bindM)

lemma returns_try_except:
  assumes "returns b m" and "\<And>e. p e \<Longrightarrow> returns b (h e)"
  shows "returns b (try_except p m h)"
proof (rule returnsI)
  fix w r w' assume run: "try_except p m h w = (r, w')" and l: "b \<Longrightarrow> \<not> io_locked w"
  obtain r1 v where v: "m w = (r1, v)" by fastforce
  from returnsD [OF assms(1) v l] have e: "ends w r1 v" .
  show "ends w r w'"
  proof (cases "\<exists>x. r1 = Inl x \<and> p x")
    case False
    with run v e show ?thesis by (auto simp: try_except_def split: sum.splits if_splits)
  next
    case True
    then obtain x where x: "r1 = Inl x" "p x" by blast
    with run v have h: "h x v = (r, w')" by (simp add: try_except_def)
    have "ends v r w'" using returnsD [OF assms(2) [OF x(2)] h] l ends_lock [OF e] by blast
    with e x show ?thesis by (blast intro: ends_handled)
  qed
qed

lemma returns_try_finally:
  assumes "returns b m" and "returns b f"
  shows "returns b (try_finally m f)"
proof (rule returnsI)
  fix w r w' assume run: "try_finally m f w = (r, w')" and l: "b \<Longrightarrow> \<not> io_locked w"
  obtain r1 v where v: "m w = (r1, v)" by fastforce
  obtain r2 u where u: "f v = (r2, u)" by fastforce
  from returnsD [OF assms(1) v l] have e: "ends w r1 v" .
  have "ends v r2 u" using returnsD [OF assms(2) u] l ends_lock [OF e] by blast
  with run v u e show "ends w r w'" by (auto simp: try_finally_def ends_def split: sum.splits)
qed

lemma returns_if: "(c \<Longrightarrow> returns b m) \<Longrightarrow> (\<not> c \<Longrightarrow> returns b m') \<Longrightarrow> returns b (if c then m else m')"
  by simp

lemma returns_option:
  "(z = None \<Longrightarrow> returns b m) \<Longrightarrow> (\<And>x. z = Some x \<Longrightarrow> returns b (k x)) \<Longrightarrow>
   returns b (case z of None \<Rightarrow> m | Some x \<Rightarrow> k x)"
  by (simp split: option.split)

lemma returns_prod: "(\<And>x y. z = (x, y) \<Longrightarrow> returns b (k x y)) \<Longrightarrow> returns b (case z of (x, y) \<Rightarrow> k x y)"
  by (simp split: prod.split)

lemma returns_let: "returns b (k x) \<Longrightarrow> returns b (let y = x in k y)"
  by simp

lemma returns_wait_for:
  assumes "returns b m"
  shows "returns b (wait_for t m)"
proof (rule returnsI)
  fix w r w' assume run: "wait_for t m w = (r, w')" and l: "b \<Longrightarrow> \<not> io_locked w"
  let ?v = "w\<lparr>cancel_at := Some (if case cancel_at w of None \<Rightarrow> True | Some c \<Rightarrow> now w + t < c
              then now w + t else the (cancel_at w))\<rparr>"
  obtain r1 v where v: "m ?v = (r1, v)" by fastforce
  from returnsD [OF assms v] l have "ends ?v r1 v" by simp
  with run v show "ends w r w'"
    by (cases "cancel_at w") (auto simp: wait_for_def Let_def ends_def plain_def split: if_splits sum.splits)
qed

lemma returns_with_lock:
  assumes "returns False m"
  shows "returns True (with_lock m)"
proof (rule returnsI)
  fix w r w' assume run: "with_lock m w = (r, w')" and l: "True \<Longrightarrow> \<not> io_locked w"
  obtain r1 v where v: "m (w\<lparr>io_locked := True\<rparr>) = (r1, v)" by fastforce
  from returnsD [OF assms v] have "ends (w\<lparr>io_locked := True\<rparr>) r1 v" by simp
  with run v l show "ends w r w'" by (auto simp: with_lock_def ends_def)
qed

lemma plain_opD: "plain_op f \<Longrightarrow> f lim t d = (r, x) \<Longrightarrow> plain r"
  unfolding plain_op_def by (metis fst_conv)

lemma returns_await:
  assumes "plain_op f"
  shows "returns b (await_io f)"
proof (rule returnsI)
  fix w r w' assume run: "await_io f w = (r, w')"
  obtain r1 dt d where f: "f (map_option (\<lambda>c. c - now w) (cancel_at w)) (now w) (dev w) = (r1, dt, d)"
    by (metis prod_cases3)
  from plain_opD [OF assms f] run f show "ends w r w'"
    by (cases "cancel_at w") (auto simp: await_io_def ends_def split: if_splits)
qed

lemma returns_block:
  assumes "plain_op f"
  shows "returns b (block_io f)"
proof (rule returnsI)
  fix w r w' assume run: "block_io f w = (r, w')"
  obtain r1 dt d where f: "f None (now w) (dev w) = (r1, dt, d)" by (metis prod_cases3)
  from plain_opD [OF assms f] run f show "ends w r w'" by (auto simp: block_io_def ends_def)
qed

lemma returns_sleep: "returns b (sleep t)"
  unfolding sleep_def by (rule returns_await) (simp add: plain_op_def)

lemma returns_monotonic: "returns b monotonic"
  by (simp add: returns_def monotonic_def ends_def)

lemma returns_guarded: "returns b m \<Longrightarrow> returns b (guarded dflt m)"
  unfolding guarded_def by (intro returns_try_except returns_ret)

lemma returns_timed: "returns False m \<Longrightarrow> returns True (timed t dflt m)"
  unfolding timed_def by (intro returns_with_lock returns_try_except returns_wait_for returns_ret)

lemmas returns_rules = returns_ret returns_get returns_bindM returns_thenM returns_try_except returns_try_finally
  returns_if returns_option returns_prod returns_let returns_wait_for returns_with_lock returns_sleep
  returns_monotonic returns_guarded returns_timed

section \<open>The transports\<close>

lemma plain_ops:
  assumes "plain_platform P"
  shows "plain_op (serial_open P port baud t)" "plain_op (serial_close P)" "plain_op (serial_write P data)"
    "plain_op (serial_read P n t)" "plain_op (tcp_open P host prt)" "plain_op (tcp_read P n)"
    "plain_op (tcp_write P data)" "plain_op (tcp_close P)"
  using assms unfolding plain_platform_def by blast+

lemma returns_set:
  "returns b clear_receive_buffer" "returns b (set_usb_connected x)" "returns b (set_wifi f)" "returns b (set_auto g)"
  "returns b (log_tx data)" "returns b (modify (\<lambda>w. w\<lparr>t_usb := u w\<rparr>))" "returns b (modify (\<lambda>w. w\<lparr>t_wifi := v w\<rparr>))"
  "returns b (auto_select c)"
  unfolding clear_receive_buffer_def set_usb_connected_def set_wifi_def set_auto_def log_tx_def auto_select_def
  by (intro returns_rules returns_modify; simp)+

lemma returns_class:
  assumes "returns b (f USB)" and "returns b (f WiFi)"
  shows "returns b (f c)"
  using assms by (cases c) simp_all

lemma returns_dispatch:
  assumes "returns b m1" and "returns b m2" and "returns b m3"
  shows "returns b (\<lambda>w. case t_class w of USBTransport \<Rightarrow> m1 w | WiFiTransport \<Rightarrow> m2 w | AutoTransport \<Rightarrow> m3 w)"
  using assms unfolding returns_def by (auto split: transport_class.splits)

lemma returns_link:
  assumes "plain_platform P"
  shows "returns b (transport_send P data)" "returns b (transport_receive P t)" "returns b (transport_is_connected P)"
    "returns b (transport_disconnect P)"
proof -
  note rules = returns_rules returns_set returns_raise returns_await returns_block plain_ops [OF assms]
  have s: "returns b (usb_send P data)" "returns b (wifi_send P data)"
    unfolding usb_send_def wifi_send_def by (intro rules; simp)+
  have r: "returns b (usb_receive P t)" "returns b (wifi_receive P t)"
    unfolding usb_receive_def wifi_receive_def by (intro rules; simp)+
  have c: "returns b (usb_is_connected P)" "returns b (wifi_is_connected P)"
    unfolding usb_is_connected_def wifi_is_connected_def by (intro rules)+
  have d: "returns b (usb_disconnect P)" "returns b (wifi_disconnect P)"
    unfolding usb_disconnect_def wifi_disconnect_def by (intro rules)+
  have a: "returns b (auto_send P data)" "returns b (auto_receive P t)" "returns b (auto_is_connected P)"
    "returns b (auto_disconnect P)"
    unfolding auto_send_def auto_receive_def auto_is_connected_def auto_disconnect_def
    using s r c d by (auto intro!: rules split: link_class.split)
  show "returns b (transport_send P data)" "returns b (transport_receive P t)"
    "returns b (transport_is_connected P)" "returns b (transport_disconnect P)"
    unfolding transport_send_def [abs_def] transport_receive_def [abs_def] transport_is_connected_def [abs_def]
      transport_disconnect_def [abs_def]
    by (intro returns_dispatch s r c d a)+
qed

lemma ends_now: "ends (w\<lparr>now := n\<rparr>) r w' \<longleftrightarrow> ends w r w'" "ends w r (w'\<lparr>now := n\<rparr>) \<longleftrightarrow> ends w r w'"
    "ends w (Inr x) w"
  and ends_buffer: "ends (v\<lparr>rx_buffer := bs\<rparr>) r w' \<longleftrightarrow> ends v r w'"
  by (simp_all add: ends_def)

lemma returns_drain_socket:
  assumes "plain_platform P"
  shows "returns b (drain_socket_loop P deadline)"
proof (rule returnsI)
  fix w r w' assume "drain_socket_loop P deadline w = (r, w')"
  then show "ends w r w'"
    using assms
  proof (induction P deadline w arbitrary: r w' rule: drain_socket_loop.induct)
    case (1 P deadline w)
    have d: "returns False (drain_read P)"
      unfolding drain_read_def by (intro returns_rules returns_await plain_ops [OF "1.prems"(2)])
    obtain r1 w1 where w1: "drain_read P (w\<lparr>now := Suc (now w)\<rparr>) = (r1, w1)" by fastforce
    from returnsD [OF d w1] have e: "ends w r1 w1" by (simp add: ends_now)
    show ?case
    proof (cases "now w < deadline \<and> (\<exists>x. r1 = Inr x)")
      case True
      then obtain x where x: "r1 = Inr x" and t: "now w < deadline" by blast
      have "ends w1 r w'"
      proof (cases "x = []")
        case True
        with "1.prems"(1) w1 x t have "sleep 0 w1 = (r, w')" by (simp add: drain_socket_loop.simps [of P deadline w])
        then show ?thesis by (rule returnsD [OF returns_sleep [of False]]) simp
      next
        case False
        with "1.prems"(1) w1 x t have "drain_socket_loop P deadline w1 = (r, w')"
          by (simp add: drain_socket_loop.simps [of P deadline w])
        with "1.IH" [OF t w1 [symmetric] x False] "1.prems"(2) show ?thesis by blast
      qed
      with e x show ?thesis by (blast intro: ends_then)
    next
      case False
      with "1.prems"(1) w1 e show ?thesis
        by (auto simp: drain_socket_loop.simps [of P deadline w] ends_now split: if_splits sum.splits
            intro: ends_raised)
    qed
  qed
qed

lemma returns_connect:
  assumes "plain_platform P"
  shows "returns b (transport_connect P)"
proof -
  note rules = returns_rules returns_set returns_raise returns_await returns_block plain_ops [OF assms]
    returns_drain_socket [OF assms]
  have u: "returns b (usb_connect P)"
    unfolding usb_connect_def by (intro rules)
  have v: "returns b (wifi_connect P)"
    unfolding wifi_connect_def drain_socket_buffer_def by (intro rules)
  have "returns b (auto_connect P)"
    unfolding auto_connect_def by (intro rules u v)
  with u v show ?thesis
    unfolding transport_connect_def [abs_def] by (intro returns_dispatch)
qed

section \<open>Reading\<close>

lemma returns_receive_loop:
  assumes "plain_platform P"
  shows "returns b (receive_loop P n deadline)"
proof (rule returnsI)
  fix w r w' assume "receive_loop P n deadline w = (r, w')"
  then show "ends w r w'"
    using assms
  proof (induction P n deadline w arbitrary: r w' rule: receive_loop.induct)
    case (1 P n deadline w)
    note unfolded = receive_loop.simps [of P n deadline w]
    let ?t = "Some (deadline - now w)"
    obtain r1 w1 where w1: "transport_receive P ?t (w\<lparr>now := Suc (now w)\<rparr>) = (r1, w1)" by fastforce
    from returnsD [OF returns_link(2) [OF "1.prems"(2)] w1, of False] have e: "ends w r1 w1" by (simp add: ends_now)
    obtain r2 w2 where w2: "sleep 0 w1 = (r2, w2)" by fastforce
    from returnsD [OF returns_sleep w2, of False] have e2: "ends w1 r2 w2" by simp
    show ?case
    proof (cases "n \<le> length (rx_buffer w) \<or> deadline \<le> now w \<or> (\<exists>x. r1 = Inl x)")
      case True
      with "1.prems"(1) w1 e show ?thesis
        by (auto simp: unfolded ends_now split: if_splits intro: ends_raised)
    next
      case False
      then obtain x where x: "r1 = Inr x" and n: "\<not> n \<le> length (rx_buffer w)" and t: "\<not> deadline \<le> now w"
        by (cases r1) auto
      have "ends w1 r w'"
      proof (cases "x = []")
        case True
        show ?thesis
        proof (cases r2)
          case (Inl y)
          with "1.prems"(1) w1 w2 x n t True e2 show ?thesis by (auto simp: unfolded intro: ends_raised)
        next
          case (Inr y)
          with "1.prems"(1) w1 w2 x n t True have "receive_loop P n deadline w2 = (r, w')" by (simp add: unfolded)
          with "1.IH"(1) [OF n t w1 [symmetric] x True w2 [symmetric] Inr] "1.prems"(2) e2 Inr show ?thesis
            by (blast intro: ends_then)
        qed
      next
        case False
        with "1.prems"(1) w1 x n t have "receive_loop P n deadline (w1\<lparr>rx_buffer := rx_buffer w1 @ x\<rparr>) = (r, w')"
          by (simp add: unfolded)
        with "1.IH"(2) [OF n t w1 [symmetric] x False] "1.prems"(2) show ?thesis by (simp add: ends_buffer)
      qed
      with e x show ?thesis by (blast intro: ends_then)
    qed
  qed
qed

lemma returns_drain_host:
  assumes "plain_platform P"
  shows "returns b (drain_host_loop P end_at)"
proof (rule returnsI)
  fix w r w' assume "drain_host_loop P end_at w = (r, w')"
  then show "ends w r w'"
    using assms
  proof (induction P end_at w arbitrary: r w' rule: drain_host_loop.induct)
    case (1 P end_at w)
    note unfolded = drain_host_loop.simps [of P end_at w]
    obtain r1 w1 where w1: "transport_receive P (Some (millis 50)) (w\<lparr>now := Suc (now w)\<rparr>) = (r1, w1)" by fastforce
    from returnsD [OF returns_link(2) [OF "1.prems"(2)] w1, of False] have e: "ends w r1 w1" by (simp add: ends_now)
    obtain r2 w2 where w2: "sleep (millis 10) w1 = (r2, w2)" by fastforce
    from returnsD [OF returns_sleep w2, of False] have e2: "ends w1 r2 w2" by simp
    show ?case
    proof (cases "\<not> now w < end_at \<or> (\<exists>x. r1 = Inl x)")
      case True
      with "1.prems"(1) w1 e show ?thesis
        by (auto simp: unfolded ends_now split: if_splits intro: ends_raised)
    next
      case False
      then obtain x where x: "r1 = Inr x" and t: "now w < end_at" by (cases r1) auto
      have "ends w1 r w'"
      proof (cases "x = []")
        case True
        show ?thesis
        proof (cases r2)
          case (Inl y)
          with "1.prems"(1) w1 w2 x t True e2 show ?thesis by (auto simp: unfolded intro: ends_raised)
        next
          case (Inr y)
          with "1.prems"(1) w1 w2 x t True have "drain_host_loop P end_at w2 = (r, w')" by (simp add: unfolded)
          with "1.IH"(1) [OF t w1 [symmetric] x True w2 [symmetric] Inr] "1.prems"(2) e2 Inr show ?thesis
            by (blast intro: ends_then)
        qed
      next
        case False
        with "1.prems"(1) w1 x t have "drain_host_loop P end_at w1 = (r, w')" by (simp add: unfolded)
        with "1.IH"(2) [OF t w1 [symmetric] x False] "1.prems"(2) show ?thesis by blast
      qed
      with e x show ?thesis by (blast intro: ends_then)
    qed
  qed
qed

lemma returns_prompt_loop:
  assumes "plain_platform P"
  shows "returns b (read_prompt_loop P deadline buf)"
proof (rule returnsI)
  fix w r w' assume "read_prompt_loop P deadline buf w = (r, w')"
  then show "ends w r w'"
    using assms
  proof (induction P deadline buf w arbitrary: r w' rule: read_prompt_loop.induct)
    case (1 P deadline buf w)
    note unfolded = read_prompt_loop.simps [of P deadline buf w]
    obtain r1 w1 where w1: "transport_receive P (Some (min CLI_READ_SLICE (deadline - Suc (now w))))
        (w\<lparr>now := Suc (Suc (now w))\<rparr>) = (r1, w1)" by fastforce
    from returnsD [OF returns_link(2) [OF "1.prems"(2)] w1, of False] have e: "ends w r1 w1" by (simp add: ends_now)
    show ?case
    proof (cases "\<not> now w < deadline \<or> (\<exists>x. r1 = Inl x)")
      case True
      with "1.prems"(1) w1 e show ?thesis
        by (auto simp: unfolded ends_now split: if_splits intro: ends_raised)
    next
      case False
      then obtain x where x: "r1 = Inr x" and t: "now w < deadline" by (cases r1) auto
      have "ends w1 r w'"
      proof (cases "x \<noteq> [] \<and> at_prompt (buf @ x)")
        case True
        with "1.prems"(1) w1 x t show ?thesis by (auto simp: unfolded ends_now)
      next
        case False
        with "1.prems"(1) w1 x t have "read_prompt_loop P deadline (buf @ x) w1 = (r, w')" by (auto simp: unfolded)
        with "1.IH" [OF t w1 [symmetric] x False] "1.prems"(2) show ?thesis by blast
      qed
      with e x show ?thesis by (blast intro: ends_then)
    qed
  qed
qed

section \<open>The RPC layer\<close>

lemma returns_take_buffer: "returns b (take_buffer n)"
  by (auto simp: returns_def take_buffer_def ends_def split: if_splits)

lemma returns_receive_exact: "plain_platform P \<Longrightarrow> returns b (receive_exact P n t)"
  unfolding receive_exact_def by (intro returns_rules returns_receive_loop returns_take_buffer)

lemma returns_varint_loop:
  assumes "plain_platform P"
  shows "returns b (read_varint_loop P t k acc shift)"
proof (induction k arbitrary: acc shift)
  case 0
  show ?case by (simp add: returns_ret)
next
  case (Suc k)
  show ?case
    unfolding read_varint_loop.simps Let_def
    by (auto intro!: returns_rules returns_receive_exact [OF assms] Suc.IH split: list.split)
qed

lemma returns_receive_message: "plain_platform P \<Longrightarrow> returns b (receive_main_message P t)"
  unfolding receive_main_message_def read_varint_def
  by (intro returns_rules returns_raise returns_varint_loop returns_receive_exact) simp_all

lemma returns_rpc_set: "returns b get_next_command_id" "returns b (set_session x)" "returns b record_failure"
proof -
  show "returns b get_next_command_id" by (auto simp: returns_def get_next_command_id_def Let_def ends_def)
  show "returns b (set_session x)" "returns b record_failure"
    unfolding set_session_def record_failure_def by (intro returns_rules returns_modify; simp)+
qed

lemma returns_session:
  assumes "plain_platform P"
  shows "returns b (drain_host_rx P t)" "returns b (send_message P msg)" "returns b (ensure_rpc_session_started P)"
    "returns b (send_stop_session P)"
proof -
  show d: "returns b (drain_host_rx P t)" for t and b :: bool
    unfolding drain_host_rx_def by (intro returns_rules returns_drain_host [OF assms])
  show s: "returns b (send_message P msg)" for msg and b :: bool
    unfolding send_message_def by (intro returns_link [OF assms])
  note rules = returns_rules returns_set returns_rpc_set d s returns_link [OF assms]
    returns_receive_message [OF assms]
  have p: "returns b (probe_rpc P t)" for t
    unfolding probe_rpc_def by (intro rules)
  have "returns b (start_session_attempt P)"
    unfolding start_session_attempt_def by (intro rules p)
  then show "returns b (ensure_rpc_session_started P)"
    unfolding ensure_rpc_session_started_def begin_session_def negotiate_def by (intro rules p)
  show "returns b (send_stop_session P)"
    unfolding send_stop_session_def by (intro rules)
qed

lemma returns_request:
  assumes "plain_platform P"
  shows "returns b (send_rpc_message P msg t)" "returns b (request P q t)" "returns b (query P q t p f)"
    "returns b (perform P q)" "returns b (gpio_request P c pin)"
proof -
  show s: "returns b (send_rpc_message P msg t)" for msg t
    unfolding send_rpc_message_def
    by (intro returns_rules returns_session [OF assms] returns_receive_message [OF assms])
  then show r: "returns b (request P q t)" for q t
    unfolding request_def by (intro returns_rules returns_rpc_set)
  show "returns b (query P q t p f)" "returns b (perform P q)" "returns b (gpio_request P c pin)"
    unfolding query_def perform_def gpio_request_def by (intro returns_rules returns_rpc_set returns_raise r s; simp)+
qed

lemma returns_power_loop:
  assumes "plain_platform P"
  shows "returns b (power_info_loop P k m info)"
proof (induction k arbitrary: m info)
  case (Suc k)
  show ?case unfolding power_info_loop.simps by (intro returns_rules returns_receive_message [OF assms] Suc.IH)
qed (simp add: returns_ret)

lemma returns_device_loop:
  assumes "plain_platform P"
  shows "returns b (device_info_loop P k m info)"
proof (induction k arbitrary: m info)
  case (Suc k)
  show ?case unfolding device_info_loop.simps by (intro returns_rules returns_receive_message [OF assms] Suc.IH)
qed (simp add: returns_ret)

lemma returns_fallback:
  assumes "plain_platform P"
  shows "returns b (property_fallback P keys info)"
proof (induction keys arbitrary: info)
  case (Cons key keys)
  show ?case
    unfolding property_fallback.simps get_property_internal_def by (intro returns_rules returns_request [OF assms] Cons.IH)
qed (simp add: returns_ret)

lemma returns_list_loop:
  assumes "plain_platform P"
  shows "returns b (list_frames_loop P path k m)"
proof (induction k arbitrary: m)
  case 0
  show ?case by (subst list_frames_loop.simps) (auto intro: returns_rules returns_raise)
next
  case (Suc k)
  show ?case
    by (subst list_frames_loop.simps)
      (auto intro!: returns_rules returns_raise returns_receive_message [OF assms] Suc.IH)
qed

lemma returns_fragments:
  assumes "plain_platform P"
  shows "returns b (write_fragments P cid path cs)"
proof (induction cs)
  case (Cons c cs)
  show ?case
    unfolding write_fragments.simps Let_def
    by (intro returns_rules returns_link [OF assms] returns_receive_message [OF assms] Cons.IH)
qed (simp add: returns_ret)

lemma plain_gpio_mode: "plain (gpio_mode m)"
  by (auto simp: gpio_mode_def pin_mode_name_def split: option.split)

text \<open>The calls of the RPC layer take the lock themselves.\<close>

lemma returns_calls:
  assumes "plain_platform P"
  shows "returns True (app_lock_status P)" "returns True (app_get_error P)" "returns True (app_start P name args)"
    "returns True (desktop_is_locked P)" "returns True (gpio_read P pin)" "returns True (system_protobuf_version P)"
    "returns True (system_datetime P)" "returns True (system_update P path)" "returns True (system_reboot_update P)"
    "returns True (system_power_info P)" "returns True (get_property P key)" "returns True (rpc_get_device_info P)"
    "returns True (ping P data)"
  unfolding app_lock_status_def app_get_error_def app_start_def desktop_is_locked_def gpio_read_def
    system_protobuf_version_def system_datetime_def system_update_def system_reboot_update_def
    system_power_info_def system_power_info_internal_def get_property_def get_property_internal_def
    rpc_get_device_info_def get_device_info_internal_def ping_def
  by (intro returns_rules returns_rpc_set returns_request [OF assms] returns_session [OF assms] returns_raise
      returns_power_loop [OF assms] returns_device_loop [OF assms] returns_fallback [OF assms] returns_lift
      plain_gpio_mode; simp)+

lemma returns_storage:
  assumes "plain_platform P"
  shows "returns True (storage_list_detailed P path inc n)" "returns True (storage_read P path)"
    "returns True (storage_info P path)" "returns True (storage_stat P path)" "returns True (storage_timestamp P path)"
    "returns True (storage_md5sum P path)" "returns True (storage_mkdir P path)" "returns True (storage_delete P path x)"
    "returns True (storage_rename P path path')" "returns True (storage_write P path data)"
  unfolding storage_list_detailed_def storage_list_frames_def storage_read_def storage_info_def storage_stat_def
    storage_timestamp_def storage_md5sum_def storage_mkdir_def storage_delete_def storage_rename_def
    storage_write_def storage_write_internal_def
  by (intro returns_rules returns_rpc_set returns_request [OF assms] returns_session [OF assms] returns_raise
      returns_list_loop [OF assms] returns_fragments [OF assms]; simp)+

section \<open>The client\<close>

lemma returns_client_set:
  "returns b (set_last_error e)" "returns b (set_mode m)" "returns b new_rpc"
  "returns b (modify (\<lambda>w. w\<lparr>c_sd_card := x\<rparr>))"
  "returns b (modify (\<lambda>w. w\<lparr>c_connected := True, c_last_error := None, c_sd_card := None, c_mode := UNKNOWN\<rparr>))"
  "returns b (modify (\<lambda>w. w\<lparr>c_connected := False, c_rpc := False, c_sd_card := None, c_mode := UNKNOWN\<rparr>))"
  unfolding set_last_error_def set_mode_def new_rpc_def by (rule returns_modify; simp)+

lemma returns_client:
  assumes "plain_platform P"
  shows "returns b (connect P)" "returns b (disconnect P)" "returns b (ensure_connected P)" "returns b (get_rpc P)"
proof -
  note rules = returns_rules returns_client_set returns_connect [OF assms] returns_link [OF assms] returns_raise
  show c: "returns b (connect P)" unfolding connect_def by (intro rules)
  show d: "returns b (disconnect P)" unfolding disconnect_def by (intro rules)
  show e: "returns b (ensure_connected P)" unfolding ensure_connected_def by (intro rules c d) simp
  show "returns b (get_rpc P)" unfolding get_rpc_def by (intro rules e) simp
qed

lemma returns_facts:
  assumes "plain_platform P"
  shows "returns True (get_connection_health P probe)" "returns True (get_device_info P)"
    "returns True (check_sd_card_available P)"
  unfolding get_connection_health_def probe_health_def get_device_info_def check_sd_card_available_def
  by (intro returns_rules returns_client_set returns_link [OF assms] returns_calls [OF assms]
      returns_storage [OF assms])+

lemma returns_cli_exec:
  assumes "plain_platform P"
  shows "returns True (cli_exec P command t accept tx)"
proof -
  have "returns False (read_until_prompt P t)" for t
    unfolding read_until_prompt_def by (intro returns_rules returns_prompt_loop [OF assms])
  then have "returns False (cli_exchange P command t)"
    unfolding cli_exchange_def
    by (intro returns_rules returns_client_set returns_set returns_session [OF assms] returns_link [OF assms])
  moreover have "returns True (reject_shell_chaining command)"
    unfolding reject_shell_chaining_def by (auto intro: returns_ret returns_raise split: list.split)
  moreover have "returns True (enforce_tx_gate x accept tx)" for x
    unfolding enforce_tx_gate_def by (intro returns_rules returns_raise) simp_all
  ultimately show ?thesis
    unfolding cli_exec_def by (intro returns_rules returns_raise) simp_all
qed

section \<open>Bundles and installation\<close>

lemma plain_target: "plain (target_from_name name)"
  by (simp add: target_from_name_def split: option.split)

lemma plain_bundle: "plain_members ms \<Longrightarrow> plain (bindR (members_from_tar ms) (\<lambda>files. build_bundle files target))"
proof -
  have "plain (member_files prefix ms)" if "plain_members ms" for ms prefix
    using that by (induction prefix ms rule: member_files.induct) (auto simp: plain_members_def Let_def intro!: plain_rules)
  moreover have "plain_members (filter tm_isfile ms)" if "plain_members ms"
    using that by (auto simp: plain_members_def list_all_iff)
  moreover assume "plain_members ms"
  ultimately show ?thesis
    unfolding members_from_tar_def build_bundle_def Let_def by (intro plain_rules) simp_all
qed

lemma plain_index:
  "plain (select_official_file directory channel version target)" "plain (official_fields entry)"
  "plain (select_release releases version)" "plain (select_asset release target)" "plain (asset_digest asset)"
  "plain (verify_sha256 data expected)"
proof -
  have c: "plain (channel_dict cs)" for cs
    by (induction cs) (auto intro!: plain_rules)
  have e: "plain (entry_loop target entries)" for entries
  proof (induction entries)
    case (Cons x xs)
    then show ?case by (auto intro!: plain_rules)
  qed simp
  show "plain (select_official_file directory channel version target)"
    unfolding select_official_file_def by (auto intro!: plain_rules c e split: option.split)
  show "plain (official_fields entry)" "plain (select_release releases version)" "plain (select_asset release target)"
    "plain (verify_sha256 data expected)"
    unfolding official_fields_def select_release_def select_asset_def verify_sha256_def Let_def
    by (auto intro!: plain_rules)
  show "plain (asset_digest asset)"
    unfolding asset_digest_def by (auto intro!: plain_rules split: json.split)
qed

lemma returns_block_bind:
  assumes "plain_op f" and "\<And>lim t d x. fst (f lim t d) = Inr x \<Longrightarrow> returns b (k x)"
  shows "returns b (bindM (block_io f) k)"
proof (rule returnsI)
  fix w r w' assume run: "bindM (block_io f) k w = (r, w')" and l: "b \<Longrightarrow> \<not> io_locked w"
  obtain r1 dt d where f: "f None (now w) (dev w) = (r1, dt, d)" by (metis prod_cases3)
  show "ends w r w'"
  proof (cases r1)
    case (Inl e)
    with run f plain_opD [OF assms(1) f] show ?thesis by (auto simp: bindM_def block_io_def ends_def)
  next
    case (Inr x)
    with run f have run: "k x (w\<lparr>dev := d, now := now w + Suc dt\<rparr>) = (r, w')" by (simp add: bindM_def block_io_def)
    from f Inr have "returns b (k x)" by (intro assms(2) [of None "now w" "dev w"]) simp
    from returnsD [OF this run] l show ?thesis by (simp add: ends_def)
  qed
qed

lemma returns_resolve:
  assumes "plain_host H"
  shows "returns b (resolve H source target)"
proof -
  have ops: "plain_op (http_get H url)" "plain_op (tar_open H path)" "plain (tar_of_bytes H data)"
    "plain (json_loads H data)" for url path data
    using assms unfolding plain_host_def by blast+
  have "plain (bundle_from_tgz_bytes H data target)" for data
    using assms unfolding bundle_from_tgz_bytes_def plain_host_def by (intro plain_rules plain_bundle) auto
  moreover have "returns b (fetch H url)" for url
    unfolding fetch_def by (intro returns_rules returns_await ops returns_raise) simp
  moreover have "plain (load_json H data url)" for data url
    unfolding load_json_def by (intro plain_rules ops) simp
  ultimately have d: "returns b (download_bundle H flavor channel version target)" for flavor channel version
    unfolding download_bundle_def download_official_def download_momentum_def
    by (auto intro!: returns_rules returns_raise returns_lift plain_index split: firmware_flavor.split)
  have "plain_members ms" if "fst (tar_open H path lim t d) = Inr ms" for path lim t d ms
    using assms that unfolding plain_host_def by blast
  then have "returns b (load_local_bundle H path)" for path
    unfolding load_local_bundle_def
    by (intro returns_bindM returns_lift plain_target returns_block_bind ops plain_bundle)
  with d show ?thesis
    unfolding resolve_def by (intro returns_rules returns_raise) simp_all
qed

text \<open>The operations as the installer gets them.\<close>

lemma returns_ops:
  assumes "plain_platform P"
  shows "returns True (rl_get_device_info (rpc_ops P))" "returns True (rl_storage_mkdir (rpc_ops P) path)"
    "returns True (rl_storage_write (rpc_ops P) path data)" "returns True (rl_storage_md5sum (rpc_ops P) path)"
    "returns True (rl_storage_stat (rpc_ops P) path)" "returns True (rl_system_update (rpc_ops P) path)"
    "returns True (rl_system_reboot_update (rpc_ops P))" "returns True (rl_sleep (rpc_ops P) t)"
  by (simp_all add: rpc_ops_def returns_calls [OF assms] returns_storage [OF assms] returns_sleep)

lemma returns_push_steps:
  assumes "plain_platform P"
  shows "returns True (push_write (rpc_ops P) path d w)" "returns True (push_verify (rpc_ops P) path d)"
proof -
  note rules = returns_rules returns_raise returns_ops [OF assms]
  have "returns True (check_md5_loop (rpc_ops P) path e k)" for e k
  proof (induction k)
    case (Suc k)
    show ?case unfolding check_md5_loop.simps by (intro rules Suc.IH)
  qed (simp add: returns_ret)
  then show "returns True (push_write (rpc_ops P) path d w)" "returns True (push_verify (rpc_ops P) path d)"
    unfolding push_write_def push_verify_def verify_written_def check_size_def check_md5_def by (intro rules; assumption?)+
qed

lemma installer_failures: "is_exception (push_failure path st x)" "is_exception (rejection c)"
  by (simp_all add: push_failure_def rejection_def)

lemma returns_install:
  assumes "plain_platform P" and resync: "\<And>m. resync = Some m \<Longrightarrow> returns True m"
  shows "returns True (install_bundle (rpc_ops P) bundle pkg resync)"
proof -
  note rules = returns_rules returns_raise returns_ops [OF assms(1)] returns_push_steps [OF assms(1)] installer_failures
  have push: "returns True (push_loop (rpc_ops P) resync path d k w x st)" for path d k w x st
  proof (induction k arbitrary: w x st)
    case 0
    show ?case unfolding push_loop.simps [of _ resync path d 0 w x st] by (auto intro!: rules)
  next
    case (Suc k)
    show ?case
      unfolding push_loop.simps [of _ resync path d "Suc k" w x st]
      using Suc.IH resync by (cases resync) (auto intro!: rules)
  qed
  have trigger: "returns True (trigger_loop (rpc_ops P) resync path k)" for path k
  proof (induction k)
    case 0
    show ?case unfolding trigger_loop.simps [of _ resync path 0] by (auto intro!: rules)
  next
    case (Suc k)
    show ?case
      unfolding trigger_loop.simps [of _ resync path "Suc k"]
      using Suc.IH resync by (cases resync) (auto intro!: rules)
  qed
  have files: "returns True (push_files (rpc_ops P) resync dir fs)" for dir fs
  proof (induction fs)
    case (Cons f fs)
    then show ?case by (cases f) (auto simp: Let_def push_file_def intro!: rules push)
  qed (simp add: returns_ret)
  show ?thesis
    unfolding install_bundle_def trigger_update_def by (intro rules files trigger) simp_all
qed

section \<open>The tools\<close>

lemma classify_plain: "is_exception (classify_client_error e)"
  using classify_is_tool_error [of e] by (cases "classify_client_error e") (simp_all add: is_tool_error_def)

lemma returns_reporting: "returns b m \<Longrightarrow> returns b (reporting m)"
  unfolding reporting_def by (intro returns_rules returns_raise classify_plain)

lemma returns_rpc_tool: "plain_platform P \<Longrightarrow> returns True m \<Longrightarrow> returns True (rpc_tool P m)"
  unfolding rpc_tool_def by (intro returns_reporting returns_thenM returns_client)

lemma returns_helpers:
  "returns b (answer msg x)" "returns b (insist msg ok)" "returns b (verify_md5 m d path)"
  "returns b (require_write_tools cfg)" "returns b (require_firmware_flash cfg)" "returns b (interlock confirm device)"
  unfolding answer_def insist_def verify_md5_def require_firmware_flash_def require_write_tools_def interlock_def
  by (intro returns_rules returns_raise; simp)+

lemma returns_cli_typed: "plain_platform P \<Longrightarrow> returns True (cli_typed P command t)"
  unfolding cli_typed_def
  by (intro returns_rules returns_raise returns_reporting returns_client returns_cli_exec) simp_all

lemma returns_firmware:
  assumes "plain_platform P" and "plain_host H"
  shows "returns True (firmware_install P H cfg source confirm)"
proof -
  note rules = returns_rules returns_raise returns_helpers returns_client [OF assms(1)] returns_facts [OF assms(1)]
  have "returns True (resync_session P)"
    unfolding resync_session_def by (intro rules) simp
  then have flash: "returns True (flash P H source target)" for target
    unfolding flash_def by (intro rules returns_resolve [OF assms(2)] returns_install [OF assms(1)]) auto
  have loop: "returns True (reconnect_loop P before k l)" for before k l
  proof (induction k arbitrary: l)
    case 0
    show ?case by (auto split: option.split intro: rules)
  next
    case (Suc k)
    show ?case unfolding reconnect_loop.simps read_firmware_def by (intro rules Suc.IH)
  qed
  show ?thesis
    unfolding firmware_install_def identify_device_def reconnect_and_classify_def
    by (intro rules returns_reporting returns_calls [OF assms(1)] flash loop)
qed

lemma returns_files:
  assumes "plain_platform P" and "plain_host H"
  shows "returns True (fs_push P H cfg path path')" "returns True (fs_pull P H path path')"
proof -
  have "plain_op (read_bytes H path)" "plain_op (write_bytes H path data)" for path data
    using assms(2) unfolding plain_host_def by blast+
  then show "returns True (fs_push P H cfg path path')" "returns True (fs_pull P H path path')"
    unfolding fs_push_def fs_pull_def push_transfer_def
    by (intro returns_rules returns_raise returns_helpers returns_block returns_client [OF assms(1)] classify_plain
        returns_rpc_tool [OF assms(1)] returns_storage [OF assms(1)]; simp)+
qed

lemma plain_free_lines: "plain (free_lines ls heap)"
proof (induction ls arbitrary: heap)
  case (Cons l ls)
  have "plain (free_line l heap)"
    by (auto simp: free_line_def Let_def int_of_digits_def)
  with Cons.IH show ?case by (auto intro: plain_rules)
qed simp

lemma run_tool_returns:
  assumes "plain_platform P" and "plain_host H"
  shows "returns True (run_tool P H cfg c)"
proof -
  note rules = returns_rules returns_raise returns_helpers returns_rpc_tool [OF assms(1)] returns_cli_typed [OF assms(1)]
    returns_calls [OF assms(1)] returns_storage [OF assms(1)] returns_client [OF assms(1)] returns_facts [OF assms(1)]
    returns_reporting returns_cli_exec [OF assms(1)] returns_lift plain_free_lines
  show ?thesis
    by (cases c)
      (simp_all add: returns_files [OF assms] returns_firmware [OF assms],
       unfold fs_info_def fs_stat_def fs_timestamp_def fs_list_def fs_mkdir_def fs_delete_def fs_rename_def
         tool_app_lock_status_def tool_app_get_error_def tool_desktop_is_locked_def tool_gpio_read_def
         tool_power_info_def tool_protobuf_version_def tool_datetime_def tool_ping_def tool_property_get_def
         tool_app_start_def core_status_def parse_free_def fs_tree_def loader_list_def i2c_scan_def tool_cli_exec_def
         connection_health_tool_def connection_reconnect_def system_info_def,
       (intro rules; simp)+)
qed

end
