(* ===== verification/Installer_Properties.thy ===== *)
theory Installer_Properties
  imports Installer_Spec Wire_Properties
begin

text \<open>
  The properties of the firmware installer, each with an instance on a concrete device.
\<close>

section \<open>A concrete device\<close>

text \<open>An SD sd_device that stores what is written to it, on a device with hardware target 7 that accepts
  every update.\<close>

definition sd_device :: "(string \<rightharpoonup> bytes) rpc_like" where
  "sd_device =
     \<lparr>rl_get_device_info = ret [(''hardware_target'', ''7'')],
      rl_storage_mkdir = (\<lambda>_. ret True),
      rl_storage_write = (\<lambda>p d. thenM (modify (\<lambda>s. s(p \<mapsto> d))) (ret True)),
      rl_storage_md5sum = (\<lambda>p. get (\<lambda>s. map_option md5_hex (s p))),
      rl_storage_stat = (\<lambda>_. ret None),
      rl_system_update = (\<lambda>_. ret 0),
      rl_system_reboot_update = ret (),
      rl_sleep = (\<lambda>_. ret ())\<rparr>"

definition small_bundle :: local_bundle where
  "small_bundle = \<lparr>manifest_name = ''update.fuf'', bundle_target = ''f7'', bundle_files = [(''update.fuf'', [1, 2])]\<rparr>"

lemma sd_device_ops:
  "rl_get_device_info sd_device = ret [(''hardware_target'', ''7'')]"
  "rl_storage_mkdir sd_device p = ret True"
  "rl_system_reboot_update sd_device = ret ()"
  by (simp_all add: sd_device_def)

lemma card_push:
  "push_file (watched sd_device) None dest [1, 2] (s, t) =
     (Inr (), (s(dest \<mapsto> [1, 2]), t @ [Wrote dest [1, 2] True, Md5 dest (Some (md5_hex [1, 2]))]))"
proof -
  have "verify_written (watched sd_device) dest [1, 2] h =
      bindM (rl_storage_md5sum (watched sd_device) dest) (\<lambda>d. if d = Some h then ret Match else if d \<noteq> None then ret Mismatch
       else thenM (rl_sleep (watched sd_device) MD5_SETTLE) (check_md5_loop (watched sd_device) dest h 4))" for h
    using check_md5_loop.simps(2) [of "watched sd_device" dest h 4]
    by (simp add: verify_written_def MD5_VERIFY_MAX_BYTES_def check_md5_def MD5_ATTEMPTS_def)
  then show ?thesis
    unfolding push_file_def push_loop.simps [of _ _ _ _ RESYNC_ATTEMPTS]
    by (simp add: push_write_def push_verify_def sd_device_def note_result_def action_defs)
qed

lemma card_trigger:
  "trigger_update (watched sd_device) None m (s, t) = (Inr (), (s, t @ [Slept UPDATE_SETTLE, Updated m 0]))"
  unfolding trigger_update_def trigger_loop.simps [of _ _ _ RESYNC_ATTEMPTS]
  by (simp add: sd_device_def note_result_def action_defs UPDATE_OK_def)

lemma card_run:
  "install_bundle (watched sd_device) small_bundle ''p'' (watched_resync None) (Map.empty, []) =
     (Inr (), ([''/ext/update/p/update.fuf'' \<mapsto> [1, 2]],
       [Asked [(''hardware_target'', ''7'')], Made ''/ext/update'' True, Made ''/ext/update/p'' True,
        Wrote ''/ext/update/p/update.fuf'' [1, 2] True,
        Md5 ''/ext/update/p/update.fuf'' (Some (md5_hex [1, 2])),
        Slept UPDATE_SETTLE, Updated ''/ext/update/p/update.fuf'' 0, Rebooting]))"
proof -
  have strip7: "strip ''7'' = ''7''" by code_simp
  have parent: "before_last CHR ''/'' ''/ext/update/p/update.fuf'' = ''/ext/update/p''" by code_simp
  show ?thesis
    unfolding install_bundle_def small_bundle_def
    by (simp add: UPDATE_ROOT_def or_empty_def strip7 parent Let_def watched_resync_def thenM_def bindM_def ret_def
        card_push card_trigger sd_device_ops note_result_def note_call_def)
qed

section \<open>Refinement\<close>

text \<open>C2: Watching the installer changes nothing, and what is seen is one of the runs the
  specification allows: the device is asked to restart, and success is reported, only after its
  hardware target was compared with the bundle's, every file of the bundle was written with a
  positive answer and then, with nothing but quiet events in between, proved by its size (above 2 MiB) or its MD5,
  in the order of the bundle, and the update request on the manifest was the last
  thing before and was answered OK.\<close>

theorem install_refines_spec:
  assumes "install_bundle (watched rpc) b pkg (watched_resync resync) (s, []) = (r, (s', ev))"
  shows "install_bundle rpc b pkg resync s = (r, s') \<and>
         (r = Inr () \<or> Rebooting \<in> set ev \<longrightarrow> installed b pkg ev)"
proof -
  have "install_bundle rpc b pkg resync s = (r, s')"
    using tracesD [OF watched.install_traces assms] .
  moreover have "install_spec b pkg r ev"
    using emits_run [OF install_emits assms] by simp
  ultimately show ?thesis by (simp add: install_spec_def)
qed

text \<open>The witness installs a bundle of one file on the concrete device.\<close>

theorem install_refines_spec_witness:
  "install_bundle sd_device small_bundle ''p'' None Map.empty = (Inr (), [''/ext/update/p/update.fuf'' \<mapsto> [1, 2]]) \<and>
   installed small_bundle ''p''
     [Asked [(''hardware_target'', ''7'')], Made ''/ext/update'' True, Made ''/ext/update/p'' True,
      Wrote ''/ext/update/p/update.fuf'' [1, 2] True,
      Md5 ''/ext/update/p/update.fuf'' (Some (md5_hex [1, 2])),
      Slept UPDATE_SETTLE, Updated ''/ext/update/p/update.fuf'' 0, Rebooting]"
  using install_refines_spec [OF card_run] by simp

section \<open>Failures\<close>

text \<open>C25: On the RPC layer of the program an installation fails with \<^verbatim>\<open>FlashError\<close>, with an error of the
  reconnect callback, or with the error of sending the final reboot request; everything else the
  device or the link can do is turned into one of these.\<close>

theorem install_fails_with_flash_error:
  assumes "install_bundle (rpc_ops P) b pkg resync w = (Inl e, w')" and "is_exception e"
    and "\<And>m u e' u'. resync = Some m \<Longrightarrow> m u = (Inl e', u') \<Longrightarrow> is_exception e' \<Longrightarrow> E e'"
  shows "(\<exists>t. e = FlashError t) \<or> E e \<or> (\<exists>v. system_reboot_update P v = (Inl e, w'))"
proof -
  have "raises (\<lambda>e _. is_exception e \<longrightarrow> E e) m" if "resync = Some m" for m
    using assms(3) [OF that] unfolding raises_def by blast
  from raisesD [OF rpc_ops.install_bundle_raises [OF this] assms(1)] assms(2)
  show ?thesis unfolding rpc_ops.benign_def by (auto simp: rpc_ops_def elim: is_flash_error.elims)
qed

text \<open>The witness runs it on a device that reports no hardware target.\<close>

theorem install_fails_with_flash_error_witness:
  "\<exists>e w'. install_bundle (rpc_ops silent) small_bundle ''p'' None (sim_rworld WiFiTransport None []) = (Inl e, w') \<and>
     ((\<exists>t. e = FlashError t) \<or> (\<exists>v. system_reboot_update silent v = (Inl e, w')))"
proof -
  let ?run = "install_bundle (rpc_ops silent) small_bundle ''p'' None (sim_rworld WiFiTransport None [])"
  have "fst ?run = Inl (FlashError ''device did not report hardware_target; cannot verify bundle compatibility'')"
    by code_simp
  then obtain e w' where run: "?run = (Inl e, w')" and "is_exception e" by (cases ?run) auto
  from install_fails_with_flash_error [OF this, of "\<lambda>_. False"] run show ?thesis by auto
qed

end
