(* ===== verification/Bundle_Properties.thy ===== *)
theory Bundle_Properties
  imports Bundles Installer_Properties
begin

text \<open>
  Bundles are well formed whatever archive they come from, downloads are what their digest says, and
  an installation stays inside its package directory.
\<close>

section \<open>Paths\<close>

definition climbs :: "string \<Rightarrow> bool" where
  "climbs p \<longleftrightarrow> ''..'' \<in> set (split_on CHR ''/'' p)"

lemma climbs_append: "climbs (a @ CHR ''/'' # b) \<longleftrightarrow> climbs a \<or> climbs b"
  by (simp add: climbs_def split_on_append)

lemma before_last_append [simp]:
  assumes "c \<notin> set b"
  shows "before_last c (a @ c # b) = a"
proof -
  have "takeWhile (\<lambda>x. x \<noteq> c) (rev b @ c # rev a) = rev b"
    using assms by (subst takeWhile_append2) auto
  then show ?thesis by (simp add: before_last_def after_first_def before_first_def)
qed

lemma before_last_split: "c \<in> set s \<Longrightarrow> \<exists>t. s = before_last c s @ c # t"
  using split_list_last by fastforce

lemma climbs_before_last: "climbs (before_last CHR ''/'' p) \<Longrightarrow> climbs p"
proof (cases "CHR ''/'' \<in> set p")
  case True
  assume "climbs (before_last CHR ''/'' p)"
  then show ?thesis using before_last_split [OF True] climbs_append by metis
qed (simp add: before_last_def)

lemma parent_prefix: "\<exists>t. before_last c (a @ c # b) = a @ t"
proof (cases "c \<in> set b")
  case True
  then obtain b1 b2 where b: "b = b1 @ c # b2" and "c \<notin> set b2" by (meson split_list_last)
  then have "before_last c ((a @ c # b1) @ c # b2) = a @ c # b1" by (blast intro: before_last_append)
  with b show ?thesis by simp
qed simp

section \<open>Well-formed bundles\<close>

definition well_formed :: "local_bundle \<Rightarrow> bool" where
  "well_formed b \<longleftrightarrow> manifest_name b = ''update.fuf'' \<and> ''update.fuf'' \<in> fst ` set (bundle_files b) \<and>
     (\<forall>(rel, data) \<in> set (bundle_files b). \<not> startswith rel ''/'' \<and> \<not> climbs rel)"

lemma member_files_safe:
  "member_files prefix ms = Inr files \<Longrightarrow> (rel, data) \<in> set files \<Longrightarrow> \<not> unsafe_path rel"
proof (induction ms arbitrary: files)
  case (Cons m ms)
  then show ?case by (auto simp: Let_def elim!: bindR_InrE split: if_splits option.splits)
qed simp

lemma bundle_well_formed:
  assumes "bindR (members_from_tar tar) (\<lambda>files. build_bundle files target) = Inr b"
  shows "well_formed b \<and> bundle_target b = target"
proof -
  from assms obtain files where f: "members_from_tar tar = Inr files" and b: "build_bundle files target = Inr b"
    by (rule bindR_InrE)
  have "\<not> unsafe_path rel" if "(rel, data) \<in> set files" for rel data
    using f member_files_safe that by (auto simp: members_from_tar_def Let_def split: if_splits)
  moreover have "MANIFEST \<in> fst ` set files" and "b = \<lparr>manifest_name = MANIFEST, bundle_target = target, bundle_files = files\<rparr>"
    using b by (auto simp: build_bundle_def list_ex_iff split: if_splits) (force simp: image_iff)
  ultimately show ?thesis
    by (auto simp: well_formed_def unsafe_path_def climbs_def MANIFEST_def)
qed

lemma tgz_well_formed: "bundle_from_tgz_bytes H data target = Inr b \<Longrightarrow> well_formed b \<and> bundle_target b = target"
  unfolding bundle_from_tgz_bytes_def using bundle_well_formed by (blast elim: bindR_InrE)

section \<open>Downloads\<close>

lemma verify_sha256_Inr: "verify_sha256 data expected = Inr () \<longleftrightarrow> sha256_hex data = lower expected"
  by (auto simp: verify_sha256_def Let_def sha256_hex_def hexdigest_lower)

text \<open>The update file that an official directory lists for a channel, a version and a target.\<close>

definition official_listed :: "json \<Rightarrow> string \<Rightarrow> string \<Rightarrow> string \<Rightarrow> json \<Rightarrow> bool" where
  "official_listed directory channel version target entry \<longleftrightarrow>
     (\<exists>channels cs c versions v files es.
        jget directory ''channels'' (JList []) = Inr channels \<and> jiter channels = Inr cs \<and> c \<in> set cs \<and>
        jkey c ''id'' = Inr (JStr channel) \<and> jget c ''versions'' (JList []) = Inr versions \<and>
        (if version = ''latest'' then jfirst versions = Inr v
         else \<exists>vs. jiter versions = Inr vs \<and> v \<in> set vs \<and> jget v ''version'' JNull = Inr (JStr version)) \<and>
        jget v ''files'' (JList []) = Inr files \<and> jiter files = Inr es \<and> entry \<in> set es \<and>
        jget entry ''target'' JNull = Inr (JStr target) \<and> jget entry ''type'' JNull = Inr (JStr ''update_tgz''))"

text \<open>The asset that a list of Momentum releases holds for a version and a target.\<close>

definition momentum_listed :: "json \<Rightarrow> string \<Rightarrow> string \<Rightarrow> json \<Rightarrow> bool" where
  "momentum_listed releases version target asset \<longleftrightarrow>
     (\<exists>release tag assets as.
        (if version = ''latest'' then jfirst releases = Inr release
         else \<exists>rs. jiter releases = Inr rs \<and> release \<in> set rs \<and>
                jget release ''tag_name'' JNull = Inr (JStr version)) \<and>
        jkey release ''tag_name'' = Inr tag \<and>
        jget release ''assets'' (JList []) = Inr assets \<and> jiter assets = Inr as \<and> asset \<in> set as \<and>
        jget asset ''name'' JNull = Inr (JStr (''flipper-z-'' @ target @ ''-update-'' @ jstr tag @ ''.tgz'')))"

lemma entry_loop_Some:
  "entry_loop target es = Inr (Some e) \<Longrightarrow>
   e \<in> set es \<and> jget e ''target'' JNull = Inr (JStr target) \<and> jget e ''type'' JNull = Inr (JStr ''update_tgz'')"
  by (induction es) (auto elim!: bindR_InrE split: if_splits)

lemma channel_dict_listed: "channel_dict cs = Inr m \<Longrightarrow> map_of m i = Some c \<Longrightarrow> c \<in> set cs \<and> jkey c ''id'' = Inr i"
  by (induction cs arbitrary: m) (auto elim!: bindR_InrE split: if_splits)

lemma select_official_listed:
  assumes "select_official_file directory channel version target = Inr entry"
  shows "official_listed directory channel version target entry"
proof -
  from assms obtain dict where d: "bindR (jget directory ''channels'' (JList [])) (\<lambda>cs. bindR (jiter cs) channel_dict) = Inr dict"
    and rest: "(case map_of dict (JStr channel) of
       None \<Rightarrow> Inl (BundleError (''unknown official channel '' @ py_repr channel))
     | Some c \<Rightarrow>
         bindR (jget c ''versions'' (JList [])) (\<lambda>versions.
         if \<not> jtrue versions then Inl (BundleError (''no versions in official channel '' @ py_repr channel))
         else bindR (if version = ''latest'' then jfirst versions
                     else bindR (jiter versions) (jfind ''version'' version)) (\<lambda>picked.
              if picked = JNull
              then Inl (BundleError (''official version '' @ py_repr version @ '' not found in '' @ py_repr channel))
              else bindR (bindR (jget picked ''files'' (JList [])) jiter) (\<lambda>entries.
                   bindR (entry_loop target entries) (\<lambda>found.
                   case found of
                     Some entry \<Rightarrow> Inr entry
                   | None \<Rightarrow> Inl (BundleError (''no install bundle for target '' @ target @ '' in official '' @
                       channel @ ''/'' @ version))))))) = Inr entry"
    unfolding select_official_file_def by (auto elim!: bindR_InrE)
  from d obtain channels cs where cs: "jget directory ''channels'' (JList []) = Inr channels" "jiter channels = Inr cs"
    "channel_dict cs = Inr dict" by (blast elim: bindR_InrE)
  from rest obtain c versions v entries where c: "map_of dict (JStr channel) = Some c"
    and vs: "jget c ''versions'' (JList []) = Inr versions"
    and v: "(if version = ''latest'' then jfirst versions
             else bindR (jiter versions) (jfind ''version'' version)) = Inr v" "v \<noteq> JNull"
    and es: "bindR (jget v ''files'' (JList [])) jiter = Inr entries" "entry_loop target entries = Inr (Some entry)"
    by (auto elim!: bindR_InrE split: option.splits if_splits)
  have "if version = ''latest'' then jfirst versions = Inr v
        else \<exists>vs. jiter versions = Inr vs \<and> v \<in> set vs \<and> jget v ''version'' JNull = Inr (JStr version)"
    using v(1) jfind_Inr [OF _ v(2)] by (auto elim!: bindR_InrE)
  moreover from es(1) obtain files where "jget v ''files'' (JList []) = Inr files" "jiter files = Inr entries"
    by (rule bindR_InrE)
  ultimately show ?thesis
    using cs(1,2) channel_dict_listed [OF cs(3) c] vs entry_loop_Some [OF es(2)] unfolding official_listed_def by blast
qed

lemma select_asset_listed:
  assumes "select_release releases version = Inr release" and "select_asset release target = Inr (asset, url)"
  shows "momentum_listed releases version target asset" and "jkey asset ''browser_download_url'' = Inr url"
proof -
  have "if version = ''latest'' then jfirst releases = Inr release
        else \<exists>rs. jiter releases = Inr rs \<and> release \<in> set rs \<and> jget release ''tag_name'' JNull = Inr (JStr version)"
    using assms(1) by (auto simp: select_release_def elim!: bindR_InrE dest: jfind_Inr split: if_splits)
  moreover obtain tag as where tag: "jkey release ''tag_name'' = Inr tag"
    and as: "bindR (jget release ''assets'' (JList [])) jiter = Inr as"
      "jfind ''name'' (''flipper-z-'' @ target @ ''-update-'' @ jstr tag @ ''.tgz'') as = Inr asset" "asset \<noteq> JNull"
    and url: "jkey asset ''browser_download_url'' = Inr url"
    using assms(2) unfolding select_asset_def by (auto elim!: bindR_InrE split: if_splits)
  moreover from as(1) obtain assets where "jget release ''assets'' (JList []) = Inr assets" "jiter assets = Inr as"
    by (rule bindR_InrE)
  ultimately show "momentum_listed releases version target asset"
    using jfind_Inr [OF as(2,3)] unfolding momentum_listed_def by blast
  show "jkey asset ''browser_download_url'' = Inr url" by (rule url)
qed

lemma asset_digest_sha: "asset_digest asset = Inr sha \<Longrightarrow> jget asset ''digest'' (JStr []) = Inr (JStr (''sha256:'' @ sha))"
proof -
  assume "asset_digest asset = Inr sha"
  then obtain d where d: "jget asset ''digest'' (JStr []) = Inr (JStr d)" "startswith d ''sha256:''" "sha = after_first CHR '':'' d"
    by (auto simp: asset_digest_def elim!: bindR_InrE split: json.splits if_splits)
  then obtain t where "d = ''sha256:'' @ t" unfolding startswith_def by (metis append_take_drop_id)
  with d show ?thesis by (simp add: after_first_def before_first_def)
qed

lemma download_official_verified:
  assumes "download_official H channel version target w = (Inr b, w')"
  obtains raw w1 directory entry url sha data where
    "fetch H (JStr OFFICIAL_DIRECTORY) w = (Inr raw, w1)" "json_loads H raw = Inr directory"
    "official_listed directory channel version target entry" "jkey entry ''url'' = Inr url" "jkey entry ''sha256'' = Inr sha"
    "fetch H (JStr (jstr url)) w1 = (Inr data, w')" "sha256_hex data = lower (jstr sha)"
    "bundle_from_tgz_bytes H data target = Inr b"
proof -
  from assms obtain raw w1 directory entry url expected data where
    "fetch H (JStr OFFICIAL_DIRECTORY) w = (Inr raw, w1)" "load_json H raw OFFICIAL_DIRECTORY = Inr directory"
    "select_official_file directory channel version target = Inr entry" and fields: "official_fields entry = Inr (url, expected)"
    and "fetch H (JStr url) w1 = (Inr data, w')" "verify_sha256 data expected = Inr ()"
    "bundle_from_tgz_bytes H data target = Inr b"
    unfolding download_official_def
    by (auto simp: thenM_def lift_result_Inr elim!: bindM_InrE split: prod.splits)
  moreover from fields obtain u s where "jkey entry ''url'' = Inr u" "jkey entry ''sha256'' = Inr s" "url = jstr u" "expected = jstr s"
    by (auto simp: official_fields_def elim!: bindR_InrE)
  ultimately show ?thesis
    by (intro that [of raw w1 directory entry u s data] select_official_listed) (simp_all add: load_json_def verify_sha256_Inr)
qed

lemma download_momentum_verified:
  assumes "download_momentum H version target w = (Inr b, w')"
  obtains raw w1 releases asset url sha data where
    "fetch H (JStr MOMENTUM_RELEASES) w = (Inr raw, w1)" "json_loads H raw = Inr releases"
    "momentum_listed releases version target asset" "jkey asset ''browser_download_url'' = Inr url"
    "jget asset ''digest'' (JStr []) = Inr (JStr (''sha256:'' @ sha))"
    "fetch H url w1 = (Inr data, w')" "sha256_hex data = lower sha" "bundle_from_tgz_bytes H data target = Inr b"
proof -
  from assms obtain raw w1 releases release asset url sha data where
    "fetch H (JStr MOMENTUM_RELEASES) w = (Inr raw, w1)" "load_json H raw MOMENTUM_RELEASES = Inr releases"
    "select_release releases version = Inr release" "select_asset release target = Inr (asset, url)"
    "fetch H url w1 = (Inr data, w')" "asset_digest asset = Inr sha" "verify_sha256 data sha = Inr ()"
    "bundle_from_tgz_bytes H data target = Inr b"
    unfolding download_momentum_def
    by (auto simp: thenM_def lift_result_Inr elim!: bindM_InrE split: prod.splits)
  then show ?thesis
    by (intro that [of raw w1 releases asset url sha data] select_asset_listed asset_digest_sha)
      (simp_all add: load_json_def verify_sha256_Inr)
qed

text \<open>C9: A downloaded bundle is built from data whose SHA-256 is the one that the index fetched in this run lists, fetched
  from the address that the same entry of that index names.  For the official flavor the index is the directory, and the entry a
  file of type \<^verbatim>\<open>update_tgz\<close> for the device's target under the channel and the version asked for; for Momentum it
  is the list of releases, and the entry the asset of the chosen release named after the target and the release.  The digest
  is read in either case; the data is the last thing fetched.  No other flavor is ever downloaded.\<close>

theorem download_verified:
  assumes "download_bundle H flavor channel version target w = (Inr b, w')"
  shows "(flavor = OFFICIAL \<and> (\<exists>raw w1 directory entry url sha data.
            fetch H (JStr OFFICIAL_DIRECTORY) w = (Inr raw, w1) \<and> json_loads H raw = Inr directory \<and>
            official_listed directory channel version target entry \<and>
            jkey entry ''url'' = Inr url \<and> jkey entry ''sha256'' = Inr sha \<and>
            fetch H (JStr (jstr url)) w1 = (Inr data, w') \<and> sha256_hex data = lower (jstr sha) \<and>
            bundle_from_tgz_bytes H data target = Inr b)) \<or>
         (flavor = MOMENTUM \<and> (\<exists>raw w1 releases asset url sha data.
            fetch H (JStr MOMENTUM_RELEASES) w = (Inr raw, w1) \<and> json_loads H raw = Inr releases \<and>
            momentum_listed releases version target asset \<and> jkey asset ''browser_download_url'' = Inr url \<and>
            jget asset ''digest'' (JStr []) = Inr (JStr (''sha256:'' @ sha)) \<and>
            fetch H url w1 = (Inr data, w') \<and> sha256_hex data = lower sha \<and>
            bundle_from_tgz_bytes H data target = Inr b))"
proof (cases flavor)
  case OFFICIAL
  with assms have "download_official H channel version target w = (Inr b, w')" by (simp add: download_bundle_def)
  from download_official_verified [OF this] OFFICIAL show ?thesis by metis
next
  case MOMENTUM
  with assms have "download_momentum H version target w = (Inr b, w')" by (simp add: download_bundle_def)
  from download_momentum_verified [OF this] MOMENTUM show ?thesis by metis
qed (use assms in \<open>simp_all add: download_bundle_def raise_def\<close>)

text \<open>A host on which the official directory has one channel with one version, whose archive holds the
  manifest alone.\<close>

definition directory :: json where
  "directory = JObj [(''channels'', JList [JObj [(''id'', JStr ''release''), (''versions'', JList [
     JObj [(''version'', JStr ''1.0''), (''files'', JList [
       JObj [(''target'', JStr ''f7''), (''type'', JStr ''update_tgz''), (''url'', JStr ''u''),
             (''sha256'', JStr (sha256_hex [1]))]])]])]])]"

definition sim_host :: "bytes list host" where
  "sim_host =
     \<lparr>read_bytes = (\<lambda>_ _ _ d. (Inr [1, 2], 0, d)), write_bytes = (\<lambda>_ _ _ _ d. (Inr (), 0, d)),
      tar_open = (\<lambda>_ _ _ d. (Inr [\<lparr>tm_name = ''p/update.fuf'', tm_isfile = True, tm_data = Inr (Some [7])\<rparr>], 0, d)),
      tar_of_bytes = (\<lambda>_. Inr [\<lparr>tm_name = ''p/update.fuf'', tm_isfile = True, tm_data = Inr (Some [7])\<rparr>]),
      http_get = (\<lambda>url _ _ d. (Inr (if url = JStr ''u'' then [1] else []), 0, d)),
      json_loads = (\<lambda>_. Inr directory)\<rparr>"

definition one_file :: "string \<Rightarrow> local_bundle" where
  "one_file t = \<lparr>manifest_name = ''update.fuf'', bundle_target = t, bundle_files = [(''update.fuf'', [7])]\<rparr>"

lemma sim_bundle: "bundle_from_tgz_bytes sim_host data t = Inr (one_file t)"
proof -
  have "\<not> unsafe_path ''update.fuf''" by code_simp
  then show ?thesis
    by (simp add: bundle_from_tgz_bytes_def sim_host_def members_from_tar_def Let_def before_first_def
        removeprefix_def startswith_def build_bundle_def MANIFEST_def one_file_def)
qed

lemma sim_download:
  "download_bundle sim_host OFFICIAL ''release'' ''latest'' ''f7'' (sim_rworld WiFiTransport None []) =
     (Inr (one_file ''f7''), (sim_rworld WiFiTransport None [])\<lparr>now := 2\<rparr>)"
proof -
  have f: "fetch sim_host url w = (Inr (if url = JStr ''u'' then [1] else []), w\<lparr>now := now w + 1\<rparr>)"
    if "cancel_at w = None" for url and w :: "bytes list rworld"
    using that by (simp add: fetch_def try_except_def await_io_def sim_host_def)
  have l: "load_json sim_host raw url = Inr directory" for raw url
    by (simp add: load_json_def sim_host_def)
  have s: "select_official_file directory ''release'' ''latest'' ''f7'' =
      Inr (JObj [(''target'', JStr ''f7''), (''type'', JStr ''update_tgz''), (''url'', JStr ''u''),
             (''sha256'', JStr (sha256_hex [1]))])"
    by (simp add: select_official_file_def directory_def catchR_def)
  show ?thesis
    using verify_sha256_Inr [of "[1]" "sha256_hex [1]"]
    by (simp add: download_bundle_def download_official_def f l s sim_bundle bindM_def thenM_def lift_result_def ret_def
        official_fields_def catchR_def OFFICIAL_DIRECTORY_def sim_rworld_def sha256_hex_def hexdigest_lower)
qed

theorem download_verified_witness:
  "\<exists>raw w1 directory entry url sha data.
     fetch sim_host (JStr OFFICIAL_DIRECTORY) (sim_rworld WiFiTransport None []) = (Inr raw, w1) \<and>
     json_loads sim_host raw = Inr directory \<and> official_listed directory ''release'' ''latest'' ''f7'' entry \<and>
     jkey entry ''url'' = Inr url \<and> jkey entry ''sha256'' = Inr sha \<and>
     fetch sim_host (JStr (jstr url)) w1 = (Inr data, (sim_rworld WiFiTransport None [])\<lparr>now := 2\<rparr>) \<and>
     sha256_hex data = lower (jstr sha) \<and> bundle_from_tgz_bytes sim_host data ''f7'' = Inr (one_file ''f7'')"
  using download_verified [OF sim_download] by simp

section \<open>Safety of the files\<close>

text \<open>C13: Every bundle that is loaded or downloaded, from whatever archive, names the manifest
  \<^verbatim>\<open>update.fuf\<close> and contains it, and none of its paths is absolute or climbs out with \<^verbatim>\<open>..\<close>.  A
  downloaded bundle is for the target that was asked for, a local one for the target in its name.\<close>

theorem bundles_well_formed:
  assumes "load_local_bundle H path w = (Inr b, w') \<and> target_from_name path = Inr target \<or>
           download_bundle H flavor channel version target w = (Inr b, w')"
  shows "manifest_name b = ''update.fuf'' \<and> ''update.fuf'' \<in> fst ` set (bundle_files b) \<and>
         bundle_target b = target \<and>
         (\<forall>(rel, data) \<in> set (bundle_files b). \<not> startswith rel ''/'' \<and> \<not> climbs rel)"
proof -
  have "well_formed b \<and> bundle_target b = target"
    using assms
  proof
    assume "load_local_bundle H path w = (Inr b, w') \<and> target_from_name path = Inr target"
    then show ?thesis
      unfolding load_local_bundle_def by (auto simp: lift_result_Inr bundle_well_formed elim!: bindM_InrE)
  next
    assume "download_bundle H flavor channel version target w = (Inr b, w')"
    then obtain data where "bundle_from_tgz_bytes H data target = Inr b"
      unfolding download_bundle_def download_official_def download_momentum_def
      by (cases flavor) (auto simp: raise_def thenM_def lift_result_Inr elim!: bindM_InrE split: prod.splits)
    then show ?thesis by (rule tgz_well_formed)
  qed
  then show ?thesis unfolding well_formed_def by simp
qed

theorem bundles_well_formed_witness:
  "bundle_target (one_file ''f7'') = ''f7'' \<and> ''update.fuf'' \<in> fst ` set (bundle_files (one_file ''f7''))"
  using bundles_well_formed [of sim_host "[]" "sim_rworld WiFiTransport None []" "one_file ''f7''" _ "''f7''" OFFICIAL]
    sim_download by blast

text \<open>C19: Installing a well-formed bundle never reaches outside its package: whatever happens, every file
  written and every directory made lies under \<^verbatim>\<open>/ext/update\<close> by a path without \<^verbatim>\<open>..\<close>, what is written
  there is a file of the bundle under its own name, and only its manifest is offered as an update.\<close>

theorem install_stays_in_package:
  assumes "install_bundle (watched rpc) b pkg (watched_resync resync) (s, []) = (r, (s', ev))"
    and "well_formed b" and "\<not> climbs pkg"
  shows "(\<forall>p d ok. Wrote p d ok \<in> set ev \<longrightarrow>
            (\<exists>rel. p = ''/ext/update/'' @ pkg @ ''/'' @ rel \<and> (rel, d) \<in> set (bundle_files b)) \<and> \<not> climbs p) \<and>
         (\<forall>p ok. Made p ok \<in> set ev \<longrightarrow> startswith p ''/ext/update'' \<and> \<not> climbs p) \<and>
         (\<forall>p c. Updated p c \<in> set ev \<longrightarrow> p = ''/ext/update/'' @ pkg @ ''/update.fuf'')"
proof -
  have t: "touches b pkg e" if "e \<in> set ev" for e
    using emits_run [OF install_emits assms(1)] that by (auto simp: install_spec_def list_all_iff)
  have root: "\<not> climbs UPDATE_ROOT" by (simp add: UPDATE_ROOT_def climbs_def)
  have dest: "\<not> climbs (UPDATE_ROOT @ ''/'' @ pkg @ ''/'' @ rel)" if "(rel, d) \<in> set (bundle_files b)" for rel d
    using that assms(2,3) root by (auto simp: well_formed_def climbs_append)
  have "(\<exists>rel. p = ''/ext/update/'' @ pkg @ ''/'' @ rel \<and> (rel, d) \<in> set (bundle_files b)) \<and> \<not> climbs p"
    if "Wrote p d ok \<in> set ev" for p d ok
    using t [OF that] dest by (auto simp: UPDATE_ROOT_def)
  moreover have "startswith p UPDATE_ROOT \<and> \<not> climbs p" if "Made p ok \<in> set ev" for p ok
  proof -
    from t [OF that] consider "p = UPDATE_ROOT" | "p = UPDATE_ROOT @ ''/'' @ pkg"
      | rel d where "p = before_last CHR ''/'' (UPDATE_ROOT @ ''/'' @ pkg @ ''/'' @ rel)" "(rel, d) \<in> set (bundle_files b)"
      by auto
    then show ?thesis
    proof cases
      case 3
      moreover obtain t where "p = UPDATE_ROOT @ t"
        using parent_prefix [of "CHR ''/''" UPDATE_ROOT "pkg @ ''/'' @ rel"] 3(1) by auto
      ultimately show ?thesis using dest climbs_before_last by (metis startswith_append)
    qed (use root assms(3) in \<open>simp_all add: climbs_append\<close>, simp add: startswith_def)
  qed
  moreover have "p = ''/ext/update/'' @ pkg @ ''/update.fuf''" if "Updated p c \<in> set ev" for p c
    using t [OF that] assms(2) by (simp add: UPDATE_ROOT_def well_formed_def)
  ultimately show ?thesis unfolding UPDATE_ROOT_def by blast
qed

text \<open>The witness is the one-file installation on the concrete card.\<close>

theorem install_stays_in_package_witness:
  "\<not> climbs ''/ext/update/p/update.fuf'' \<and> startswith ''/ext/update/p'' ''/ext/update''"
proof -
  have "well_formed small_bundle" and "\<not> climbs ''p''" by (simp_all add: well_formed_def small_bundle_def climbs_def startswith_def)
  from install_stays_in_package [OF card_run this] show ?thesis by auto
qed

end
