(* ===== verification/Tool_Properties.thy ===== *)
theory Tool_Properties
  imports Confinement Server_Invariant Progress Bundle_Properties
begin

text \<open>
  The properties of the tools and of the server as a whole, each with an instance on a concrete
  device.
\<close>

section \<open>The state between calls\<close>

definition configured_class :: "flipper_config \<Rightarrow> transport_class" where
  "configured_class cfg =
     (if lower (cfg_transport cfg) = ''usb'' then USBTransport
      else if lower (cfg_transport cfg) = ''wifi'' then WiFiTransport else AutoTransport)"

lemma server_start_ok:
  assumes "server_start P cfg w = (Inr (), w')" and "cancel_at w = None"
  shows "\<not> io_locked w' \<and> cancel_at w' = None \<and> client_ok w' \<and> t_class w' = configured_class cfg"
proof -
  from assms(1) obtain t ok where t: "get_transport P (dev w) (cfg_transport cfg) (as_transport_config cfg) = Inr t"
    and c: "connect P (new_client t w) = (Inr ok, w')"
    unfolding server_start_def
    by (auto simp: thenM_def get_def lift_result_def modify_def ret_def elim!: bindM_InrE)
  have "s_frame (new_client t w) w'" by (rule keepsD [OF client_s(1) c])
  moreover have "\<not> io_locked (new_client t w)" "cancel_at (new_client t w) = None" "client_ok (new_client t w)"
    using assms(2) by (simp_all add: new_client_def client_ok_def split: transport_object.split)
  moreover have "t_class (new_client t w) = configured_class cfg"
    using t by (auto simp: get_transport_def Let_def new_client_def configured_class_def split: if_splits)
  ultimately show ?thesis by (simp add: s_frame_def io_frame_def)
qed

lemma served_ok:
  assumes "served P H cfg w"
  shows "\<not> io_locked w \<and> cancel_at w = None \<and> client_ok w \<and> t_class w = configured_class cfg"
  using assms
proof induction
  case (start w w')
  then show ?case by (rule server_start_ok)
next
  case (call w c r w')
  with keepsD [OF run_tool_s call(2)] show ?case by (simp add: s_frame_def io_frame_def)
qed

text \<open>C5: Between any two tool calls of a session, whatever tools were called and however they ended, the
  I/O lock is free, no deadline is pending, the client holds an RPC object exactly when it counts as
  connected, the link mode is known only while it does, and the transport is of the configured class.\<close>

theorem served_invariant:
  assumes "served P H cfg w"
  shows "\<not> io_locked w \<and> cancel_at w = None \<and> (c_connected w \<longleftrightarrow> c_rpc w) \<and> (c_mode w = UNKNOWN \<or> c_rpc w) \<and>
         t_class w = configured_class cfg"
  using served_ok [OF assms] by (auto simp: client_ok_def)

text \<open>The witness is a session over USB after its start and a refused call.\<close>

definition usb_config :: flipper_config where
  "usb_config = default_config\<lparr>cfg_transport := ''usb'', cfg_usb_port := Some ''/dev/ttyACM0''\<rparr>"

lemma usb_session: "\<exists>w. served shell sim_host usb_config w \<and> c_rpc w"
proof -
  let ?w0 = "sim_cworld AutoTransport None []"
  let ?s = "server_start shell usb_config ?w0"
  have "case ?s of (r, w) \<Rightarrow> r = Inr () \<and> c_rpc w" by code_simp
  then have "fst ?s = Inr ()" and "c_rpc (snd ?s)" by (simp_all add: case_prod_unfold)
  moreover have "cancel_at ?w0 = None" by (simp add: sim_cworld_def)
  ultimately show ?thesis by (metis served.start surjective_pairing)
qed

theorem served_invariant_witness:
  "\<exists>w. served shell sim_host usb_config w \<and> c_rpc w \<and> c_connected w \<and> \<not> io_locked w"
proof -
  obtain v where v: "served shell sim_host usb_config v" and rpc: "c_rpc v" using usb_session by blast
  let ?run = "run_tool shell sim_host usb_config (FsMkdir ''/ext/a'') v"
  from v have s: "served shell sim_host usb_config (snd ?run)" by (rule served.call [OF _ surjective_pairing])
  moreover have "snd ?run = v"
    by (simp add: fs_mkdir_def require_write_tools_def usb_config_def default_config_def thenM_def bindM_def raise_def)
  ultimately show ?thesis using served_invariant [OF s] rpc by auto
qed

text \<open>C8: Every tool call of a session returns.  Whatever was called before and whatever the device does, a
  call never waits for the I/O lock while it holds it itself and is not cancelled by a deadline that another call left
  behind: it ends in a value or an ordinary exception, and the lock is free again.  The hypotheses say of the
  libraries that their calls return or raise an ordinary exception.\<close>

theorem tool_calls_return:
  assumes "served P H cfg w" and "plain_platform P" and "plain_host H"
  shows "fst (run_tool P H cfg c w) \<notin> {Inl Deadlock, Inl Cancelled} \<and> \<not> io_locked (snd (run_tool P H cfg c w))"
proof -
  obtain r w' where run: "run_tool P H cfg c w = (r, w')" by fastforce
  have free: "\<not> io_locked w" and none: "cancel_at w = None" using served_ok [OF assms(1)] by simp_all
  have "ends w r w'" by (rule returnsD [OF run_tool_returns [OF assms(2,3)] run]) (rule free)
  with run free none show ?thesis by (auto simp: ends_def plain_def)
qed

lemma sim_plain: "plain_platform (sim_platform ser par reply)" "plain_host sim_host"
  by (auto simp: plain_platform_def plain_host_def plain_op_def plain_members_def sim_defs sim_host_def
      split: list.split if_splits)

theorem tool_calls_return_witness:
  "\<exists>w. served shell sim_host usb_config w \<and> fst (run_tool shell sim_host usb_config SystemInfo w) \<noteq> Inl Deadlock"
proof -
  obtain w where w: "served shell sim_host usb_config w" using usb_session by blast
  have "plain_platform shell" by (simp add: shell_def sim_plain)
  from tool_calls_return [OF w this sim_plain(2), of SystemInfo] w show ?thesis by blast
qed

section \<open>What may leave the host\<close>

text \<open>C1: Whatever tool is called with whatever arguments and whatever the device answers, everything that
  is written to the link is session handling, a request that the operator's flags allow (one that changes
  the device only with write tools enabled, an update or reboot only with firmware flashing enabled as well), or
  a command line that is benign or for which transmit tools are enabled.\<close>

theorem tools_confined:
  fixes w :: "('d, 'z) cworld_scheme"
  shows "\<exists>sent. tx_log (snd (run_tool P H cfg c w)) = tx_log w @ sent \<and> set sent \<subseteq> allowed P cfg"
proof -
  have "sends_in (allowed P cfg) w (snd (run_tool P H cfg c w))"
    by (rule keepsD [OF run_tool_confined surjective_pairing])
  then show ?thesis by (simp add: sends_in_def)
qed

text \<open>The calls that change the device or flash it.\<close>

fun refused :: "flipper_config \<Rightarrow> tool_call \<Rightarrow> bool" where
  "refused cfg (FsMkdir _) = (\<not> cfg_enable_write_tools cfg)"
| "refused cfg (FsDelete _ _) = (\<not> cfg_enable_write_tools cfg)"
| "refused cfg (FsRename _ _) = (\<not> cfg_enable_write_tools cfg)"
| "refused cfg (FsPush _ _) = (\<not> cfg_enable_write_tools cfg)"
| "refused cfg (AppStart _ _) = (\<not> cfg_enable_write_tools cfg)"
| "refused cfg (FirmwareInstall _ _) = (\<not> (cfg_enable_write_tools cfg \<and> cfg_enable_firmware_flash cfg))"
| "refused cfg _ = False"

text \<open>C15: A tool that changes the device is refused with a \<^verbatim>\<open>ToolError\<close> while its flags are off, before
  anything is done: no reconnection, no read of a local file, no byte to the device; the state is exactly what
  it was.\<close>

theorem gated_tools_refuse:
  assumes "refused cfg c"
  shows "\<exists>t. run_tool P H cfg c w = (Inl (ToolError t), w)"
  using assms
  by (cases c)
    (auto simp: fs_mkdir_def fs_delete_def fs_rename_def fs_push_def tool_app_start_def firmware_install_def
      require_firmware_flash_def require_write_tools_def thenM_def bindM_def raise_def ret_def)

theorem gated_tools_refuse_witness:
  "\<exists>t. run_tool shell sim_host default_config (FsDelete ''/ext'' True) (sim_cworld USBTransport None []) =
     (Inl (ToolError t), sim_cworld USBTransport None [])"
  by (rule gated_tools_refuse) (simp add: default_config_def)

section \<open>Errors\<close>

lemma contained_try_any: "contained m \<Longrightarrow> (\<And>e. contained (h e)) \<Longrightarrow> contained (try_except p m h)"
  unfolding contained_def try_except_def by (fastforce split: prod.splits sum.splits if_splits)

lemma contained_health: "contained (get_connection_health P probe)"
proof -
  have "contained (transport_is_connected P)"
    unfolding contained_def by (metis transport_is_connected_pure Inl_Inr_False prod.inject)
  then show ?thesis
    unfolding get_connection_health_def probe_health_def set_last_error_def
    by (intro contained_rules contained_try_any contained_ping)
qed

lemma free_lines_error: "free_lines ls heap = Inl e \<Longrightarrow> \<exists>t. e = ValueError t"
proof (induction ls arbitrary: heap)
  case (Cons l ls)
  have "\<exists>t. e = ValueError t" if "free_line l heap = Inl e"
    using that by (auto simp: free_line_def Let_def int_of_digits_def bindR_def split: if_splits)
  with Cons show ?case by (auto simp: bindR_def split: sum.splits)
qed simp

lemma core_status_error:
  assumes "core_status P w = (Inl e, w')" and "is_exception e"
  shows "is_tool_error e \<or> (\<exists>t. e = ValueError t)"
  using assms reportedD [OF reported_cli_typed] free_lines_error
  unfolding core_status_def parse_free_def
  by (fastforce simp: bindM_def lift_result_def ret_def Let_def split: prod.splits sum.splits)

lemma reported_push_transfer: "reported (push_transfer P dest data)"
  unfolding reported_def push_transfer_def try_except_def raise_def
  by (auto simp: classify_is_tool_error split: prod.splits sum.splits if_splits)

lemma reported_verify: "reported (verify_md5 a d p)"
  by (simp add: verify_md5_def reported_ret reported_raise is_tool_error_def split: option.split)

lemma error_of_head:
  assumes "bindM m k w = (Inl e, w')" and "\<And>x. reported (k x)" and "is_exception e" and "\<not> is_tool_error e"
  shows "m w = (Inl e, w')"
proof -
  obtain r v where v: "m w = (r, v)" by fastforce
  show ?thesis
  proof (cases r)
    case (Inr x)
    with assms(1) v have "k x v = (Inl e, w')" by (simp add: bindM_def)
    with reportedD [OF assms(2)] assms(3,4) show ?thesis by blast
  qed (use assms(1) v in \<open>simp add: bindM_def\<close>)
qed

text \<open>What a file operation of the host raises and the tool does not catch leaves the tool as it is.\<close>

lemma fs_push_error:
  assumes "fs_push P H cfg local_path dest_path w = (Inl e, w')" and "is_exception e" and "\<not> is_tool_error e"
  shows "\<not> is_os_error e \<and> block_io (read_bytes H local_path) w = (Inl e, w')"
proof -
  let ?read = "try_except is_os_error (block_io (read_bytes H local_path))
      (\<lambda>e. raise (ToolError (''cannot read local file '' @ local_path @ '': '' @ exn_text e)))"
  let ?rest = "\<lambda>data. bindM (push_transfer P dest_path data) (\<lambda>device_md5.
      thenM (verify_md5 (md5_hex data) device_md5 dest_path)
        (ret (JObj [(''dest_path'', JStr dest_path), (''bytes'', JNat (length data)), (''md5'', JStr (md5_hex data)),
                    (''verified'', JBool True)])))"
  have rest: "reported (?rest data)" for data
    by (intro reported_rules reported_push_transfer reported_verify)
  have "require_write_tools cfg w = (Inr (), w)"
    using assms unfolding fs_push_def
    by (auto simp: require_write_tools_def thenM_def bindM_def raise_def ret_def is_tool_error_def split: if_splits)
  with assms(1) have run: "bindM ?read ?rest w = (Inl e, w')" by (simp add: fs_push_def thenM_def bindM_def [of "require_write_tools _"] Let_def)
  have "?read w = (Inl e, w')" by (rule error_of_head [OF run rest assms(2,3)])
  with assms(3) show ?thesis
    by (auto simp: try_except_def raise_def is_tool_error_def split: prod.splits sum.splits if_splits)
qed

lemma fs_pull_error:
  assumes "fs_pull P H src_path local_path w = (Inl e, w')" and "is_exception e" and "\<not> is_tool_error e"
  shows "\<exists>data device_md5 v. \<not> is_os_error e \<and>
    rpc_tool P (bindM (storage_read P src_path) (\<lambda>data. bindM (storage_md5sum P src_path) (\<lambda>m. ret (data, m)))) w =
      (Inr (data, device_md5), v) \<and>
    thenM (block_io (write_bytes H local_path data)) (block_io (read_bytes H local_path)) v = (Inl e, w')"
proof -
  let ?get = "rpc_tool P (bindM (storage_read P src_path) (\<lambda>data. bindM (storage_md5sum P src_path) (\<lambda>m. ret (data, m))))"
  let ?file = "\<lambda>data. thenM (block_io (write_bytes H local_path data)) (block_io (read_bytes H local_path))"
  let ?save = "\<lambda>data. try_except is_os_error (?file data)
      (\<lambda>e. raise (ToolError (''cannot write local file '' @ local_path @ '': '' @ exn_text e)))"
  let ?rest = "\<lambda>written device_md5. thenM (verify_md5 (md5_hex written) device_md5 src_path)
        (ret (JObj [(''local_path'', JStr local_path), (''bytes'', JNat (length written)), (''md5'', JStr (md5_hex written)),
                    (''verified'', JBool True)]))"
  have rest: "reported (?rest written m)" for written m by (intro reported_rules reported_verify)
  have get: "reported ?get" by (intro reported_rules)
  have run: "bindM ?get (\<lambda>(data, m). bindM (?save data) (\<lambda>written. ?rest written m)) w = (Inl e, w')"
    using assms(1) by (simp add: fs_pull_def Let_def)
  obtain r v where v: "?get w = (r, v)" by fastforce
  with run reportedD [OF get] assms(2,3) obtain data m where r: "r = Inr (data, m)"
    by (cases r) (auto simp: bindM_def)
  with run v have "bindM (?save data) (\<lambda>written. ?rest written m) v = (Inl e, w')" by (simp add: bindM_def)
  then have "?save data v = (Inl e, w')" by (rule error_of_head [OF _ rest assms(2,3)])
  then have "\<not> is_os_error e \<and> ?file data v = (Inl e, w')"
    using assms(3) by (auto simp: try_except_def raise_def is_tool_error_def split: prod.splits sum.splits if_splits)
  with v r show ?thesis by blast
qed

text \<open>The first case happens: an error of reading the local file that is no \<^verbatim>\<open>OSError\<close> leaves the push.\<close>

lemma fs_push_passes_on:
  assumes "cfg_enable_write_tools cfg" and "block_io (read_bytes H local_path) w = (Inl e, w')" and "\<not> is_os_error e"
  shows "fs_push P H cfg local_path dest_path w = (Inl e, w')"
  using assms by (simp add: fs_push_def require_write_tools_def thenM_def bindM_def ret_def try_except_def)

lemma reported_tools:
  "reported (fs_info P path)" "reported (fs_stat P path)" "reported (fs_timestamp P path)"
  "reported (fs_list P path)" "reported (fs_mkdir P cfg path)" "reported (fs_delete P cfg path rec)"
  "reported (fs_rename P cfg path path')" "reported (tool_app_lock_status P)" "reported (tool_app_get_error P)"
  "reported (tool_desktop_is_locked P)" "reported (tool_power_info P)"
  "reported (tool_protobuf_version P)" "reported (tool_datetime P)" "reported (tool_ping P)"
  "reported (tool_property_get P key)" "reported (tool_app_start P cfg name args)"
  "reported (loader_list P)" "reported (i2c_scan P)"
  "reported (tool_cli_exec P cfg command t accept)" "reported (system_info P)"
  unfolding fs_info_def fs_stat_def fs_timestamp_def fs_list_def fs_mkdir_def fs_delete_def fs_rename_def
    tool_app_lock_status_def tool_app_get_error_def tool_desktop_is_locked_def
    tool_power_info_def tool_protobuf_version_def tool_datetime_def tool_ping_def tool_property_get_def tool_app_start_def
    loader_list_def i2c_scan_def tool_cli_exec_def system_info_def Let_def case_prod_unfold
  by (intro reported_rules)+

lemma reported_checked_tools: "reported (tool_gpio_read P pin)" "reported (fs_tree P path)"
  "reported (connection_health_tool P probe)"
  unfolding tool_gpio_read_def fs_tree_def connection_health_tool_def
  by (intro reported_rules reported_raise reported_contained [OF contained_health]; simp add: is_tool_error_def)+

text \<open>C21: Whatever the device, the link and the host do, an exception that leaves a tool is a \<^verbatim>\<open>ToolError\<close>, with these
  exceptions only: the reconnect and firmware tools pass on what they do not expect; the core status raises the
  \<^verbatim>\<open>ValueError\<close> of a number that \<^verbatim>\<open>int\<close> refuses; and a push or a pull passes on what its own access to the
  local file raised when that is no \<^verbatim>\<open>OSError\<close> (for a path with a NUL, a \<^verbatim>\<open>ValueError\<close>): for the push the reading
  of the file, the first thing done; for the pull the writing or the reading back, after the device had answered.\<close>

theorem tools_report_errors:
  fixes w :: "('d, 'z) cworld_scheme"
  assumes "run_tool P H cfg c w = (Inl e, w')" and "is_exception e"
    and "(\<forall>probe. c \<noteq> ConnectionReconnect probe) \<and> (\<forall>source confirm. c \<noteq> FirmwareInstall source confirm)"
  shows "(\<exists>t. e = ToolError t) \<or> (c = CoreStatus \<and> (\<exists>t. e = ValueError t)) \<or>
    (\<not> is_os_error e \<and>
      ((\<exists>local_path dest_path. c = FsPush local_path dest_path \<and> block_io (read_bytes H local_path) w = (Inl e, w')) \<or>
       (\<exists>src_path local_path data device_md5 v. c = FsPull src_path local_path \<and>
          rpc_tool P (bindM (storage_read P src_path) (\<lambda>data. bindM (storage_md5sum P src_path) (\<lambda>m. ret (data, m)))) w =
            (Inr (data, device_md5), v) \<and>
          thenM (block_io (write_bytes H local_path data)) (block_io (read_bytes H local_path)) v = (Inl e, w'))))"
proof -
  have tool: "\<exists>t. e = ToolError t" if "is_tool_error e" using that by (cases e) (simp_all add: is_tool_error_def)
  consider "c = CoreStatus" | local_path dest_path where "c = FsPush local_path dest_path"
    | src_path local_path where "c = FsPull src_path local_path"
    | "reported (run_tool P H cfg c :: (('d, 'z) cworld_scheme, json) action)"
    using assms(3) by (cases c) (auto simp: reported_tools reported_checked_tools reported_bindM reported_ret)
  then show ?thesis
  proof cases
    case 1
    with assms(1,2) core_status_error [of P w e w'] tool show ?thesis by auto
  next
    case 2
    with assms(1,2) fs_push_error [of P H cfg local_path dest_path w e w'] tool show ?thesis by auto
  next
    case 3
    with assms(1,2) fs_pull_error [of P H src_path local_path w e w'] tool show ?thesis by auto
  next
    case 4
    with reportedD [OF 4 assms(1,2)] tool show ?thesis by blast
  qed
qed

text \<open>The witness asks a silent device for its storage.\<close>

theorem tools_report_errors_witness:
  "\<exists>e w'. run_tool silent sim_host default_config (FsInfo ''/ext'') (sim_cworld WiFiTransport None []) = (Inl e, w') \<and>
     (\<exists>t. e = ToolError t)"
proof -
  let ?run = "run_tool silent sim_host default_config (FsInfo ''/ext'') (sim_cworld WiFiTransport None [])"
  have "fst (fs_info silent ''/ext'' (sim_cworld WiFiTransport None [])) =
      Inl (ToolError ''storage info unavailable for /ext'')" by code_simp
  then have "fst ?run = Inl (ToolError ''storage info unavailable for /ext'')" by simp
  then obtain e w' where run: "?run = (Inl e, w')" and "is_exception e" by (cases ?run) auto
  from tools_report_errors [OF this] run show ?thesis by auto
qed

section \<open>A verified push\<close>

text \<open>C11: A push that reports success read the local file, got the device's acknowledgement of the write, and
  then got from the device an MD5 that is, in lower case, the MD5 of exactly these bytes.\<close>

theorem fs_push_verified:
  assumes "fs_push P H cfg local_path dest_path w = (Inr res, w')"
  shows "cfg_enable_write_tools cfg \<and>
    (\<exists>data w1 w2 w3 d. block_io (read_bytes H local_path) w = (Inr data, w1) \<and>
       storage_write P dest_path data w2 = (Inr True, w3) \<and> storage_md5sum P dest_path w3 = (Inr (Some d), w') \<and>
       lower d = md5_hex data \<and>
       res = JObj [(''dest_path'', JStr dest_path), (''bytes'', JNat (length data)), (''md5'', JStr (md5_hex data)),
                   (''verified'', JBool True)])"
proof -
  from assms obtain data w1 dm v where gate: "require_write_tools cfg w = (Inr (), w)"
    and read: "block_io (read_bytes H local_path) w = (Inr data, w1)"
    and push: "push_transfer P dest_path data w1 = (Inr dm, v)"
    and rest: "verify_md5 (md5_hex data) dm dest_path v = (Inr (), w')"
    and res: "res = JObj [(''dest_path'', JStr dest_path), (''bytes'', JNat (length data)), (''md5'', JStr (md5_hex data)),
                   (''verified'', JBool True)]"
    unfolding fs_push_def thenM_def Let_def
    by (auto simp: require_write_tools_def try_except_def raise_def ret_def split: prod.splits sum.splits if_splits
        elim!: bindM_InrE)
  from push obtain w2 w3 where "storage_write P dest_path data w2 = (Inr True, w3)"
    and md5: "storage_md5sum P dest_path w3 = (Inr dm, v)"
    unfolding push_transfer_def thenM_def
    by (auto simp: try_except_def raise_def ret_def insist_def split: prod.splits sum.splits if_splits elim!: bindM_InrE)
  moreover from rest obtain d where "dm = Some d" "lower d = lower (md5_hex data)" "v = w'"
    by (auto simp: verify_md5_def raise_def ret_def split: option.splits if_splits)
  moreover have "lower (md5_hex data) = md5_hex data" by (simp add: md5_hex_def hexdigest_lower)
  moreover have "cfg_enable_write_tools cfg" using gate by (auto simp: require_write_tools_def raise_def split: if_splits)
  ultimately show ?thesis using read res by metis
qed

text \<open>A device that acknowledges a write and answers every question for a digest with \<open>h\<close>.\<close>

definition digester :: "string \<Rightarrow> bytes list platform" where
  "digester h = sim_platform (\<lambda>_. [7])
     (\<lambda>_. Some \<lparr>command_id = 1, command_status = STATUS_OK, has_next = False,
                content = Response (StorageMd5sumResponse h)\<rparr>)
     (\<lambda>_. [[1, 7]])"

theorem fs_push_verified_witness:
  "\<exists>(w2 :: bytes list cworld) w3 d. storage_write (digester (md5_hex [1, 2])) ''/ext/a'' [1, 2] w2 = (Inr True, w3) \<and> lower d = md5_hex [1, 2] \<and>
     fst (storage_md5sum (digester (md5_hex [1, 2])) ''/ext/a'' w3) = Inr (Some d)"
proof -
  let ?P = "digester (md5_hex [1, 2])" and ?w = "sim_cworld WiFiTransport None []"
  let ?cfg = "default_config\<lparr>cfg_enable_write_tools := True\<rparr>"
  obtain a h where ah: "md5_hex [1, 2] = a # h" by (metis length_0_conv md5_hex_length neq_Nil_conv zero_neq_numeral)
  let ?w1 = "?w\<lparr>now := 1\<rparr>"
  have read: "block_io (read_bytes sim_host ''a'') ?w = (Inr [1, 2], ?w1)"
    by (simp add: block_io_def sim_host_def sim_cworld_def)
  have "fst (push_transfer (digester (a # h)) ''/ext/a'' [1, 2] ?w1) = Inr (Some (a # h))" by code_simp
  then obtain v where push: "push_transfer ?P ''/ext/a'' [1, 2] ?w1 = (Inr (Some (md5_hex [1, 2])), v)"
    unfolding ah by (metis prod.collapse)
  have "\<exists>res w'. fs_push ?P sim_host ?cfg ''a'' ''/ext/a'' ?w = (Inr res, w')"
    by (simp add: fs_push_def require_write_tools_def thenM_def bindM_def try_except_def ret_def read push verify_md5_def Let_def
        del: One_nat_def)
  then obtain res w' where "fs_push ?P sim_host ?cfg ''a'' ''/ext/a'' ?w = (Inr res, w')" by blast
  from conjunct2 [OF fs_push_verified [OF this]] obtain data w1 w2 w3 d where
    "block_io (read_bytes sim_host ''a'') ?w = (Inr data, w1)" "storage_write ?P ''/ext/a'' data w2 = (Inr True, w3)"
    "storage_md5sum ?P ''/ext/a'' w3 = (Inr (Some d), w')" "lower d = md5_hex data" by (elim exE conjE) (rule that)
  moreover from this(1) read have "data = [1, 2]" by simp
  ultimately show ?thesis by (metis fst_conv)
qed

section \<open>Flashing\<close>

text \<open>C14: The firmware is left alone unless both flags are on and the caller named the connected device:
  otherwise the tool ends in a \<^verbatim>\<open>ToolError\<close>, either at once or right after reading the device's identity, with
  the state that reading left.\<close>

theorem firmware_interlock:
  assumes "\<not> (cfg_enable_write_tools cfg \<and> cfg_enable_firmware_flash cfg) \<or>
    (\<exists>device w1. identify_device P w = (Inr device, w1) \<and>
       (map_of device ''hardware_name'' \<noteq> Some confirm \<or> confirm = [] \<or> fw_target (classify_firmware device) = None))"
  shows "\<exists>t v. firmware_install P H cfg source confirm w = (Inl (ToolError t), v) \<and>
           (v = w \<or> v = snd (identify_device P w))"
proof (cases "cfg_enable_write_tools cfg \<and> cfg_enable_firmware_flash cfg")
  case True
  with assms obtain device w1 where i: "identify_device P w = (Inr device, w1)"
    and no: "map_of device ''hardware_name'' \<noteq> Some confirm \<or> confirm = [] \<or> fw_target (classify_firmware device) = None"
    by auto
  have "\<exists>t. interlock confirm device w1 = (Inl (ToolError t), w1)"
    using no by (auto simp: interlock_def raise_def ret_def truthy_def or_empty_def Let_def split: option.splits)
  then obtain t where "interlock confirm device w1 = (Inl (ToolError t), w1)" ..
  with True i show ?thesis
    by (simp add: firmware_install_def require_firmware_flash_def require_write_tools_def thenM_def bindM_def ret_def)
next
  case False
  then show ?thesis
    by (auto simp: firmware_install_def require_firmware_flash_def require_write_tools_def thenM_def bindM_def
        raise_def ret_def)
qed

definition flash_config :: flipper_config where
  "flash_config = default_config\<lparr>cfg_enable_write_tools := True, cfg_enable_firmware_flash := True\<rparr>"

text \<open>The witness is a device that does not report its name.\<close>

theorem firmware_interlock_witness:
  "\<exists>t v. firmware_install informer sim_host flash_config [] ''Flip'' (sim_cworld WiFiTransport None []) = (Inl (ToolError t), v)"
proof -
  let ?i = "identify_device informer (sim_cworld WiFiTransport None [])"
  have "fst ?i = Inr [(''hardware_model'', ''y'')]" by code_simp
  then have "?i = (Inr [(''hardware_model'', ''y'')], snd ?i)" by (metis prod.collapse)
  moreover have "map_of [(''hardware_model'', ''y'')] ''hardware_name'' \<noteq> Some ''Flip''" by simp
  ultimately have "\<exists>device w1. ?i = (Inr device, w1) \<and> (map_of device ''hardware_name'' \<noteq> Some ''Flip'' \<or>
      ''Flip'' = [] \<or> fw_target (classify_firmware device) = None)" by blast
  from firmware_interlock [OF disjI2 [OF this]] show ?thesis by blast
qed

section \<open>After flashing\<close>

text \<open>The client's device information has no raw firmware version: it is among the keys it replaces.\<close>

lemma client_info_no_version: "get_device_info P w = (Inr d, w') \<Longrightarrow> map_of d ''firmware_version'' = None"
  by (auto simp: get_device_info_def ret_def NORMALIZED_SOURCE_KEYS_def map_of_eq_None_iff
      elim!: bindM_InrE split: if_splits)

lemma read_firmware_no_version: "read_firmware P w = (Inr (Some l), w') \<Longrightarrow> fw_version l = None"
  by (auto simp: read_firmware_def try_except_def ret_def classify_firmware_def Let_def client_info_no_version
      elim!: bindM_InrE split: prod.splits sum.splits if_splits)

lemma reconnect_loop_result:
  "reconnect_loop P before k last_seen w = (Inr (l, confirmed), w') \<Longrightarrow>
   last_seen = None \<or> fw_version before = None \<Longrightarrow> (\<And>s. last_seen = Some s \<Longrightarrow> fw_version s = None) \<Longrightarrow>
   fw_version l = None \<and> confirmed = (fw_version before \<noteq> None)"
proof (induction k arbitrary: last_seen w)
  case 0
  then show ?case by (auto simp: ret_def raise_def split: option.splits)
next
  case (Suc k)
  from Suc.prems(1) obtain ok w1 where
    run: "(if \<not> ok then reconnect_loop P before k last_seen
      else bindM (read_firmware P) (\<lambda>seen. case seen of None \<Rightarrow> reconnect_loop P before k last_seen
           | Some l \<Rightarrow> (if fw_version before \<noteq> None \<and> (fw_version l, fw_flavor l) \<noteq> (fw_version before, fw_flavor before)
                then ret (l, True) else reconnect_loop P before k (Some l)))) w1 = (Inr (l, confirmed), w')"
    unfolding reconnect_loop.simps thenM_def by (elim bindM_InrE) (rule that)
  show ?case
  proof (cases ok)
    case False
    with run Suc.IH [OF _ Suc.prems(2,3)] show ?thesis by simp
  next
    case True
    with run have "bindM (read_firmware P) (\<lambda>seen. case seen of None \<Rightarrow> reconnect_loop P before k last_seen
           | Some l \<Rightarrow> (if fw_version before \<noteq> None \<and> (fw_version l, fw_flavor l) \<noteq> (fw_version before, fw_flavor before)
                then ret (l, True) else reconnect_loop P before k (Some l))) w1 = (Inr (l, confirmed), w')"
      by (simp only: not_True_eq_False if_False)
    then obtain seen w2 where r: "read_firmware P w1 = (Inr seen, w2)"
      and k: "(case seen of None \<Rightarrow> reconnect_loop P before k last_seen
           | Some l \<Rightarrow> (if fw_version before \<noteq> None \<and> (fw_version l, fw_flavor l) \<noteq> (fw_version before, fw_flavor before)
                then ret (l, True) else reconnect_loop P before k (Some l))) w2 = (Inr (l, confirmed), w')"
      by (rule bindM_InrE)
    show ?thesis
    proof (cases seen)
      case None
      with k Suc.IH [OF _ Suc.prems(2,3)] show ?thesis by simp
    next
      case (Some s)
      with r have "fw_version s = None" by (simp add: read_firmware_no_version)
      with k Some Suc.IH [of "Some s" w2] show ?thesis by (auto simp: ret_def split: if_splits)
    qed
  qed
qed

text \<open>C40: The reading after a flash confirms nothing: the version it finds is never the firmware's, because
  the client has replaced the key it is read from, and the flag that says a change was observed is set exactly
  when the version before the flash was known, on the first reading that comes back, even if the firmware is
  the same.\<close>

theorem reconnect_confirms_blindly:
  assumes "reconnect_and_classify P before w = (Inr (after, confirmed), w')"
  shows "fw_version after = None \<and> (confirmed \<longleftrightarrow> fw_version before \<noteq> None)"
  using reconnect_loop_result assms unfolding reconnect_and_classify_def by fastforce

text \<open>The witness is a device that reports nothing but a hardware model.\<close>

theorem reconnect_confirms_blindly_witness:
  "\<exists>after w'. reconnect_and_classify informer
       \<lparr>fw_flavor = OFFICIAL, fw_version = Some ''1.0'', fw_origin_fork = None, fw_origin_git = None, fw_target = Some ''f7''\<rparr>
       (sim_cworld WiFiTransport None []) = (Inr (after, True), w') \<and> fw_version after = None"
proof -
  let ?b = "\<lparr>fw_flavor = OFFICIAL, fw_version = Some ''1.0'', fw_origin_fork = None, fw_origin_git = None, fw_target = Some ''f7''\<rparr>"
  let ?run = "reconnect_and_classify informer ?b (sim_cworld WiFiTransport None [])"
  have "case fst ?run of Inl _ \<Rightarrow> False | Inr _ \<Rightarrow> True" by code_simp
  then obtain after confirmed w' where run: "?run = (Inr (after, confirmed), w')"
    by (cases ?run) (auto split: sum.splits)
  from reconnect_confirms_blindly [OF this] run show ?thesis by auto
qed

end
