(* ===== verification/Transfer_Properties.thy ===== *)
theory Transfer_Properties
  imports Tool_Properties
begin

text \<open>
  A verified pull, and the pairing of requests with answers: what a successful
  \<^verbatim>\<open>flipperzero_fs_pull\<close> has compared, and that \<^verbatim>\<open>_send_rpc_message\<close> takes the next frame of
  the link for its answer whichever request that frame answers.
\<close>

section \<open>A verified pull\<close>

lemma rpc_tool_InrE:
  assumes "rpc_tool P m w = (Inr x, w')"
  obtains w1 where "get_rpc P w = (Inr (), w1)" and "m w1 = (Inr x, w')"
  using assms unfolding rpc_tool_def reporting_def thenM_def
  by (auto simp: try_except_def raise_def split: prod.splits sum.splits if_splits elim!: bindM_InrE)

lemma verify_md5_InrE:
  assumes "verify_md5 h dm path w = (Inr u, w')"
  obtains d where "dm = Some d" and "lower d = lower h" and "w' = w"
  using assms by (auto simp: verify_md5_def raise_def ret_def split: option.splits if_splits)

text \<open>C12: A pull that reports success read the file from the device, got the device's MD5 of it, wrote the
  bytes to the local file, read that file back, and found its MD5 to be the device's: the length and digest it reports
  are those of the file now on the disk.\<close>

theorem fs_pull_verified:
  assumes "fs_pull P H src_path local_path w = (Inr res, w')"
  shows "\<exists>data d written w1 w2 w3 w4. storage_read P src_path w1 = (Inr data, w2) \<and>
       storage_md5sum P src_path w2 = (Inr (Some d), w3) \<and>
       block_io (write_bytes H local_path data) w3 = (Inr (), w4) \<and>
       block_io (read_bytes H local_path) w4 = (Inr written, w') \<and>
       lower d = md5_hex written \<and>
       res = JObj [(''local_path'', JStr local_path), (''bytes'', JNat (length written)), (''md5'', JStr (md5_hex written)),
                   (''verified'', JBool True)]"
proof -
  from assms obtain data dm v written u where
    pull: "rpc_tool P (bindM (storage_read P src_path) (\<lambda>data.
             bindM (storage_md5sum P src_path) (\<lambda>device_md5. ret (data, device_md5)))) w = (Inr (data, dm), v)"
    and fileio: "thenM (block_io (write_bytes H local_path data)) (block_io (read_bytes H local_path)) v = (Inr written, u)"
    and check: "verify_md5 (md5_hex written) dm src_path u = (Inr (), w')"
    and res: "res = JObj [(''local_path'', JStr local_path), (''bytes'', JNat (length written)),
                  (''md5'', JStr (md5_hex written)), (''verified'', JBool True)]"
    unfolding fs_pull_def Let_def thenM_def
    by (auto simp: ret_def try_except_def raise_def split: prod.splits sum.splits if_splits elim!: bindM_InrE)
  from pull obtain w1 w2 where "storage_read P src_path w1 = (Inr data, w2)" "storage_md5sum P src_path w2 = (Inr dm, v)"
    by (auto simp: ret_def elim!: rpc_tool_InrE bindM_InrE)
  moreover from fileio obtain w4 where "block_io (write_bytes H local_path data) v = (Inr (), w4)"
    "block_io (read_bytes H local_path) w4 = (Inr written, u)"
    by (auto simp: thenM_def elim!: bindM_InrE)
  moreover from check obtain d where "dm = Some d" "lower d = lower (md5_hex written)" "w' = u" by (rule verify_md5_InrE)
  moreover have "lower (md5_hex written) = md5_hex written" by (simp add: md5_hex_def hexdigest_lower)
  ultimately show ?thesis using res by metis
qed

text \<open>A device that answers a request to read a file with the bytes 1 and 2, and every other one with the digest \<open>h\<close>.\<close>

definition reader :: "string \<Rightarrow> bytes list platform" where
  "reader h = sim_platform (\<lambda>msg. case content msg of Request (StorageReadRequest _) \<Rightarrow> [1] | _ \<Rightarrow> [2])
     (\<lambda>b. Some \<lparr>command_id = 1, command_status = STATUS_OK, has_next = False,
                content = Response (if b = [1] then StorageReadResponse
                    \<lparr>f_type = FILE, f_name = ''a'', f_size = 2, f_data = [1, 2], f_md5sum = []\<rparr>
                  else StorageMd5sumResponse h)\<rparr>)
     (\<lambda>b. [b])"

theorem fs_pull_verified_witness:
  "\<exists>data d (w1 :: bytes list cworld) w2 w3. storage_read (reader (md5_hex [1, 2])) ''/ext/a'' w1 = (Inr data, w2) \<and>
     storage_md5sum (reader (md5_hex [1, 2])) ''/ext/a'' w2 = (Inr (Some d), w3) \<and> lower d = md5_hex [1, 2]"
proof -
  let ?P = "reader (md5_hex [1, 2])" and ?w = "sim_cworld WiFiTransport None []"
  let ?pull = "\<lambda>P. rpc_tool P (bindM (storage_read P ''/ext/a'') (\<lambda>data.
             bindM (storage_md5sum P ''/ext/a'') (\<lambda>device_md5. ret (data, device_md5)))) ?w"
  obtain a h where ah: "md5_hex [1, 2] = a # h" by (metis length_0_conv md5_hex_length neq_Nil_conv zero_neq_numeral)
  have "fst (?pull (reader (a # h))) = Inr ([1, 2], Some (a # h))" by code_simp
  then obtain v where pull: "?pull ?P = (Inr ([1, 2], Some (md5_hex [1, 2])), v)"
    unfolding ah by (metis prod.collapse)
  have "\<exists>res w'. fs_pull ?P sim_host ''/ext/a'' ''a'' ?w = (Inr res, w')"
    unfolding fs_pull_def by (subst bindM_def)
      (simp add: pull thenM_def bindM_def try_except_def ret_def block_io_def sim_host_def verify_md5_def Let_def)
  then obtain res w' where "fs_pull ?P sim_host ''/ext/a'' ''a'' ?w = (Inr res, w')" by blast
  from fs_pull_verified [OF this] obtain data d written w4 and w1 w2 w3 :: "bytes list cworld" where
    "storage_read ?P ''/ext/a'' w1 = (Inr data, w2)" "storage_md5sum ?P ''/ext/a'' w2 = (Inr (Some d), w3)"
    "block_io (read_bytes sim_host ''a'') w4 = (Inr written, w')" "lower d = md5_hex written" by blast
  moreover from this(3) have "written = [1, 2]" by (simp add: block_io_def sim_host_def)
  ultimately show ?thesis by blast
qed

section \<open>Requests and answers\<close>

lemma send_message_link: "send_message P msg w = (r, w') \<Longrightarrow> link_frame w w'"
  unfolding send_message_def by (rule keepsD [OF transport_send_link])

text \<open>C36: Answers are not paired with requests: in a running session a whole frame left in the receive buffer
  (the late answer to a request that timed out, or the second frame of an answer that was read only once) is
  returned as the answer to the next request, whatever its \<^verbatim>\<open>command_id\<close>, and the request's own answer is left behind.\<close>

theorem stale_answer_is_taken:
  fixes w :: "('d, 'z) rworld_scheme"
  assumes "r_session_started w" and "rx_buffer w = framed payload @ rest"
    and "payload \<noteq> []" and "length payload \<le> 1000000" and "parse P payload = Some m"
    and "i = (r_command_id w + 1) mod 0xFFFFFFFF"
    and "send_message P (main_request i False (Request c)) (w\<lparr>r_command_id := i\<rparr>) = (Inr (), v)"
  shows "\<exists>w'. request P c t w = (Inr (Some m), w') \<and> rx_buffer w' = rest \<and> r_command_id w' = i \<and> tx_log w' = tx_log v"
proof -
  have "rx_buffer v = framed payload @ rest" and more: "tworld.more v = tworld.more (w\<lparr>r_command_id := i\<rparr>)"
    using link_frame_fields [OF send_message_link [OF assms(7)]] assms(2) by simp_all
  then have "receive_main_message P t v =
      (Inr (Some m), v\<lparr>now := now v + Suc (length (encode_varint (length payload))), rx_buffer := rest\<rparr>)"
    using receive_main_message_framed assms(3-5) by blast
  moreover have "r_command_id v = i" using more by (cases v; cases w; simp)
  ultimately show ?thesis using assms(1,6,7)
    by (simp add: request_def send_rpc_message_def ensure_rpc_session_started_def get_next_command_id_def Let_def
        thenM_def bindM_def get_def ret_def try_except_def)
qed

text \<open>The frame left over carries the identifier 99; the request that receives it is number 1, and its own answer
  stays on the link.\<close>

definition digest_99 :: main_msg where
  "digest_99 = \<lparr>command_id = 99, command_status = STATUS_OK, has_next = False,
                content = Response (StorageMd5sumResponse ''abc'')\<rparr>"

definition late :: "bytes list platform" where
  "late = sim_platform (\<lambda>_. [8]) (\<lambda>b. if b = [7] then Some digest_99 else None) (\<lambda>_. [[1, 8]])"

theorem stale_answer_is_taken_witness:
  "\<exists>w'. request late (StorageMd5sumRequest ''/ext/b'') RESPONSE_TIMEOUT
      ((sim_rworld WiFiTransport None [])\<lparr>r_session_started := True, rx_buffer := framed [7]\<rparr>) =
    (Inr (Some digest_99), w') \<and> rx_buffer w' = [] \<and> r_command_id w' = 1"
proof -
  let ?w = "(sim_rworld WiFiTransport None [])\<lparr>r_session_started := True, rx_buffer := framed [7]\<rparr>"
  let ?send = "send_message late (main_request 1 False (Request (StorageMd5sumRequest ''/ext/b''))) (?w\<lparr>r_command_id := 1\<rparr>)"
  have "fst ?send = Inr ()" by code_simp
  then obtain v where send: "?send = (Inr (), v)" by (metis prod.collapse)
  have "parse late [7] = Some digest_99" by (simp add: late_def sim_platform_def)
  from stale_answer_is_taken [of ?w "[7]" "[]" late digest_99 1 "StorageMd5sumRequest ''/ext/b''" v RESPONSE_TIMEOUT, OF _ _ _ _ this _ send]
  show ?thesis by (auto simp: sim_rworld_def)
qed

end
