(* ===== verification/Cli_Typed_Properties.thy ===== *)
theory Cli_Typed_Properties
  imports Cli_Typed
begin

text \<open>
  The parsers of the CLI tools: a scan is read back as the addresses it shows.
\<close>

section \<open>Reading a scan\<close>

text \<open>The grid that a scan prints for the addresses that answered: one row per high nibble.\<close>

definition grid_row :: "(nat \<Rightarrow> bool) \<Rightarrow> nat \<Rightarrow> string" where
  "grid_row A h = char_of (48 + h) # '' | '' @ join '' '' (map (\<lambda>c. if A (16 * h + c) then ''#'' else ''-'') [0..<16])"

definition grid :: "(nat \<Rightarrow> bool) \<Rightarrow> string" where
  "grid A = join [CHR 0x0A] (map (grid_row A) [0..<8])"

lemma strip_ansi_id: "CHR 0x1B \<notin> set s \<Longrightarrow> strip_ansi s = s"
proof (induction s)
  case Nil
  show ?case by (subst strip_ansi.simps) simp
next
  case (Cons c s)
  then show ?case by (subst strip_ansi.simps) (auto simp: Let_def)
qed

lemma splitlines_last:
  assumes "l \<noteq> []" and "\<forall>c \<in> set l. \<not> py_linebreak c"
  shows "splitlines l = [l]"
proof -
  have "takeWhile (\<lambda>c. \<not> py_linebreak c) l = l" using assms by simp
  then show ?thesis using assms by (subst splitlines.simps) (simp only: Let_def, simp)
qed

lemma splitlines_step:
  assumes "\<forall>c \<in> set l. \<not> py_linebreak c" 
  shows "splitlines (l @ CHR 0x0A # s) = l # splitlines s"
proof -
  have "py_linebreak CHR 0x0A" by (simp add: py_linebreak_def code_def)
  with assms have "takeWhile (\<lambda>c. \<not> py_linebreak c) (l @ CHR 0x0A # s) = l" by (simp add: takeWhile_append2)
  then show ?thesis by (subst splitlines.simps) (simp add: Let_def)
qed

lemma splitlines_join:
  "ls \<noteq> [] \<Longrightarrow> (\<And>l. l \<in> set ls \<Longrightarrow> l \<noteq> [] \<and> (\<forall>c \<in> set l. \<not> py_linebreak c)) \<Longrightarrow> splitlines (join [CHR 0x0A] ls) = ls"
proof (induction ls rule: induct_list012)
  case (3 x y xs)
  then have "splitlines (join [CHR 0x0A] (y # xs)) = y # xs" by (metis list.distinct(1) list.set_intros(2))
  moreover have "\<forall>c \<in> set x. \<not> py_linebreak c" using "3.prems"(2) [of x] by simp
  ultimately show ?case using splitlines_step [of x "join [CHR 0x0A] (y # xs)"] by simp
qed (simp_all add: splitlines_last)

lemma row_chars: "c \<in> set (grid_row A h) \<Longrightarrow> h < 8 \<Longrightarrow> (48 \<le> code c \<and> code c \<le> 55) \<or> c \<in> {CHR '' '', CHR ''|'', CHR ''#'', CHR ''-''}"
proof -
  have join: "c \<in> set (join '' '' ws) \<Longrightarrow> c = CHR '' '' \<or> (\<exists>w \<in> set ws. c \<in> set w)" for ws
    by (induction ws rule: induct_list012) auto
  show "c \<in> set (grid_row A h) \<Longrightarrow> h < 8 \<Longrightarrow> ?thesis"
    unfolding grid_row_def by (auto dest!: join split: if_splits)
qed

lemma row_plain:
  assumes "h < 8"
  shows "grid_row A h \<noteq> []" and "\<forall>c \<in> set (grid_row A h). \<not> py_linebreak c" and "CHR 0x1B \<notin> set (grid_row A h)"
  using row_chars [OF _ assms, of _ A]
  by (simp add: grid_row_def, (fastforce simp: py_linebreak_def code_def)+)

text \<open>The cells of a row are words, so splitting gives them back, and the row has no blanks at its ends.\<close>

definition cells :: "(nat \<Rightarrow> bool) \<Rightarrow> nat \<Rightarrow> string list" where
  "cells A h = map (\<lambda>c. if A (16 * h + c) then ''#'' else ''-'') [0..<16]"

lemma cells_words: "list_all is_word (cells A h)"
  by (auto simp: cells_def list_all_iff is_word_def py_space_def code_def)

lemma join_ends:
  "ws \<noteq> [] \<Longrightarrow> list_all is_word ws \<Longrightarrow>
   join '' '' ws \<noteq> [] \<and> \<not> py_space (hd (join '' '' ws)) \<and> \<not> py_space (last (join '' '' ws))"
proof (induction ws rule: induct_list012)
  case (2 x)
  then show ?case by (simp add: is_word_def list_all_iff)
next
  case (3 x y xs)
  then show ?case by (auto simp: is_word_def list_all_iff hd_append)
qed simp

lemma strip_id: "s \<noteq> [] \<Longrightarrow> \<not> py_space (hd s) \<Longrightarrow> \<not> py_space (last s) \<Longrightarrow> strip s = s"
proof -
  assume a: "s \<noteq> []" "\<not> py_space (hd s)" "\<not> py_space (last s)"
  then have "dropWhile py_space s = s" by (cases s) simp_all
  moreover have "dropWhile py_space (rev s) = rev s" using a by (cases "rev s") (simp_all add: last_conv_nth hd_rev [symmetric])
  ultimately show ?thesis by (simp add: strip_def lstrip_def rstrip_def)
qed

lemma i2c_line_row:
  assumes "h < 8"
  shows "i2c_line (grid_row A h) = map (\<lambda>n. ''0x'' @ hex2 n) (filter A (map (\<lambda>c. 16 * h + c) [0..<16]))"
proof -
  have ne: "cells A h \<noteq> []" by (simp add: cells_def)
  note ends = join_ends [OF ne cells_words]
  have row: "grid_row A h = char_of (48 + h) # '' | '' @ join '' '' (cells A h)"
    by (simp add: grid_row_def cells_def)
  have "\<not> py_space (char_of (48 + h))" using assms by (simp add: py_space_def)
  then have strip: "strip (grid_row A h) = grid_row A h"
    using ends by (intro strip_id) (simp_all add: row)
  have drop: "dropWhile py_space (CHR '' '' # join '' '' (cells A h)) = join '' '' (cells A h)"
    using ends by (cases "join '' '' (cells A h)") simp_all
  have bar: "\<not> py_space CHR ''|''" by (simp add: py_space_def code_def)
  have ex: "\<exists>x \<in> set (join '' '' (cells A h)). \<not> py_space x"
    using ends hd_in_set [of "join '' '' (cells A h)"] by blast
  have "i2c_row (grid_row A h) = Some (h, join '' '' (cells A h))"
    using assms drop ends bar ex by (simp add: row i2c_row_def Let_def)
  then have "i2c_line (grid_row A h) = map (\<lambda>(col, cell). ''0x'' @ hex2 (h * 16 + col))
      (filter (\<lambda>(col, cell). cell \<noteq> ''-'') (enumerate 0 (take 16 (cells A h))))"
    by (simp add: i2c_line_def strip split_ws_join [OF cells_words])
  also have "enumerate 0 (take 16 (cells A h)) = map (\<lambda>c. (c, if A (16 * h + c) then ''#'' else ''-'')) [0..<16]"
    by (simp add: cells_def enumerate_map_upt)
  finally show ?thesis by (simp add: filter_map o_def mult.commute if_distrib)
qed

text \<open>C27: The scan of the I2C bus is read back exactly: of the grid that shows a set of addresses, the parser
  returns these addresses, in order, as two hexadecimal digits; and whatever the device prints, every address
  returned is a 7-bit one.\<close>

theorem i2c_scan_read_back:
  "parse_i2c (grid A) = map (\<lambda>n. ''0x'' @ hex2 n) (filter A [0..<128]) \<and>
   set (parse_i2c output) \<subseteq> (\<lambda>n. ''0x'' @ hex2 n) ` {0..<128}"
proof
  let ?rows = "map (grid_row A) [0..<8]"
  have "CHR 0x1B \<notin> set (grid A)"
  proof -
    have join: "c \<in> set (join [CHR 0x0A] ls) \<Longrightarrow> c = CHR 0x0A \<or> (\<exists>l \<in> set ls. c \<in> set l)" for c ls
      by (induction ls rule: induct_list012) auto
    have "CHR 0x1B \<notin> set l" if "l \<in> set ?rows" for l using that row_plain(3) by auto
    with join [of "CHR 0x1B" ?rows] show ?thesis unfolding grid_def by auto
  qed
  then have "strip_ansi (grid A) = grid A" by (rule strip_ansi_id)
  moreover have "splitlines (grid A) = ?rows"
    unfolding grid_def by (rule splitlines_join) (auto simp: row_plain)
  ultimately have "parse_i2c (grid A) = concat (map (\<lambda>h. i2c_line (grid_row A h)) [0..<8])"
    by (simp add: parse_i2c_def o_def)
  also have "\<dots> = concat (map (\<lambda>h. map (\<lambda>n. ''0x'' @ hex2 n) (filter A (map (\<lambda>c. 16 * h + c) [0..<16]))) [0..<8])"
    by (intro arg_cong [where f = concat] map_cong refl i2c_line_row) simp
  also have "\<dots> = map (\<lambda>n. ''0x'' @ hex2 n) (filter A (concat (map (\<lambda>h. map (\<lambda>c. 16 * h + c) [0..<16]) [0..<8])))"
    by (simp add: map_concat filter_concat o_def)
  also have "concat (map (\<lambda>h. map (\<lambda>c. 16 * h + c) [0..<16]) [0..<8]) = [0..<128]"
    by code_simp
  finally show "parse_i2c (grid A) = map (\<lambda>n. ''0x'' @ hex2 n) (filter A [0..<128])" .
  have "set (i2c_line line) \<subseteq> (\<lambda>n. ''0x'' @ hex2 n) ` {0..<128}" for line
    by (auto simp: i2c_line_def i2c_row_def Let_def in_set_enumerate_eq split: option.splits list.splits if_splits
        intro!: imageI)
  then show "set (parse_i2c output) \<subseteq> (\<lambda>n. ''0x'' @ hex2 n) ` {0..<128}"
    by (auto simp: parse_i2c_def)
qed

end
