(* ===== verification/Lock_Discipline.thy ===== *)
theory Lock_Discipline
  imports Confinement Server_Invariant Bundle_Properties
begin

text \<open>
  The I/O lock that all calls share.  Whatever a tool writes to the link, it writes while it holds the lock: the
  ghost \<open>tx_free\<close>, which notes the writes made without it, never changes.  A call that runs while another one holds the
  lock stands here as a run from a locked state: whatever needs the lock ends such a run at once.
\<close>

definition waits :: "('d, 'z) world_scheme \<Rightarrow> ('d, 'z) world_scheme \<Rightarrow> bool" where
  "waits w w' \<longleftrightarrow> io_locked w' = io_locked w \<and> tx_free w' = tx_free w \<and> (io_locked w \<longrightarrow> tx_log w' = tx_log w)"

interpretation wt: frame_rel waits
proof
  fix w w' w'' :: "('d, 'z) world_scheme"
  show "waits w w" by (simp add: waits_def)
  assume "waits w w'" and "waits w' w''"
  then show "waits w w''" by (simp add: waits_def)
qed

text \<open>What happens under the lock waits for it, and is not written without it.\<close>

lemma with_lock_waits:
  assumes "keeps io_frame m"
  shows "keeps waits (with_lock m)"
proof (rule keepsI)
  fix w r w' assume run: "with_lock m w = (r, w')"
  obtain r' v where v: "m (w\<lparr>io_locked := True\<rparr>) = (r', v)" by fastforce
  from keepsD [OF assms v] run v show "waits w w'"
    by (auto simp: with_lock_def waits_def io_frame_def split: if_splits)
qed

lemma with_lock_waits_r: "keeps r_frame m \<Longrightarrow> keeps waits (with_lock m)"
  by (rule with_lock_waits, erule keeps_mono) (simp add: r_frame_def)

lemma rx_waits: "keeps rx_frame m \<Longrightarrow> keeps waits m"
  by (erule keeps_mono) (simp add: rx_frame_def t_frame_def io_frame_def waits_def)

lemma modify_waits: "(\<And>w. io_locked (f w) = io_locked w \<and> tx_log (f w) = tx_log w \<and> tx_free (f w) = tx_free w) \<Longrightarrow> keeps waits (modify f)"
  by (rule wt.keeps_modify) (simp add: waits_def)

lemma io_waits: "keeps waits (await_io f)" "keeps waits (block_io f)" "keeps waits (sleep t)"
  unfolding sleep_def
  by (auto simp: keeps_def waits_def await_io_def block_io_def split: prod.splits option.splits)

lemma lift_waits: "keeps waits (lift_result r)"
  by (simp add: keeps_def lift_result_def wt.refl)

lemma calls_wait:
  "keeps waits (app_lock_status P)" "keeps waits (app_get_error P)" "keeps waits (app_start P name args)"
  "keeps waits (desktop_is_locked P)" "keeps waits (gpio_read P pin)" "keeps waits (system_protobuf_version P)"
  "keeps waits (system_datetime P)" "keeps waits (system_update P path)" "keeps waits (system_reboot_update P)"
  "keeps waits (system_power_info P)" "keeps waits (get_property P key)" "keeps waits (rpc_get_device_info P)"
  "keeps waits (ping P data)"
  unfolding app_lock_status_def app_get_error_def app_start_def desktop_is_locked_def gpio_read_def
    system_protobuf_version_def system_datetime_def system_update_def system_reboot_update_def
    system_power_info_def get_property_def rpc_get_device_info_def ping_def timed_def
    system_power_info_internal_def get_property_internal_def get_device_info_internal_def
  by (rule with_lock_waits_r,
      intro rcall_rules gpio_request_r power_info_loop_r device_info_loop_r property_fallback_r)+

lemma storage_waits:
  "keeps waits (storage_list_detailed P path inc n)" "keeps waits (storage_read P path)"
  "keeps waits (storage_info P path)" "keeps waits (storage_stat P path)" "keeps waits (storage_timestamp P path)"
  "keeps waits (storage_md5sum P path)" "keeps waits (storage_mkdir P path)" "keeps waits (storage_delete P path b)"
  "keeps waits (storage_rename P path path')" "keeps waits (storage_write P path data)"
  unfolding storage_list_detailed_def storage_read_def storage_info_def storage_stat_def storage_timestamp_def
    storage_md5sum_def storage_mkdir_def storage_delete_def storage_rename_def storage_write_def timed_def
    storage_write_internal_def
  by (rule with_lock_waits_r, intro rcall_rules storage_list_frames_r write_fragments_r)+

lemma client_set_waits:
  "keeps waits (set_last_error e)" "keeps waits new_rpc" "keeps waits (modify (\<lambda>w. w\<lparr>c_sd_card := x\<rparr>))"
  "keeps waits (modify (\<lambda>w. w\<lparr>c_connected := True, c_last_error := None, c_sd_card := None, c_mode := UNKNOWN\<rparr>))"
  "keeps waits (modify (\<lambda>w. w\<lparr>c_connected := False, c_rpc := False, c_sd_card := None, c_mode := UNKNOWN\<rparr>))"
  unfolding set_last_error_def new_rpc_def by (rule modify_waits; simp)+

lemma client_waits:
  "keeps waits (connect P)" "keeps waits (disconnect P)" "keeps waits (ensure_connected P)" "keeps waits (get_rpc P)"
proof -
  have t: "keeps waits (transport_is_connected P)"
    by (rule keepsI) (metis transport_is_connected_pure prod.inject wt.refl)
  note rules = wt.keeps_rules client_set_waits rx_waits [OF transport_connect_rx] rx_waits [OF transport_disconnect_rx] t
  show c: "keeps waits (connect P)" unfolding connect_def by (intro rules)
  show d: "keeps waits (disconnect P)" unfolding disconnect_def by (intro rules)
  show e: "keeps waits (ensure_connected P)" unfolding ensure_connected_def by (intro rules c d)
  show "keeps waits (get_rpc P)" unfolding get_rpc_def by (intro rules e)
qed

lemma cli_exec_waits: "keeps waits (cli_exec P command timeout accept tx)"
proof -
  have "keeps waits (with_lock (cli_exchange P c t))" for c t
    by (rule with_lock_waits, rule keeps_mono [OF cli_exchange_frame]) (simp add: cli_frame_def)
  then show ?thesis
    unfolding cli_exec_def reject_shell_chaining_def enforce_tx_gate_def Let_def
    by (auto intro!: wt.keeps_rules split: list.split)
qed

lemma facts_wait:
  "keeps waits (get_connection_health P probe)" "keeps waits (get_device_info P)" "keeps waits (check_sd_card_available P)"
proof -
  have "keeps waits (transport_is_connected P)"
    by (rule keepsI) (metis transport_is_connected_pure prod.inject wt.refl)
  then show "keeps waits (get_connection_health P probe)"
    unfolding get_connection_health_def probe_health_def by (intro wt.keeps_rules client_set_waits calls_wait)
  show "keeps waits (get_device_info P)" "keeps waits (check_sd_card_available P)"
    unfolding get_device_info_def check_sd_card_available_def
    by (intro wt.keeps_rules client_set_waits calls_wait storage_waits)+
qed

interpretation waiting_install: installer_frame waits "rpc_ops P" for P
  by unfold_locales (simp_all add: rpc_ops_def calls_wait storage_waits io_waits)

lemma helpers_wait:
  "keeps waits (answer msg x)" "keeps waits (insist msg b)" "keeps waits (verify_md5 a d p)"
  "keeps waits (require_write_tools cfg)" "keeps waits (require_firmware_flash cfg)" "keeps waits (interlock confirm device)"
  unfolding answer_def insist_def verify_md5_def require_firmware_flash_def require_write_tools_def interlock_def
  by (intro wt.keeps_rules)+

lemmas waits_rules = wt.keeps_rules io_waits lift_waits calls_wait storage_waits client_set_waits client_waits
  cli_exec_waits facts_wait helpers_wait

lemma firmware_waits: "keeps waits (firmware_install P H cfg source confirm)"
proof -
  have fetch: "keeps waits (fetch H url)" for url
    unfolding fetch_def by (intro waits_rules)
  have resolve: "keeps waits (resolve H source target)" for target
    unfolding resolve_def download_bundle_def download_official_def download_momentum_def load_local_bundle_def
    by (auto split: option.split firmware_flavor.split intro!: waits_rules fetch)
  have "keeps waits (resync_session P)"
    unfolding resync_session_def by (intro waits_rules)
  then have "keeps waits (install_bundle (rpc_ops P) b pkg (Some (resync_session P)))" for b pkg
    by (intro waiting_install.install_keeps) auto
  then have flash: "keeps waits (flash P H source target)" for target
    unfolding flash_def by (intro waits_rules resolve)
  have loop: "keeps waits (reconnect_loop P before k l)" for before k l
  proof (induction k arbitrary: l)
    case 0
    show ?case by (auto split: option.split intro: waits_rules)
  next
    case (Suc k)
    show ?case unfolding reconnect_loop.simps read_firmware_def by (intro waits_rules Suc.IH)
  qed
  show ?thesis
    unfolding firmware_install_def identify_device_def reporting_def reconnect_and_classify_def
    by (intro waits_rules flash loop)
qed

lemma run_tool_waits: "keeps waits (run_tool P H cfg c)"
  by (cases c)
    (simp_all add: firmware_waits,
     unfold fs_info_def fs_stat_def fs_timestamp_def fs_list_def fs_mkdir_def fs_delete_def fs_rename_def fs_push_def
       fs_pull_def push_transfer_def tool_app_lock_status_def tool_app_get_error_def tool_desktop_is_locked_def
       tool_gpio_read_def tool_power_info_def tool_protobuf_version_def tool_datetime_def tool_ping_def
       tool_property_get_def tool_app_start_def core_status_def fs_tree_def loader_list_def i2c_scan_def
       tool_cli_exec_def connection_health_tool_def connection_reconnect_def system_info_def cli_typed_def rpc_tool_def
       reporting_def,
     (intro waits_rules)+)

section \<open>Properties\<close>

text \<open>C7: No two calls mix their bytes on the link: whatever tool is called, whatever the configuration and the device,
  everything the call writes it writes while it holds the I/O lock; a tool that is called while another call holds the lock
  writes nothing and leaves the lock with its holder.\<close>

theorem writes_need_the_lock:
  "tx_free (snd (run_tool P H cfg c w)) = tx_free w \<and>
   (io_locked w \<longrightarrow> tx_log (snd (run_tool P H cfg c w)) = tx_log w \<and> io_locked (snd (run_tool P H cfg c w)))"
  using keepsD [OF run_tool_waits surjective_pairing, of w P H cfg c] by (simp add: waits_def)

text \<open>The witness is a CLI command that comes while another exchange runs over USB.\<close>

theorem writes_need_the_lock_witness:
  "tx_log (snd (run_tool shell sim_host default_config (CliExec ''help'' (seconds 10) False)
     ((sim_cworld USBTransport None [])\<lparr>io_locked := True\<rparr>))) = []"
  using writes_need_the_lock [of shell sim_host default_config "CliExec ''help'' (seconds 10) False"
      "(sim_cworld USBTransport None [])\<lparr>io_locked := True\<rparr>"]
  by (simp add: sim_cworld_def)

text \<open>C37: The connection itself is not under the lock: a reconnect that comes while another call is in the middle of its
  exchange closes the serial port and takes the RPC object away at once, with the lock still held by that call.\<close>

theorem reconnect_ignores_the_lock:
  assumes "io_locked w" and "t_class w = USBTransport" and "usb_is_open P w"
    and "serial_close P None (now w) (dev w) = (Inr (), dt, d)"
  shows "\<exists>v. connection_reconnect P probe w =
           bindM (connect P) (\<lambda>ok. bindM (get_connection_health P probe) (\<lambda>h.
             ret (JObj (health_fields h @ [(''reconnect_ok'', JBool ok)])))) v \<and>
         dev v = d \<and> io_locked v \<and> \<not> c_rpc v \<and> \<not> u_connected (t_usb v) \<and> tx_log v = tx_log w"
proof -
  let ?v = "w\<lparr>dev := d, now := now w + Suc dt, t_usb := (t_usb w)\<lparr>u_connected := False\<rparr>, c_connected := False, c_rpc := False,
      c_sd_card := None, c_mode := UNKNOWN\<rparr>"
  have "disconnect P w = (Inr (), ?v)"
    using assms
    by (simp add: disconnect_def transport_disconnect_def usb_disconnect_def set_usb_connected_def block_io_def
        action_defs)
  then show ?thesis
    using assms(1) by (intro exI [of _ ?v]) (simp add: connection_reconnect_def thenM_def bindM_def)
qed

theorem reconnect_ignores_the_lock_witness:
  "\<exists>v. connection_reconnect shell False ((sim_cworld USBTransport None [])\<lparr>io_locked := True\<rparr>) =
         bindM (connect shell) (\<lambda>ok. bindM (get_connection_health shell False) (\<lambda>h.
           ret (JObj (health_fields h @ [(''reconnect_ok'', JBool ok)])))) v \<and> io_locked v \<and> \<not> c_rpc v"
  using reconnect_ignores_the_lock [of "(sim_cworld USBTransport None [])\<lparr>io_locked := True\<rparr>" shell 0 "[]" False]
  by (auto simp: sim_cworld_def usb_is_open_def shell_def sim_defs)

end
