(* ===== verification/Registry.thy ===== *)
theory Registry
  imports Server
begin

text \<open>
  What the server offers (\<^verbatim>\<open>create_server\<close> of \<^verbatim>\<open>server.py\<close>): the tools with the names, tags and hints their
  decorators give them, the prompts (\<^verbatim>\<open>prompts.py\<close>) and the resources (\<^verbatim>\<open>resources_registry.py\<close>).  FastMCP is a
  library; the server object is the record of what was registered with it.  Texts are their UTF-8 bytes.
\<close>

section \<open>The server object\<close>

text \<open>\<^verbatim>\<open>ToolAnnotations\<close> has optional fields.\<close>

record tool_annotations =
  readOnlyHint :: "bool option"
  destructiveHint :: "bool option"
  idempotentHint :: "bool option"
  openWorldHint :: "bool option"

record tool_spec =
  ts_name :: string
  ts_tags :: "string set"
  ts_hints :: tool_annotations

record resource_spec =
  rs_uri :: string
  rs_mime_type :: string
  rs_reader :: "unit \<Rightarrow> exn + string"

text \<open>A prompt is rendered with its argument, if it has one.\<close>

record prompt_spec =
  ps_name :: string
  ps_parameters :: "string list"
  ps_render :: "string \<Rightarrow> string"

record mcp_server =
  sv_name :: string
  sv_instructions :: string
  sv_config :: flipper_config
  sv_tools :: "tool_spec list"
  sv_resources :: "resource_spec list"
  sv_prompts :: "prompt_spec list"

definition add_tools :: "tool_spec list \<Rightarrow> mcp_server \<Rightarrow> mcp_server" where
  "add_tools ts mcp = mcp\<lparr>sv_tools := sv_tools mcp @ ts\<rparr>"

section \<open>Tools\<close>

definition READ_ONLY :: tool_annotations where
  "READ_ONLY = \<lparr>readOnlyHint = Some True, destructiveHint = None, idempotentHint = Some True, openWorldHint = Some True\<rparr>"

definition changing :: "bool \<Rightarrow> bool \<Rightarrow> tool_annotations" where
  "changing destructive idempotent =
     \<lparr>readOnlyHint = Some False, destructiveHint = Some destructive, idempotentHint = Some idempotent,
      openWorldHint = Some True\<rparr>"

definition connection_health_spec :: tool_spec where
  "connection_health_spec = \<lparr>ts_name = ''flipperzero_connection_health'',
     ts_tags = {''flipper'', ''connection''}, ts_hints = READ_ONLY\<rparr>"

definition connection_reconnect_spec :: tool_spec where
  "connection_reconnect_spec = \<lparr>ts_name = ''flipperzero_connection_reconnect'',
     ts_tags = {''flipper'', ''connection''}, ts_hints = changing False False\<rparr>"

definition register_connection_tools :: "mcp_server \<Rightarrow> mcp_server" where
  "register_connection_tools = add_tools [connection_health_spec, connection_reconnect_spec]"

definition system_info_spec :: tool_spec where
  "system_info_spec = \<lparr>ts_name = ''flipperzero_system_info'',
     ts_tags = {''flipper'', ''systeminfo''}, ts_hints = READ_ONLY\<rparr>"

definition system_power_info_spec :: tool_spec where
  "system_power_info_spec = \<lparr>ts_name = ''flipperzero_system_power_info'',
     ts_tags = {''flipper'', ''systeminfo''}, ts_hints = READ_ONLY\<rparr>"

definition system_protobuf_version_spec :: tool_spec where
  "system_protobuf_version_spec = \<lparr>ts_name = ''flipperzero_system_protobuf_version'',
     ts_tags = {''flipper'', ''systeminfo''}, ts_hints = READ_ONLY\<rparr>"

definition system_datetime_spec :: tool_spec where
  "system_datetime_spec = \<lparr>ts_name = ''flipperzero_system_datetime'',
     ts_tags = {''flipper'', ''systeminfo''}, ts_hints = READ_ONLY\<rparr>"

definition register_systeminfo_tools :: "mcp_server \<Rightarrow> mcp_server" where
  "register_systeminfo_tools = add_tools [system_info_spec, system_power_info_spec, system_protobuf_version_spec, system_datetime_spec]"

definition system_ping_spec :: tool_spec where
  "system_ping_spec = \<lparr>ts_name = ''flipperzero_system_ping'',
     ts_tags = {''flipper'', ''diagnostics''}, ts_hints = READ_ONLY\<rparr>"

definition system_property_get_spec :: tool_spec where
  "system_property_get_spec = \<lparr>ts_name = ''flipperzero_system_property_get'',
     ts_tags = {''flipper'', ''diagnostics''}, ts_hints = READ_ONLY\<rparr>"

definition register_diagnostics_tools :: "mcp_server \<Rightarrow> mcp_server" where
  "register_diagnostics_tools = add_tools [system_ping_spec, system_property_get_spec]"

definition app_lock_status_spec :: tool_spec where
  "app_lock_status_spec = \<lparr>ts_name = ''flipperzero_app_lock_status'',
     ts_tags = {''flipper'', ''device''}, ts_hints = READ_ONLY\<rparr>"

definition app_get_error_spec :: tool_spec where
  "app_get_error_spec = \<lparr>ts_name = ''flipperzero_app_get_error'',
     ts_tags = {''flipper'', ''device''}, ts_hints = READ_ONLY\<rparr>"

definition desktop_is_locked_spec :: tool_spec where
  "desktop_is_locked_spec = \<lparr>ts_name = ''flipperzero_desktop_is_locked'',
     ts_tags = {''flipper'', ''device''}, ts_hints = READ_ONLY\<rparr>"

definition gpio_read_spec :: tool_spec where
  "gpio_read_spec = \<lparr>ts_name = ''flipperzero_gpio_read'',
     ts_tags = {''flipper'', ''device''}, ts_hints = READ_ONLY\<rparr>"

definition register_device_tools :: "mcp_server \<Rightarrow> mcp_server" where
  "register_device_tools = add_tools [app_lock_status_spec, app_get_error_spec, desktop_is_locked_spec, gpio_read_spec]"

definition fs_info_spec :: tool_spec where
  "fs_info_spec = \<lparr>ts_name = ''flipperzero_fs_info'',
     ts_tags = {''flipper'', ''storage''}, ts_hints = READ_ONLY\<rparr>"

definition fs_stat_spec :: tool_spec where
  "fs_stat_spec = \<lparr>ts_name = ''flipperzero_fs_stat'',
     ts_tags = {''flipper'', ''storage''}, ts_hints = READ_ONLY\<rparr>"

definition fs_timestamp_spec :: tool_spec where
  "fs_timestamp_spec = \<lparr>ts_name = ''flipperzero_fs_timestamp'',
     ts_tags = {''flipper'', ''storage''}, ts_hints = READ_ONLY\<rparr>"

definition fs_list_spec :: tool_spec where
  "fs_list_spec = \<lparr>ts_name = ''flipperzero_fs_list'',
     ts_tags = {''flipper'', ''storage''}, ts_hints = READ_ONLY\<rparr>"

definition fs_mkdir_spec :: tool_spec where
  "fs_mkdir_spec = \<lparr>ts_name = ''flipperzero_fs_mkdir'',
     ts_tags = {''flipper'', ''storage''}, ts_hints = changing False False\<rparr>"

definition fs_delete_spec :: tool_spec where
  "fs_delete_spec = \<lparr>ts_name = ''flipperzero_fs_delete'',
     ts_tags = {''flipper'', ''storage''}, ts_hints = changing True False\<rparr>"

definition fs_rename_spec :: tool_spec where
  "fs_rename_spec = \<lparr>ts_name = ''flipperzero_fs_rename'',
     ts_tags = {''flipper'', ''storage''}, ts_hints = changing True False\<rparr>"

definition fs_push_spec :: tool_spec where
  "fs_push_spec = \<lparr>ts_name = ''flipperzero_fs_push'',
     ts_tags = {''flipper'', ''storage''}, ts_hints = changing True True\<rparr>"

definition fs_pull_spec :: tool_spec where
  "fs_pull_spec = \<lparr>ts_name = ''flipperzero_fs_pull'',
     ts_tags = {''flipper'', ''storage''}, ts_hints = changing True True\<rparr>"

definition register_storage_tools :: "mcp_server \<Rightarrow> mcp_server" where
  "register_storage_tools = add_tools [fs_info_spec, fs_stat_spec, fs_timestamp_spec, fs_list_spec, fs_mkdir_spec, fs_delete_spec, fs_rename_spec, fs_push_spec, fs_pull_spec]"

definition cli_exec_spec :: tool_spec where
  "cli_exec_spec = \<lparr>ts_name = ''flipperzero_cli_exec'',
     ts_tags = {''flipper'', ''cli''}, ts_hints = changing True False\<rparr>"

definition register_cli_tools :: "mcp_server \<Rightarrow> mcp_server" where
  "register_cli_tools = add_tools [cli_exec_spec]"

definition core_status_spec :: tool_spec where
  "core_status_spec = \<lparr>ts_name = ''flipperzero_core_status'',
     ts_tags = {''flipper'', ''cli_typed''}, ts_hints = READ_ONLY\<rparr>"

definition fs_tree_spec :: tool_spec where
  "fs_tree_spec = \<lparr>ts_name = ''flipperzero_fs_tree'',
     ts_tags = {''flipper'', ''cli_typed''}, ts_hints = READ_ONLY\<rparr>"

definition loader_list_spec :: tool_spec where
  "loader_list_spec = \<lparr>ts_name = ''flipperzero_loader_list'',
     ts_tags = {''flipper'', ''cli_typed''}, ts_hints = READ_ONLY\<rparr>"

definition i2c_scan_spec :: tool_spec where
  "i2c_scan_spec = \<lparr>ts_name = ''flipperzero_i2c_scan'',
     ts_tags = {''flipper'', ''cli_typed''}, ts_hints = READ_ONLY\<rparr>"

definition register_cli_typed_tools :: "mcp_server \<Rightarrow> mcp_server" where
  "register_cli_typed_tools = add_tools [core_status_spec, fs_tree_spec, loader_list_spec, i2c_scan_spec]"

definition app_start_spec :: tool_spec where
  "app_start_spec = \<lparr>ts_name = ''flipperzero_app_start'',
     ts_tags = {''flipper'', ''apps''}, ts_hints = changing False False\<rparr>"

definition register_app_tools :: "mcp_server \<Rightarrow> mcp_server" where
  "register_app_tools = add_tools [app_start_spec]"

definition firmware_install_spec :: tool_spec where
  "firmware_install_spec = \<lparr>ts_name = ''flipperzero_firmware_install'',
     ts_tags = {''flipper'', ''firmware''}, ts_hints = changing True False\<rparr>"

definition register_firmware_tools :: "mcp_server \<Rightarrow> mcp_server" where
  "register_firmware_tools = add_tools [firmware_install_spec]"

definition register_all_tools :: "mcp_server \<Rightarrow> mcp_server" where
  "register_all_tools mcp =
     register_firmware_tools (register_app_tools (register_cli_typed_tools (register_cli_tools
       (register_storage_tools (register_device_tools (register_diagnostics_tools (register_systeminfo_tools
         (register_connection_tools mcp))))))))"

section \<open>Resources\<close>

definition RESOURCES :: "(string \<times> string) list" where
  "RESOURCES =
     [(''flipper://reference/cli'', ''reference_cli.md''),
      (''flipper://reference/connection'', ''reference_connection.md''),
      (''flipper://reference/filesystem'', ''reference_filesystem.md''),
      (''flipper://reference/system'', ''reference_system.md''),
      (''flipper://workflow/install-app'', ''workflow_install_app.md''),
      (''flipper://workflow/transfer-files'', ''workflow_transfer_files.md''),
      (''flipper://workflow/flash-esp32'', ''workflow_flash_esp32.md''),
      (''flipper://workflow/capture-replay'', ''workflow_capture_replay.md'')]"

text \<open>Reading a file of the package is the library's: \<open>read_text package filename\<close>.\<close>

definition resource_read :: "(string \<Rightarrow> string \<Rightarrow> exn + string) \<Rightarrow> string \<Rightarrow> exn + string" where
  "resource_read read_text filename = read_text ''flipperzero_mcp.resources'' filename"

definition reader_for :: "(string \<Rightarrow> string \<Rightarrow> exn + string) \<Rightarrow> string \<Rightarrow> unit \<Rightarrow> exn + string" where
  "reader_for read_text filename = (\<lambda>_. resource_read read_text filename)"

definition register_resources :: "(string \<Rightarrow> string \<Rightarrow> exn + string) \<Rightarrow> mcp_server \<Rightarrow> mcp_server" where
  "register_resources read_text mcp =
     mcp\<lparr>sv_resources := sv_resources mcp @
       map (\<lambda>(uri, filename). \<lparr>rs_uri = uri, rs_mime_type = ''text/markdown'', rs_reader = reader_for read_text filename\<rparr>)
         RESOURCES\<rparr>"

section \<open>Prompts\<close>

definition manage_flipper :: "string" where
  "manage_flipper =
     ''You are managing a Flipper Zero via this MCP server.\<newline>\<newline>'' @
     ''1. Check the link with `flipperzero_system_info` or '' @
     ''`flipperzero_connection_health`.\<newline>'' @
     ''2. Read `flipper://reference/cli` for the command surface, '' @
     ''`flipper://reference/connection` for transport details, and '' @
     ''`flipper://reference/filesystem` for SD-card layout.\<newline>'' @
     ''3. Prefer typed storage tools (`flipperzero_fs_list`, `flipperzero_fs_push`, '' @
     ''`flipperzero_fs_pull`) over CLI storage commands.\<newline>'' @
     ''4. Run CLI commands with `flipperzero_cli_exec` (USB only; one command per call).\<newline>'' @
     ''5. Transmit/destructive commands need `FLIPPER_ENABLE_TX_TOOLS=true` '' @
     ''on the server AND `i_accept_responsibility=true` on the call.\<newline>'' @
     ''6. For multi-step jobs, consult the relevant `flipper://workflow/*` resource.''"

definition troubleshoot_connection :: "string" where
  "troubleshoot_connection =
     ''Diagnose the Flipper connection:\<newline>'' @
     ''1. Call `flipperzero_connection_health` with `probe_rpc=true`.\<newline>'' @
     ''2. If transport_connected is false, check USB cable / `FLIPPER_USB_PORT`, '' @
     ''or set `FLIPPER_WIFI_HOST` for the WiFi bridge.\<newline>'' @
     ''3. If transport is connected but rpc_responsive is false, call '' @
     ''`flipperzero_connection_reconnect`.\<newline>'' @
     ''4. See `flipper://reference/connection` for transport and mode details.\<newline>'' @
     ''5. Remember: `flipperzero_cli_exec` is USB-only.''"

definition flipper_doctor :: "string" where
  "flipper_doctor =
     ''Diagnose the Flipper end to end and report a verdict for each check:\<newline>'' @
     ''1. Transport + RPC: `flipperzero_connection_health` with `probe_rpc=true`. '' @
     ''On failure, follow the `troubleshoot_connection` prompt.\<newline>'' @
     ''2. Device + firmware: `flipperzero_system_info` '' @ [CHR 0xE2, CHR 0x80, CHR 0x94] @ '' record name, hardware, '' @
     ''firmware flavor, channel/version, and `sd_card_available`.\<newline>'' @
     ''3. Protobuf compatibility: `flipperzero_system_protobuf_version`.\<newline>'' @
     ''4. CLI shell: only if on USB, `flipperzero_cli_exec '' @ [CHR 0x22] @ ''help'' @ [CHR 0x22] @ ''` to confirm the text '' @
     ''console responds. Skip on WiFi '' @ [CHR 0xE2, CHR 0x80, CHR 0x94] @ '' `cli_exec` is USB-only and would error '' @
     ''(see `flipper://reference/cli`); record it as N/A rather than fail.\<newline>'' @
     ''5. TX/destructive gate: report whether `FLIPPER_ENABLE_TX_TOOLS` is enabled; '' @
     ''do not run gated commands here.\<newline>'' @
     ''Summarize as pass/warn/fail per check with the next action for any non-pass.''"

definition flipper_install :: "string \<Rightarrow> string" where
  "flipper_install github_url =
     ''Install the Flipper app at '' @ github_url @ ''. Follow '' @
     ''`flipper://workflow/install-app` and fail loud rather than ship an '' @
     ''incompatible `.fap`:\<newline>'' @
     ''1. Preflight: `flipperzero_system_info` '' @ [CHR 0xE2, CHR 0x80, CHR 0x94] @ '' confirm USB link, read the firmware '' @
     ''channel/version, and check `sd_card_available`. Confirm '' @
     ''`FLIPPER_ENABLE_WRITE_TOOLS=true` (steps 5-6 are gated on it); STOP before '' @
     ''cloning or building if it is off rather than fail at the push.\<newline>'' @
     ''2. Clone '' @ github_url @ '' on the host and locate the ufbt app '' @
     ''(`application.fam`).\<newline>'' @
     ''3. Read `firmware.flavor` from `flipperzero_system_info`. For official firmware, '' @
     ''run `ufbt update --channel=<release|rc|dev>` matching the device version; for '' @
     ''Momentum, point ufbt at the Momentum SDK index per its docs. If '' @
     ''`firmware.flavor` is unknown/unsupported or the repo targets a different '' @
     ''channel/firmware, STOP and report '' @ [CHR 0xE2, CHR 0x80, CHR 0x94] @ '' never produce an incompatible `.fap`.\<newline>'' @
     ''4. Build the `.fap` with ufbt against that SDK; abort on any build error.\<newline>'' @
     ''5. `flipperzero_fs_mkdir` for `/ext/apps/<Category>` if absent, then '' @
     ''`flipperzero_fs_push` the `.fap` (it verifies the device MD5 and raises on '' @
     ''mismatch).\<newline>'' @
     ''6. Confirm placement with `flipperzero_fs_list` for that directory.\<newline>'' @
     ''7. Launch with `flipperzero_app_start` (`name` = the app name); it runs over '' @
     ''RPC on USB or WiFi. Stop with `flipperzero_cli_exec '' @ [CHR 0x22] @ ''loader close'' @ [CHR 0x22] @ ''` (USB only).\<newline>'' @
     ''8. Report channel/version, built `.fap`, push verification, and launch result.''"

definition register_prompts :: "mcp_server \<Rightarrow> mcp_server" where
  "register_prompts mcp =
     mcp\<lparr>sv_prompts := sv_prompts mcp @
       [\<lparr>ps_name = ''manage_flipper'', ps_parameters = [], ps_render = \<lambda>_. manage_flipper\<rparr>,
        \<lparr>ps_name = ''troubleshoot_connection'', ps_parameters = [], ps_render = \<lambda>_. troubleshoot_connection\<rparr>,
        \<lparr>ps_name = ''flipper_doctor'', ps_parameters = [], ps_render = \<lambda>_. flipper_doctor\<rparr>,
        \<lparr>ps_name = ''flipper_install'', ps_parameters = [''github_url''], ps_render = flipper_install\<rparr>]\<rparr>"

section \<open>The server\<close>

definition INSTRUCTIONS :: string where
  "INSTRUCTIONS =
     ''Flipper Zero MCP server. Inspect connection health and system info, manage '' @
     ''files, and run Flipper CLI commands over USB with flipperzero_cli_exec. Read '' @
     ''the flipper://reference/* and flipper://workflow/* resources to choose safe '' @
     ''commands. Call flipperzero_connection_health before other tools if the device '' @
     ''may have disconnected.''"

text \<open>\<open>loaded\<close> is what \<^verbatim>\<open>FlipperConfig()\<close> reads from the environment.\<close>

definition create_server ::
  "flipper_config \<Rightarrow> (string \<Rightarrow> string \<Rightarrow> exn + string) \<Rightarrow> flipper_config option \<Rightarrow> mcp_server" where
  "create_server loaded read_text config =
     register_prompts (register_resources read_text (register_all_tools
       \<lparr>sv_name = ''flipperzero-mcp'', sv_instructions = INSTRUCTIONS,
        sv_config = (case config of None \<Rightarrow> loaded | Some c \<Rightarrow> c),
        sv_tools = [], sv_resources = [], sv_prompts = []\<rparr>))"

section \<open>Calls\<close>

text \<open>The tool that a call is a call of.\<close>

fun spec_of :: "tool_call \<Rightarrow> tool_spec" where
  "spec_of (ConnectionHealth _) = connection_health_spec"
| "spec_of (ConnectionReconnect _) = connection_reconnect_spec"
| "spec_of SystemInfo = system_info_spec"
| "spec_of PowerInfo = system_power_info_spec"
| "spec_of ProtobufVersion = system_protobuf_version_spec"
| "spec_of Datetime = system_datetime_spec"
| "spec_of (FsInfo _) = fs_info_spec"
| "spec_of (FsStat _) = fs_stat_spec"
| "spec_of (FsTimestamp _) = fs_timestamp_spec"
| "spec_of (FsList _) = fs_list_spec"
| "spec_of (FsMkdir _) = fs_mkdir_spec"
| "spec_of (FsDelete _ _) = fs_delete_spec"
| "spec_of (FsRename _ _) = fs_rename_spec"
| "spec_of (FsPush _ _) = fs_push_spec"
| "spec_of (FsPull _ _) = fs_pull_spec"
| "spec_of (AppStart _ _) = app_start_spec"
| "spec_of SystemPing = system_ping_spec"
| "spec_of (PropertyGet _) = system_property_get_spec"
| "spec_of AppLockStatus = app_lock_status_spec"
| "spec_of AppGetError = app_get_error_spec"
| "spec_of DesktopIsLocked = desktop_is_locked_spec"
| "spec_of (GpioRead _) = gpio_read_spec"
| "spec_of (CliExec _ _ _) = cli_exec_spec"
| "spec_of CoreStatus = core_status_spec"
| "spec_of (FsTree _) = fs_tree_spec"
| "spec_of LoaderList = loader_list_spec"
| "spec_of I2cScan = i2c_scan_spec"
| "spec_of (FirmwareInstall _ _) = firmware_install_spec"

end
