(* ===== verification/Registry_Properties.thy ===== *)
theory Registry_Properties
  imports Registry Confinement Bundle_Properties
begin

text \<open>
  The read-only hints of the tools are true, and the tools that the server offers are those that calls are made of.
\<close>

section \<open>Read-only tools\<close>

text \<open>A tool with the hint does not look at the operator's flags at all.\<close>

lemma read_only_ignores_flags:
  assumes "readOnlyHint (ts_hints (spec_of c)) = Some True"
  shows "run_tool P H cfg c = run_tool P H default_config c"
  using assms
  by (cases c)
    (simp_all add: fs_mkdir_spec_def fs_delete_spec_def fs_rename_spec_def fs_push_spec_def app_start_spec_def
      cli_exec_spec_def firmware_install_spec_def changing_def)

text \<open>C6: A tool that the server announces as read-only only reads, whatever the operator enabled: everything it
  writes to the link is session handling, a request that changes nothing on the device, or a command line that
  is not gated.\<close>

theorem read_only_tools_only_read:
  fixes w :: "('d, 'z) cworld_scheme"
  assumes "readOnlyHint (ts_hints (spec_of c)) = Some True"
  shows "\<exists>sent. tx_log (snd (run_tool P H cfg c w)) = tx_log w @ sent \<and>
    set sent \<subseteq> negotiation_sends P \<union> {framed (serialize P (main_request 0 False StopSession))} \<union>
      {frame_of P i nxt q | i nxt q. \<not> changes_device q} \<union>
      {encode command @ [0x0D] | command. \<not> risk_gated (classify command)}"
proof -
  have "sends_in (allowed P default_config) w (snd (run_tool P H default_config c w))"
    by (rule keepsD [OF run_tool_confined surjective_pairing])
  moreover have "allowed P default_config \<subseteq> negotiation_sends P \<union> {framed (serialize P (main_request 0 False StopSession))} \<union>
      {frame_of P i nxt q | i nxt q. \<not> changes_device q} \<union>
      {encode command @ [0x0D] | command. \<not> risk_gated (classify command)}"
    unfolding allowed_def by (auto simp: default_config_def)
  ultimately show ?thesis
    unfolding sends_in_def read_only_ignores_flags [OF assms, of P H cfg] by blast
qed

text \<open>The witness is the reading of a file's information with everything enabled.\<close>

theorem read_only_tools_only_read_witness:
  "\<exists>sent. tx_log (snd (run_tool shell sim_host (default_config\<lparr>cfg_enable_write_tools := True, cfg_enable_tx_tools := True\<rparr>)
       (FsStat ''/ext/a'') (sim_cworld WiFiTransport None []))) = sent \<and>
    set sent \<subseteq> negotiation_sends shell \<union> {framed (serialize shell (main_request 0 False StopSession))} \<union>
      {frame_of shell i nxt q | i nxt q. \<not> changes_device q} \<union>
      {encode command @ [0x0D] | command. \<not> risk_gated (classify command)}"
  using read_only_tools_only_read [of "FsStat ''/ext/a''" shell sim_host
      "default_config\<lparr>cfg_enable_write_tools := True, cfg_enable_tx_tools := True\<rparr>" "sim_cworld WiFiTransport None []"]
  by (simp add: fs_stat_spec_def READ_ONLY_def sim_cworld_def)

section \<open>What is offered\<close>

lemmas register_defs = register_all_tools_def register_connection_tools_def register_systeminfo_tools_def
  register_diagnostics_tools_def register_device_tools_def register_storage_tools_def register_cli_tools_def
  register_cli_typed_tools_def register_app_tools_def register_firmware_tools_def add_tools_def

lemma server_tools:
  "sv_tools (create_server loaded read_text config) =
     [connection_health_spec, connection_reconnect_spec, system_info_spec, system_power_info_spec,
      system_protobuf_version_spec, system_datetime_spec, system_ping_spec, system_property_get_spec, app_lock_status_spec,
      app_get_error_spec, desktop_is_locked_spec, gpio_read_spec, fs_info_spec, fs_stat_spec, fs_timestamp_spec,
      fs_list_spec, fs_mkdir_spec, fs_delete_spec, fs_rename_spec, fs_push_spec, fs_pull_spec, cli_exec_spec,
      core_status_spec, fs_tree_spec, loader_list_spec, i2c_scan_spec, app_start_spec, firmware_install_spec]"
  by (simp add: create_server_def register_prompts_def register_resources_def register_defs)

text \<open>What the server offers are the tools that calls are made of, with the hints that the properties speak of.\<close>

lemma server_offers: "set (sv_tools (create_server loaded read_text config)) = range spec_of"
proof
  have "spec_of c \<in> set (sv_tools (create_server loaded read_text config))" for c by (cases c) (simp_all add: server_tools)
  then show "range spec_of \<subseteq> set (sv_tools (create_server loaded read_text config))" by blast
  show "set (sv_tools (create_server loaded read_text config)) \<subseteq> range spec_of"
    unfolding server_tools by (simp, intro conjI; (rule range_eqI, rule spec_of.simps [symmetric]))
qed

end
