(* ===== verification/Logging.thy ===== *)
theory Logging
  imports Registry
begin

text \<open>
  The log (\<^verbatim>\<open>_logging.py\<close>) and the entry point (\<^verbatim>\<open>__main__.py\<close>).  The log goes to the standard error stream as
  one JSON object per line, because the standard output carries the protocol.
\<close>

section \<open>JSON text\<close>

text \<open>\<^verbatim>\<open>json.dumps(..., ensure_ascii=False)\<close> of a dictionary of strings.\<close>

definition json_char :: "char \<Rightarrow> string" where
  "json_char c =
     (if c = CHR 0x5C \<or> c = CHR 0x22 then [CHR 0x5C, c]
      else if c = CHR 0x08 then [CHR 0x5C, CHR ''b'']
      else if c = CHR 0x0C then [CHR 0x5C, CHR ''f'']
      else if c = CHR 0x0A then [CHR 0x5C, CHR ''n'']
      else if c = CHR 0x0D then [CHR 0x5C, CHR ''r'']
      else if c = CHR 0x09 then [CHR 0x5C, CHR ''t'']
      else if code c < 32 then CHR 0x5C # ''u00'' @ [hex_digit (code c div 16), hex_digit (code c mod 16)]
      else [c])"

definition json_string :: "string \<Rightarrow> string" where
  "json_string s = CHR 0x22 # concat (map json_char s) @ [CHR 0x22]"

definition json_member :: "string \<times> string \<Rightarrow> string" where
  "json_member kv = json_string (fst kv) @ '': '' @ json_string (snd kv)"

definition json_object :: "(string \<times> string) list \<Rightarrow> string" where
  "json_object kvs = ''{'' @ join '', '' (map json_member kvs) @ ''}''"

section \<open>The formatter\<close>

text \<open>What the \<^verbatim>\<open>logging\<close> library makes of a record: the formatted time, \<^verbatim>\<open>getMessage()\<close>, and the formatted
  traceback when \<^verbatim>\<open>exc_info\<close> is set.\<close>

record log_record =
  lr_time :: string
  lr_levelname :: string
  lr_name :: string
  lr_message :: string
  lr_exc_text :: "string option"

definition log_payload :: "log_record \<Rightarrow> (string \<times> string) list" where
  "log_payload r =
     [(''time'', lr_time r), (''level'', lr_levelname r), (''logger'', lr_name r), (''message'', lr_message r)] @
     (case lr_exc_text r of None \<Rightarrow> [] | Some t \<Rightarrow> [(''exc_info'', t)])"

definition format_record :: "log_record \<Rightarrow> string" where
  "format_record r = json_object (log_payload r)"

section \<open>The root logger\<close>

datatype log_stream = Stderr | OtherStream
datatype log_formatter = JSONFormatter | OtherFormatter

record log_handler =
  lh_stream :: log_stream
  lh_formatter :: log_formatter

record root_logger =
  lg_level :: nat
  lg_handlers :: "log_handler list"

definition DEBUG :: nat where "DEBUG = 10"
definition INFO :: nat where "INFO = 20"

definition configure_logging :: "nat \<Rightarrow> root_logger \<Rightarrow> root_logger" where
  "configure_logging level root =
     (let root = root\<lparr>lg_level := level\<rparr>;
          root = root\<lparr>lg_handlers := []\<rparr>;
          handler = \<lparr>lh_stream = Stderr, lh_formatter = JSONFormatter\<rparr>
      in root\<lparr>lg_handlers := lg_handlers root @ [handler]\<rparr>)"

text \<open>What a stream handler writes: the formatted record and a line end.\<close>

definition written :: "log_record list \<Rightarrow> string" where
  "written rs = concat (map (\<lambda>r. format_record r @ [CHR 0x0A]) rs)"

section \<open>The entry point\<close>

definition server_main ::
  "flipper_config \<Rightarrow> (string \<Rightarrow> string \<Rightarrow> exn + string) \<Rightarrow> root_logger \<Rightarrow> mcp_server \<times> root_logger" where
  "server_main loaded read_text root =
     (let root = configure_logging (if cfg_debug loaded then DEBUG else INFO) root
      in (create_server loaded read_text (Some loaded), root))"

section \<open>Reading the log back\<close>

text \<open>A reader of JSON strings, as the standard defines their escapes, and of objects of strings.\<close>

definition hex_value :: "char \<Rightarrow> nat option" where
  "hex_value c =
     (if 48 \<le> code c \<and> code c \<le> 57 then Some (code c - 48)
      else if 97 \<le> code c \<and> code c \<le> 102 then Some (code c - 87)
      else if 65 \<le> code c \<and> code c \<le> 70 then Some (code c - 55)
      else None)"

fun hex_number :: "nat \<Rightarrow> string \<Rightarrow> nat option" where
  "hex_number n [] = Some n"
| "hex_number n (c # s) = (case hex_value c of None \<Rightarrow> None | Some d \<Rightarrow> hex_number (16 * n + d) s)"

definition simple_escape :: "char \<Rightarrow> char option" where
  "simple_escape e =
     map_of [(CHR 0x22, CHR 0x22), (CHR 0x5C, CHR 0x5C), (CHR ''/'', CHR ''/''), (CHR ''b'', CHR 0x08),
             (CHR ''f'', CHR 0x0C), (CHR ''n'', CHR 0x0A), (CHR ''r'', CHR 0x0D), (CHR ''t'', CHR 0x09)] e"

definition read_escape :: "string \<Rightarrow> (char \<times> string) option" where
  "read_escape s =
     (case s of
        [] \<Rightarrow> None
      | e # t \<Rightarrow>
          (if e = CHR ''u''
           then (case hex_number 0 (take 4 t) of
                   Some n \<Rightarrow> (if 4 \<le> length t \<and> n < 256 then Some (char_of n, drop 4 t) else None)
                 | None \<Rightarrow> None)
           else map_option (\<lambda>c. (c, t)) (simple_escape e)))"

lemma read_escape_shorter: "read_escape s = Some (c, t) \<Longrightarrow> length t < length s"
  by (auto simp: read_escape_def split: list.splits if_splits option.splits)

text \<open>The characters up to the closing quote, and the rest.\<close>

function read_chars :: "string \<Rightarrow> (string \<times> string) option" where
  "read_chars s =
     (case s of
        [] \<Rightarrow> None
      | c # t \<Rightarrow>
          (if c = CHR 0x22 then Some ([], t)
           else if code c < 32 then None
           else if c = CHR 0x5C
           then (case read_escape t of
                   None \<Rightarrow> None
                 | Some (d, u) \<Rightarrow> map_option (\<lambda>(x, r). (d # x, r)) (read_chars u))
           else map_option (\<lambda>(x, r). (c # x, r)) (read_chars t)))"
  by pat_completeness auto
termination
  by (relation "measure length") (auto dest: read_escape_shorter)

declare read_chars.simps [simp del]

definition read_string :: "string \<Rightarrow> (string \<times> string) option" where
  "read_string s = (if startswith s [CHR 0x22] then read_chars (tl s) else None)"

fun read_members :: "nat \<Rightarrow> string \<Rightarrow> (string \<times> string) list option" where
  "read_members 0 s = None"
| "read_members (Suc n) s =
     (case read_string s of
        None \<Rightarrow> None
      | Some (k, t) \<Rightarrow>
          (case (if startswith t '': '' then read_string (drop 2 t) else None) of
             None \<Rightarrow> None
           | Some (v, u) \<Rightarrow>
               (if u = ''}'' then Some [(k, v)]
                else if startswith u '', '' then map_option (Cons (k, v)) (read_members n (drop 2 u))
                else None)))"

definition read_object :: "string \<Rightarrow> (string \<times> string) list option" where
  "read_object s = (if startswith s ''{'' then read_members (length s) (tl s) else None)"

lemma read_control: "c < 32 \<Longrightarrow> hex_number 0 [CHR ''0'', CHR ''0'', hex_digit (c div 16), hex_digit (c mod 16)] = Some c"
proof -
  have "list_all (\<lambda>c. hex_number 0 [CHR ''0'', CHR ''0'', hex_digit (c div 16), hex_digit (c mod 16)] = Some c) [0..<32]"
    by code_simp
  then show "c < 32 \<Longrightarrow> ?thesis" by (simp add: list_all_iff)
qed

lemma read_json_char: "read_chars (json_char c @ s) = map_option (\<lambda>(x, r). (c # x, r)) (read_chars s)"
proof (cases "code c < 32 \<or> c = CHR 0x5C \<or> c = CHR 0x22")
  case True
  have "char_of (code c) = c" by (simp add: code_def)
  then have "read_escape (tl (json_char c) @ s) = Some (c, s)"
    using True read_control [of "code c"]
    by (auto simp: json_char_def read_escape_def simple_escape_def)
  then have "read_chars (CHR 0x5C # tl (json_char c) @ s) = map_option (\<lambda>(x, r). (c # x, r)) (read_chars s)"
    by (simp add: read_chars.simps [of "CHR 0x5C # t" for t] code_def)
  moreover have "json_char c = CHR 0x5C # tl (json_char c)"
    using True by (auto simp: json_char_def)
  ultimately show ?thesis by (metis append_Cons)
next
  case False
  then have "json_char c = [c]" by (auto simp: json_char_def code_def)
  with False show ?thesis by (simp add: read_chars.simps [of "c # s"])
qed

lemma read_json_string: "read_string (json_string s @ rest) = Some (s, rest)"
proof -
  have "read_chars (concat (map json_char s) @ CHR 0x22 # rest) = Some (s, rest)"
  proof (induction s)
    case Nil
    show ?case by (simp add: read_chars.simps [of "CHR 0x22 # rest"])
  next
    case (Cons c s)
    then show ?case by (simp add: read_json_char)
  qed
  then show ?thesis by (simp add: read_string_def json_string_def startswith_def)
qed

lemma read_json_members:
  "kvs \<noteq> [] \<Longrightarrow> length kvs \<le> n \<Longrightarrow> read_members n (join '', '' (map json_member kvs) @ ''}'') = Some kvs"
proof (induction kvs arbitrary: n rule: induct_list012)
  case (2 kv)
  then obtain m where "n = Suc m" by (cases n) auto
  then show ?case by (simp add: json_member_def read_json_string startswith_def)
next
  case (3 kv kv' kvs)
  then obtain m where m: "n = Suc m" by (cases n) auto
  with 3 have "read_members m (join '', '' (map json_member (kv' # kvs)) @ ''}'') = Some (kv' # kvs)" by simp
  with m show ?case by (simp add: json_member_def [of kv] read_json_string startswith_def)
qed simp

lemma json_member_length: "5 \<le> length (json_member kv)"
  by (simp add: json_member_def json_string_def)

lemma read_json_object: "kvs \<noteq> [] \<Longrightarrow> read_object (json_object kvs) = Some kvs"
proof -
  assume ne: "kvs \<noteq> []"
  have "length kvs \<le> length (join '', '' (map json_member kvs))"
  proof (induction kvs rule: induct_list012)
    case (2 kv)
    then show ?case using json_member_length [of kv] by simp
  next
    case (3 kv kv' kvs)
    then show ?case using json_member_length [of kv] by simp
  qed simp
  with ne show ?thesis by (simp add: read_object_def json_object_def startswith_def read_json_members del: read_members.simps)
qed

lemma json_object_one_line: "CHR 0x0A \<notin> set (json_object kvs)"
proof -
  have "list_all (\<lambda>n. hex_digit n \<noteq> CHR 0x0A) [0..<16]" by code_simp
  then have "n < 16 \<Longrightarrow> hex_digit n \<noteq> CHR 0x0A" for n by (simp add: list_all_iff)
  from this [THEN not_sym] have c: "CHR 0x0A \<notin> set (json_char c)" for c
    by (auto simp: json_char_def)
  have "CHR 0x0A \<notin> set (json_string s)" for s
    using c by (auto simp: json_string_def)
  then have m: "CHR 0x0A \<notin> set (json_member kv)" for kv
    by (simp add: json_member_def)
  have "CHR 0x0A \<notin> set (join '', '' (map json_member kvs))"
    by (induction kvs rule: induct_list012) (simp_all add: m)
  then show ?thesis by (simp add: json_object_def)
qed

text \<open>C28: The log is off the standard output and can be read back.  Whatever handlers the root logger had and however
  often logging is configured, afterwards it has one handler, which writes JSON to the standard error stream; and of any
  sequence of records, with any text in their messages and tracebacks, each is one line, from which exactly
  its time, level, logger and message are read, and its traceback if it has one, each under its key and in this order.\<close>

theorem log_reads_back:
  "lg_handlers (configure_logging level root) = [\<lparr>lh_stream = Stderr, lh_formatter = JSONFormatter\<rparr>] \<and>
   configure_logging level (configure_logging level' root) = configure_logging level root \<and>
   map read_object (butlast (split_on (CHR 0x0A) (written rs))) =
     map (\<lambda>r. Some ([(''time'', lr_time r), (''level'', lr_levelname r), (''logger'', lr_name r), (''message'', lr_message r)] @
       (case lr_exc_text r of None \<Rightarrow> [] | Some t \<Rightarrow> [(''exc_info'', t)]))) rs"
proof (intro conjI)
  have "split_on (CHR 0x0A) (written rs) = map format_record rs @ [[]]"
    by (induction rs)
      (simp_all add: written_def split_on_append split_on_plain format_record_def json_object_one_line)
  moreover have "read_object (format_record r) = Some (log_payload r)" for r
    by (simp add: format_record_def read_json_object log_payload_def)
  ultimately show "map read_object (butlast (split_on (CHR 0x0A) (written rs))) =
     map (\<lambda>r. Some ([(''time'', lr_time r), (''level'', lr_levelname r), (''logger'', lr_name r), (''message'', lr_message r)] @
       (case lr_exc_text r of None \<Rightarrow> [] | Some t \<Rightarrow> [(''exc_info'', t)]))) rs"
    by (simp add: log_payload_def)
qed (simp_all add: configure_logging_def Let_def)

end
