(* ===== verification/Bridge_Check.thy ===== *)
theory Bridge_Check
  imports Server_Invariant
begin

text \<open>
  The script that checks the WiFi bridge (\<^verbatim>\<open>firmware/tcp_uart_bridge/check_wifi_bridge.py\<close>), over the WiFi transport
  and the RPC layer of the server.  What it prints is kept line by line, as UTF-8.
\<close>

section \<open>The script\<close>

record 'd bworld = "'d rworld" +
  b_printed :: "string list"

definition print :: "string \<Rightarrow> (('d, 'z) bworld_scheme, unit) action" where
  "print line = modify (\<lambda>w. w\<lparr>b_printed := b_printed w @ [line]\<rparr>)"

text \<open>\<^verbatim>\<open>int(text)\<close> of a text without surrounding white space: a sign, digits, and single underscores between digits; more
  than 4300 digits are refused.\<close>

definition int_digits :: "string \<Rightarrow> bool" where
  "int_digits s \<longleftrightarrow>
     s \<noteq> [] \<and> list_all (\<lambda>c. decimal_char c \<or> c = CHR ''_'') s \<and> hd s \<noteq> CHR ''_'' \<and> last s \<noteq> CHR ''_'' \<and>
     \<not> str_in ''__'' s \<and> length (filter decimal_char s) \<le> 4300"

definition py_int :: "string \<Rightarrow> int option" where
  "py_int s =
     (let sign = startswith s ''+'' \<or> startswith s ''-''; digits = (if sign then tl s else s);
          n = int (dec_value 0 (filter decimal_char digits))
      in if int_digits digits then Some (if startswith s ''-'' then - n else n) else None)"

definition CROSS :: string where "CROSS = [CHR 0xE2, CHR 0x9D, CHR 0x8C, CHR '' '']"
definition TICK :: string where "TICK = [CHR 0xE2, CHR 0x9C, CHR 0x85, CHR '' '']"

definition bridge_host :: "'d platform \<Rightarrow> string" where
  "bridge_host P = strip (or_empty (environ P ''FLIPPER_WIFI_HOST''))"

definition bridge_port :: "'d platform \<Rightarrow> string" where
  "bridge_port P =
     strip (case environ P ''FLIPPER_WIFI_PORT'' of None \<Rightarrow> ''8080'' | Some v \<Rightarrow> (if v \<noteq> [] then v else ''8080''))"

definition bridge_transport :: "string \<Rightarrow> int \<Rightarrow> (('d, 'z) bworld_scheme, unit) action" where
  "bridge_transport host port =
     modify (\<lambda>w. w\<lparr>t_class := WiFiTransport,
       t_wifi := wifi_new \<lparr>wc_host = Some host, wc_port = Some port, wc_connect_timeout = Some (seconds 3),
                           wc_read_chunk_size = Some 4096\<rparr>,
       rx_buffer := []\<rparr>)"

text \<open>\<^verbatim>\<open>ProtobufRPC(transport)\<close> with a lock of its own.\<close>

definition bridge_rpc :: "(('d, 'z) bworld_scheme, unit) action" where
  "bridge_rpc = modify (\<lambda>w. w\<lparr>io_locked := False, r_command_id := 0, r_session_started := False, r_last_failure := None\<rparr>)"

definition bridge_ping :: "'d platform \<Rightarrow> (('d, 'z) bworld_scheme, nat) action" where
  "bridge_ping P =
     thenM bridge_rpc
     (bindM (ping P (encode ''mcp'')) (\<lambda>echoed.
      let rpc_ok = (echoed = Some (encode ''mcp''))
      in thenM (print (TICK @ ''tcp_connected=True''))
         (thenM (print (''rpc_responsive='' @ (if rpc_ok then ''True'' else ''False'')))
         (if \<not> rpc_ok
          then thenM (print ''   (Ping did not echo expected bytes; check UART/firmware/Flipper state.)'') (ret 1)
          else ret 0))))"

definition bridge_main :: "'d platform \<Rightarrow> (('d, 'z) bworld_scheme, nat) action" where
  "bridge_main P =
     (let host = bridge_host P; port_str = bridge_port P
      in if host = []
         then thenM (print (CROSS @ ''FLIPPER_WIFI_HOST is not set.''))
              (thenM (print ''   Example: export FLIPPER_WIFI_HOST=192.168.1.100'') (ret 2))
         else case py_int port_str of
           None \<Rightarrow> thenM (print (CROSS @ ''FLIPPER_WIFI_PORT must be an integer, got: '' @ py_repr port_str)) (ret 2)
         | Some port \<Rightarrow>
             thenM (bridge_transport host port)
             (thenM (print (''Connecting to bridge: '' @ host @ '':'' @ int_str port @ '' ...''))
             (bindM (transport_connect P) (\<lambda>ok.
              if \<not> ok
              then thenM (print (CROSS @ ''tcp_connected=False'')) (thenM (print ''rpc_responsive=False'') (ret 1))
              else try_finally (bridge_ping P)
                     (try_except is_exception (transport_disconnect P) (\<lambda>_. ret ()))))))"

section \<open>The exit code\<close>

lemma wifi_disconnect_closes:
  assumes "t_class v = WiFiTransport" and "try_except is_exception (transport_disconnect P) (\<lambda>_. ret ()) v = (Inr x, w')"
  shows "\<not> w_writer (t_wifi w')"
proof -
  obtain r1 v1 where close: "(if w_writer (t_wifi v) then await_io (tcp_close P) else ret ()) v = (r1, v1)" by fastforce
  have "\<exists>r. wifi_disconnect P v = (r, v1\<lparr>t_wifi := (t_wifi v1)\<lparr>w_reader := False, w_writer := False\<rparr>\<rparr>) \<or>
            wifi_disconnect P v = (r, v1\<lparr>t_wifi := (t_wifi v1)\<lparr>w_reader := False, w_writer := False, w_connected := False\<rparr>\<rparr>)"
    using close by (cases r1) (auto simp: wifi_disconnect_def set_wifi_def action_defs split: if_splits)
  with assms show ?thesis
    by (auto simp: transport_disconnect_def try_except_def ret_def split: sum.splits if_splits prod.splits)
qed

lemma bworld_more: "rworld.more w' = rworld.more w \<Longrightarrow> b_printed w' = b_printed w"
  by (cases w; cases w') simp

text \<open>The ping of the check, made by a new RPC object after the connection that left the state \<open>w\<close>, is echoed; \<open>v\<close> is the
  state when the last two lines are printed.\<close>

definition bridge_echoed :: "'d platform \<Rightarrow> ('d, 'z) bworld_scheme \<Rightarrow> ('d, 'z) bworld_scheme \<Rightarrow> bool" where
  "bridge_echoed P w v \<longleftrightarrow>
     (\<exists>m u. answered P (PingRequest (encode ''mcp'')) RESPONSE_TIMEOUT
          (w\<lparr>io_locked := True, r_command_id := 0, r_session_started := False, r_last_failure := None\<rparr>) m u \<and>
        command_status m = STATUS_OK \<and> field is_PingResponse ping_data m = Some (encode ''mcp'') \<and>
        v = u\<lparr>io_locked := False, b_printed := b_printed u @ [TICK @ ''tcp_connected=True'', ''rpc_responsive=True'']\<rparr>)"

lemma bridge_ping_answer:
  "ping P data (w\<lparr>io_locked := False, r_command_id := 0, r_session_started := False, r_last_failure := None\<rparr>) = (Inr (Some x), t) \<longleftrightarrow>
     (\<exists>m u. answered P (PingRequest data) RESPONSE_TIMEOUT
          (w\<lparr>io_locked := True, r_command_id := 0, r_session_started := False, r_last_failure := None\<rparr>) m u \<and>
        command_status m = STATUS_OK \<and> field is_PingResponse ping_data m = Some x \<and> t = u\<lparr>io_locked := False\<rparr>)"
proof -
  let ?w = "w\<lparr>io_locked := False, r_command_id := 0, r_session_started := False, r_last_failure := None\<rparr>"
  have "?w\<lparr>io_locked := True\<rparr> =
      w\<lparr>io_locked := True, r_command_id := 0, r_session_started := False, r_last_failure := None\<rparr>" by (cases w) simp
  moreover have "\<not> io_locked ?w" by simp
  ultimately show ?thesis unfolding ping_answer by (simp only: simp_thms)
qed

lemma bridge_ping_result:
  fixes w :: "('d, 'z) bworld_scheme"
  assumes "bridge_ping P w = (Inr ec, v)"
  shows "ec \<in> {0, 1} \<and> t_class v = t_class w" and "bridge_echoed P w u \<longleftrightarrow> ec = 0 \<and> u = v"
proof -
  let ?w = "w\<lparr>io_locked := False, r_command_id := 0, r_session_started := False, r_last_failure := None\<rparr>"
  obtain echoed t where ping: "ping P (encode ''mcp'') ?w = (Inr echoed, t)"
    using assms unfolding bridge_ping_def thenM_def bridge_rpc_def by (auto simp: modify_def elim!: bindM_InrE)
  have t: "t_class t = t_class w"
    using keepsD [OF ping_r ping] by (simp add: r_frame_def)
  have run: "if echoed = Some (encode ''mcp'')
     then ec = 0 \<and> v = t\<lparr>b_printed := b_printed t @ [TICK @ ''tcp_connected=True'', ''rpc_responsive=True'']\<rparr>
     else ec = 1 \<and> t_class v = t_class t"
    using assms ping by (auto simp: bridge_ping_def bridge_rpc_def print_def action_defs Let_def)
  with t show "ec \<in> {0, 1} \<and> t_class v = t_class w" by (auto split: if_splits)
  have "bridge_echoed P w u \<longleftrightarrow> (\<exists>s. ping P (encode ''mcp'') ?w = (Inr (Some (encode ''mcp'')), s) \<and>
      u = s\<lparr>b_printed := b_printed s @ [TICK @ ''tcp_connected=True'', ''rpc_responsive=True'']\<rparr>)"
    unfolding bridge_echoed_def bridge_ping_answer by fastforce
  with ping run show "bridge_echoed P w u \<longleftrightarrow> ec = 0 \<and> u = v" by (auto split: if_splits)
qed

text \<open>After a connection, the ping decides, and the connection is closed whatever it says.\<close>

lemma bridge_connected_result:
  fixes w :: "('d, 'z) bworld_scheme"
  assumes "try_finally (bridge_ping P) (try_except is_exception (transport_disconnect P) (\<lambda>_. ret ())) w = (Inr ec, w')"
    and "t_class w = WiFiTransport"
  shows "ec \<in> {0, 1} \<and>
    (ec = 0 \<longleftrightarrow> (\<exists>v. bridge_echoed P w v \<and>
       try_except is_exception (transport_disconnect P) (\<lambda>_. ret ()) v = (Inr (), w'))) \<and>
    (ec = 0 \<longrightarrow> last (b_printed w') = ''rpc_responsive=True'' \<and> \<not> w_writer (t_wifi w'))"
proof -
  from assms(1) obtain v where ping: "bridge_ping P w = (Inr ec, v)"
    and close: "try_except is_exception (transport_disconnect P) (\<lambda>_. ret ()) v = (Inr (), w')"
    by (auto simp: try_finally_def split: prod.splits sum.splits)
  note result = bridge_ping_result [OF ping]
  have "\<not> w_writer (t_wifi w')"
    using wifi_disconnect_closes [OF _ close] result assms(2) by simp
  moreover have "keeps t_frame (try_except is_exception (transport_disconnect P) (\<lambda>_. ret ()))"
    by (intro tf.keeps_rules transport_disconnect_t)
  from keepsD [OF keeps_t_r [OF this] close] have "rworld.more w' = rworld.more v" by (simp add: r_frame_def)
  then have "b_printed w' = b_printed v" by (rule bworld_more)
  moreover have "last (b_printed v) = ''rpc_responsive=True''" if "ec = 0"
    using result(2) [of v] that by (auto simp: bridge_echoed_def)
  ultimately show ?thesis using result close by auto
qed

lemma modify_then: "thenM (modify f) k w = k (f w)"
  by (simp add: thenM_def bindM_def modify_def)

lemma bridge_begin: "thenM (bridge_transport h p) (thenM (print l) m) w = m (snd (thenM (bridge_transport h p) (print l) w))"
  by (simp only: bridge_transport_def print_def modify_then) (simp add: modify_def)

lemma bridge_begin_wifi: "t_class (snd (thenM (bridge_transport h p) (print l) w)) = WiFiTransport"
  by (simp add: bridge_transport_def print_def modify_then) (simp add: modify_def)

text \<open>C30: The exit code of the bridge check is what it says: 2 exactly when the host is missing or the port is
  no number, and then the bridge is left alone; 0 exactly when the connection to that host and port succeeded and the device
  answered the one ping then sent by a new RPC object, with status OK and the same bytes; 1 otherwise.  With 0 the last
  line printed says so, and what followed the echo was the disconnection, which leaves the connection closed.\<close>

theorem bridge_check_exit:
  fixes w :: "('d, 'z) bworld_scheme"
  assumes "bridge_main P w = (Inr ec, w')"
  shows "ec \<in> {0, 1, 2} \<and> (ec = 2 \<longleftrightarrow> bridge_host P = [] \<or> py_int (bridge_port P) = None) \<and>
    (ec = 2 \<longrightarrow> dev w' = dev w \<and> tx_log w' = tx_log w) \<and>
    (ec = 0 \<longleftrightarrow> bridge_host P \<noteq> [] \<and> (\<exists>port w1 m u. py_int (bridge_port P) = Some port \<and>
       thenM (bridge_transport (bridge_host P) port)
         (thenM (print (''Connecting to bridge: '' @ bridge_host P @ '':'' @ int_str port @ '' ...''))
           (transport_connect P)) w = (Inr True, w1) \<and>
       answered P (PingRequest (encode ''mcp'')) RESPONSE_TIMEOUT
         (w1\<lparr>io_locked := True, r_command_id := 0, r_session_started := False, r_last_failure := None\<rparr>) m u \<and>
       command_status m = STATUS_OK \<and> field is_PingResponse ping_data m = Some (encode ''mcp'') \<and>
       try_except is_exception (transport_disconnect P) (\<lambda>_. ret ())
         (u\<lparr>io_locked := False, b_printed := b_printed u @ [TICK @ ''tcp_connected=True'', ''rpc_responsive=True'']\<rparr>) = (Inr (), w'))) \<and>
    (ec = 0 \<longrightarrow> last (b_printed w') = ''rpc_responsive=True'' \<and> \<not> w_writer (t_wifi w'))"
proof (cases "bridge_host P = [] \<or> py_int (bridge_port P) = None")
  case True
  with assms show ?thesis by (auto simp: bridge_main_def Let_def print_def action_defs split: if_splits option.splits)
next
  case named: False
  then obtain port where port: "py_int (bridge_port P) = Some port" by blast
  let ?tail = "\<lambda>ok. if \<not> ok
              then thenM (print (CROSS @ ''tcp_connected=False'')) (thenM (print ''rpc_responsive=False'') (ret 1))
              else try_finally (bridge_ping P) (try_except is_exception (transport_disconnect P) (\<lambda>_. ret ()))"
  let ?connect = "thenM (bridge_transport (bridge_host P) port)
      (thenM (print (''Connecting to bridge: '' @ bridge_host P @ '':'' @ int_str port @ '' ...'')) (transport_connect P))"
  have "bridge_main P w = bindM ?connect ?tail w"
    using named port by (simp add: bridge_main_def Let_def thenM_def bindM_assoc)
  with assms have "bindM ?connect ?tail w = (Inr ec, w')" by (simp only:)
  then obtain ok w1 where connect: "?connect w = (Inr ok, w1)" and rest: "?tail ok w1 = (Inr ec, w')"
    by (rule bindM_InrE)
  let ?v = "snd (thenM (bridge_transport (bridge_host P) port)
      (print (''Connecting to bridge: '' @ bridge_host P @ '':'' @ int_str port @ '' ...'')) w)"
  have "?connect w = transport_connect P ?v" by (rule bridge_begin)
  with connect have "transport_connect P ?v = (Inr ok, w1)" by (simp only:)
  then have "t_frame ?v w1" by (rule keepsD [OF transport_connect_t])
  moreover have "t_class ?v = WiFiTransport" by (rule bridge_begin_wifi)
  ultimately have c1: "t_class w1 = WiFiTransport" by (simp add: t_frame_def)
  show ?thesis
  proof (cases ok)
    case False
    with rest named connect port show ?thesis by (auto simp: print_def action_defs)
  next
    case True
    with rest have "try_finally (bridge_ping P) (try_except is_exception (transport_disconnect P) (\<lambda>_. ret ())) w1 = (Inr ec, w')"
      by simp
    note result = bridge_connected_result [OF this c1]
    define finished where "finished x \<longleftrightarrow> (\<exists>v. bridge_echoed P x v \<and>
       try_except is_exception (transport_disconnect P) (\<lambda>_. ret ()) v = (Inr (), w'))" for x
    have spelled: "finished x \<longleftrightarrow> (\<exists>m u. answered P (PingRequest (encode ''mcp'')) RESPONSE_TIMEOUT
         (x\<lparr>io_locked := True, r_command_id := 0, r_session_started := False, r_last_failure := None\<rparr>) m u \<and>
       command_status m = STATUS_OK \<and> field is_PingResponse ping_data m = Some (encode ''mcp'') \<and>
       try_except is_exception (transport_disconnect P) (\<lambda>_. ret ())
         (u\<lparr>io_locked := False, b_printed := b_printed u @ [TICK @ ''tcp_connected=True'', ''rpc_responsive=True'']\<rparr>) = (Inr (), w'))"
      for x unfolding finished_def bridge_echoed_def by blast
    have "(\<exists>p x. py_int (bridge_port P) = Some p \<and> thenM (bridge_transport (bridge_host P) p)
         (thenM (print (''Connecting to bridge: '' @ bridge_host P @ '':'' @ int_str p @ '' ...''))
           (transport_connect P)) w = (Inr True, x) \<and> finished x) \<longleftrightarrow> finished w1"
      using port connect True by simp
    with result have "ec = 0 \<longleftrightarrow> (\<exists>p x. py_int (bridge_port P) = Some p \<and> thenM (bridge_transport (bridge_host P) p)
         (thenM (print (''Connecting to bridge: '' @ bridge_host P @ '':'' @ int_str p @ '' ...''))
           (transport_connect P)) w = (Inr True, x) \<and> finished x)" unfolding finished_def by blast
    with result named show ?thesis unfolding spelled by (simp only: ex_simps) auto
  qed
qed

text \<open>The witness is a bridge whose device echoes the ping.\<close>

definition echoing_bridge :: "bytes list platform" where
  "echoing_bridge = (sim_platform (\<lambda>_. [7])
     (\<lambda>_. Some \<lparr>command_id = 1, command_status = STATUS_OK, has_next = False,
                content = Response (PingResponse (encode ''mcp''))\<rparr>)
     (\<lambda>_. [[1, 7]]))
     \<lparr>environ := (\<lambda>v. if v = ''FLIPPER_WIFI_HOST'' then Some '' 10.0.0.2 '' else None)\<rparr>"

definition sim_bworld :: "bytes list bworld" where
  "sim_bworld = rworld.extend (sim_rworld USBTransport None []) \<lparr>b_printed = []\<rparr>"

theorem bridge_check_exit_witness:
  "\<exists>w'. bridge_main echoing_bridge sim_bworld = (Inr 0, w') \<and> last (b_printed w') = ''rpc_responsive=True'' \<and>
     \<not> w_writer (t_wifi w')"
proof -
  have "fst (bridge_main echoing_bridge sim_bworld) = Inr 0" by code_simp
  then obtain w' where run: "bridge_main echoing_bridge sim_bworld = (Inr 0, w')" by (metis prod.collapse)
  from bridge_check_exit [OF this] run show ?thesis by auto
qed

end
