(* ===== verification/Short_Calls.thy ===== *)
theory Short_Calls
  imports Rpc_Properties
begin

text \<open>
  The calls with a budget of three seconds on a line that stays silent.  A failing negotiation takes longer than their
  budget: what each step of it lasts at least is added up by a small calculus (\<open>outlasts\<close>).
\<close>

section \<open>A silent line\<close>

text \<open>A port that is open and delivers nothing: every read ends without data, after its timeout.\<close>

definition deaf :: "'d platform \<Rightarrow> bool" where
  "deaf P \<longleftrightarrow> (\<forall>d. serial_is_open P d) \<and>
     (\<forall>n t lim c d. \<exists>dt d'. serial_read P n t lim c d = (Inr [], dt, d') \<and> t \<le> dt)"

definition on_line :: "('d, 'z) tworld_scheme \<Rightarrow> bool" where
  "on_line w \<longleftrightarrow> t_class w = USBTransport \<and> u_serial (t_usb w)"

text \<open>The line is kept, and time does not go back.\<close>

definition same_line :: "('d, 'z) tworld_scheme \<Rightarrow> ('d, 'z) tworld_scheme \<Rightarrow> bool" where
  "same_line w w' \<longleftrightarrow> t_class w' = t_class w \<and> t_usb w' = t_usb w \<and> rx_buffer w' = rx_buffer w \<and>
     cancel_at w' = cancel_at w \<and> now w \<le> now w'"

interpretation sl: frame_rel same_line
  by unfold_locales (auto simp: same_line_def)

lemma link_same_line: "link_frame w w' \<Longrightarrow> same_line w w'"
  by (simp add: same_line_def link_frame_fields) (simp add: link_frame_def io_frame_def)

lemma link_keeps_line: "keeps link_frame m \<Longrightarrow> keeps same_line m"
  by (erule keeps_mono) (rule link_same_line)

text \<open>On a silent line with an empty buffer the action ends in a value of \<open>Q\<close> and only after \<open>n\<close> nanoseconds, or in
  something that is no ordinary exception.\<close>

definition outlasts :: "nat \<Rightarrow> ('a \<Rightarrow> bool) \<Rightarrow> (('d, 'z) tworld_scheme, 'a) action \<Rightarrow> bool" where
  "outlasts n Q m \<longleftrightarrow> (\<forall>w r w'. on_line w \<longrightarrow> rx_buffer w = [] \<longrightarrow> m w = (r, w') \<longrightarrow>
     same_line w w' \<and> (case r of Inl e \<Rightarrow> \<not> is_exception e | Inr x \<Rightarrow> Q x \<and> now w + n \<le> now w'))"

lemma outlasts_line:
  assumes "outlasts n Q m" and "on_line w" and "rx_buffer w = []" and "m w = (r, w')"
  shows "same_line w w'" and "on_line w'" and "rx_buffer w' = []"
proof -
  show "same_line w w'" using assms unfolding outlasts_def by blast
  then show "on_line w'" and "rx_buffer w' = []" using assms(2,3) by (simp_all add: same_line_def on_line_def)
qed

lemma outlasts_Inl: "outlasts n Q m \<Longrightarrow> on_line w \<Longrightarrow> rx_buffer w = [] \<Longrightarrow> m w = (Inl e, w') \<Longrightarrow> \<not> is_exception e"
  unfolding outlasts_def by fastforce

lemma outlasts_Inr: "outlasts n Q m \<Longrightarrow> on_line w \<Longrightarrow> rx_buffer w = [] \<Longrightarrow> m w = (Inr x, w') \<Longrightarrow> Q x \<and> now w + n \<le> now w'"
  unfolding outlasts_def by fastforce

lemma outlastsI:
  assumes "\<And>w r w'. on_line w \<Longrightarrow> rx_buffer w = [] \<Longrightarrow> m w = (r, w') \<Longrightarrow>
     same_line w w' \<and> (case r of Inl e \<Rightarrow> \<not> is_exception e | Inr x \<Rightarrow> Q x \<and> now w + n \<le> now w')"
  shows "outlasts n Q m"
  using assms unfolding outlasts_def by blast

lemma outlasts_bindM:
  assumes m: "outlasts n Q m" and k: "\<And>x. Q x \<Longrightarrow> outlasts n' Q' (k x)"
  shows "outlasts (n + n') Q' (bindM m k)"
proof (rule outlastsI)
  fix w r w' assume w: "on_line w" "rx_buffer w = []" and run: "bindM m k w = (r, w')"
  obtain r1 w1 where w1: "m w = (r1, w1)" by fastforce
  note l = outlasts_line [OF m w w1]
  show "same_line w w' \<and> (case r of Inl e \<Rightarrow> \<not> is_exception e | Inr x \<Rightarrow> Q' x \<and> now w + (n + n') \<le> now w')"
  proof (cases r1)
    case (Inl e)
    with run w1 have "r = Inl e" "w' = w1" by (simp_all add: bindM_def)
    with l outlasts_Inl [OF m w] w1 Inl show ?thesis by simp
  next
    case (Inr x)
    with run w1 have run2: "k x w1 = (r, w')" by (simp add: bindM_def)
    from w1 Inr have x: "Q x" "now w + n \<le> now w1" using outlasts_Inr [OF m w] by blast+
    note k' = k [OF x(1)]
    have "same_line w w'" using l(1) outlasts_line(1) [OF k' l(2,3) run2] by (rule sl.trans)
    moreover have "\<not> is_exception e" if "r = Inl e" for e using outlasts_Inl [OF k' l(2,3)] run2 that by blast
    moreover have "Q' y \<and> now w + (n + n') \<le> now w'" if "r = Inr y" for y
      using outlasts_Inr [OF k' l(2,3)] run2 that x(2) by fastforce
    ultimately show ?thesis by (cases r) auto
  qed
qed

lemma outlasts_thenM: "outlasts n Q m \<Longrightarrow> outlasts n' Q' k \<Longrightarrow> outlasts (n + n') Q' (thenM m k)"
  unfolding thenM_def by (rule outlasts_bindM)

lemma outlasts_mono:
  assumes "outlasts n Q m" and "n' \<le> n" and "\<And>x. Q x \<Longrightarrow> Q' x"
  shows "outlasts n' Q' m"
proof (rule outlastsI)
  fix w r w' assume w: "on_line w" "rx_buffer w = []" and run: "m w = (r, w')"
  show "same_line w w' \<and> (case r of Inl e \<Rightarrow> \<not> is_exception e | Inr x \<Rightarrow> Q' x \<and> now w + n' \<le> now w')"
    using outlasts_line(1) [OF assms(1) w run] outlasts_Inl [OF assms(1) w] outlasts_Inr [OF assms(1) w] run assms(2,3)
    by (cases r) fastforce+
qed

lemma outlasts_ret: "Q x \<Longrightarrow> outlasts 0 Q (ret x)"
  by (rule outlastsI) (auto simp: ret_def sl.refl)

text \<open>What it takes is not more than the enclosing deadline allows.\<close>

lemma await_deadline: "await_io f w = (Inr x, w') \<Longrightarrow> cancel_at w = Some c \<Longrightarrow> now w' \<le> c"
  by (auto simp: await_io_def split: prod.splits if_splits)

lemma sleep_outlasts: "outlasts t (\<lambda>_. True) (sleep t)"
proof (rule outlastsI)
  fix w :: "('d, 'z) tworld_scheme" and r w' assume "sleep t w = (r, w')"
  with link_same_line [OF keepsD [OF sleep_link this]]
  show "same_line w w' \<and> (case r of Inl e \<Rightarrow> \<not> is_exception e | Inr x \<Rightarrow> True \<and> now w + t \<le> now w')"
    by (auto simp: sleep_def await_io_def split: option.splits if_splits)
qed

lemma monotonic_outlasts: "outlasts 0 (\<lambda>_. True) monotonic"
  by (rule outlastsI) (auto simp: monotonic_def same_line_def)

lemma clear_outlasts: "outlasts 0 (\<lambda>_. True) clear_receive_buffer"
  by (rule outlastsI) (auto simp: clear_receive_buffer_def modify_def same_line_def)

lemma receive_silent:
  assumes "deaf P" and "on_line w" and "transport_receive P (Some t) w = (r, w')"
  shows "same_line w w'" and "r = Inr [] \<or> r = Inl Cancelled" and "r = Inr x \<Longrightarrow> now w + t \<le> now w'"
proof -
  from assms(1) have open': "serial_is_open P (dev w)" by (simp add: deaf_def)
  let ?f = "serial_read P 4096 t"
  have run: "await_io ?f w = (r, w')"
    using assms(2,3) open' by (simp add: transport_receive_def usb_receive_def usb_is_open_def on_line_def action_defs)
  obtain dt d' where f: "?f (map_option (\<lambda>c. c - now w) (cancel_at w)) (now w) (dev w) = (Inr [], dt, d')" and "t \<le> dt"
    using assms(1) unfolding deaf_def by blast
  with run show "r = Inr [] \<or> r = Inl Cancelled" and "r = Inr x \<Longrightarrow> now w + t \<le> now w'"
    by (auto simp: await_io_def split: option.splits if_splits)
  show "same_line w w'" using link_same_line [OF keepsD [OF await_io_link run]] .
qed

section \<open>Reading in vain\<close>

lemma same_line_tick: "same_line w (w\<lparr>now := Suc (now w)\<rparr>)"
  by (simp add: same_line_def)

lemma on_line_simps [simp]: "on_line (w\<lparr>now := t\<rparr>) = on_line w" "on_line (w\<lparr>rx_buffer := b\<rparr>) = on_line w"
  by (simp_all add: on_line_def)

lemma same_line_on: "same_line w w' \<Longrightarrow> on_line w \<Longrightarrow> on_line w'"
  by (simp add: same_line_def on_line_def)

lemma sleep_Inl: "sleep t w = (Inl e, w') \<Longrightarrow> e = Cancelled"
  by (auto simp: sleep_def await_io_def split: option.splits if_splits)

lemma sleep_same_line: "sleep t w = (r, w') \<Longrightarrow> same_line w w'"
  by (rule link_same_line, rule keepsD [OF sleep_link])

lemma drain_silent:
  "drain_host_loop P end_at w = (r, w') \<Longrightarrow> deaf P \<Longrightarrow> on_line w \<Longrightarrow>
     same_line w w' \<and> (case r of Inl e \<Rightarrow> e = Cancelled | Inr x \<Rightarrow> end_at \<le> now w')"
proof (induction P end_at w arbitrary: r w' rule: drain_host_loop.induct)
  case (1 P end_at w)
  show ?case
  proof (cases "now w < end_at")
    case False
    with "1.prems"(1) show ?thesis by (auto simp: drain_host_loop.simps [of P end_at w] same_line_tick)
  next
    case True
    obtain r1 w1 where w1: "transport_receive P (Some (millis 50)) (w\<lparr>now := Suc (now w)\<rparr>) = (r1, w1)" by fastforce
    note read = receive_silent [OF "1.prems"(2) _ w1]
    have s1: "same_line w w1" using sl.trans [OF same_line_tick read(1)] "1.prems"(3) by simp
    show ?thesis
    proof (cases "r1 = Inr []")
      case False
      with read(2) "1.prems"(3) have "r1 = Inl Cancelled" by simp
      with "1.prems"(1) True w1 have "r = Inl Cancelled" "w' = w1" by (simp_all add: drain_host_loop.simps [of P end_at w])
      with s1 show ?thesis by simp
    next
      case got: True
      obtain r2 w2 where w2: "sleep (millis 10) w1 = (r2, w2)" by fastforce
      have s2: "same_line w w2" using sl.trans [OF s1 sleep_same_line [OF w2]] .
      show ?thesis
      proof (cases r2)
        case (Inl e)
        with got "1.prems"(1) True w1 w2 have "r = Inl e" "w' = w2" by (simp_all add: drain_host_loop.simps [of P end_at w])
        with s2 w2 Inl sleep_Inl show ?thesis by auto
      next
        case (Inr x)
        with got "1.prems"(1) True w1 w2 have "drain_host_loop P end_at w2 = (r, w')"
          by (simp add: drain_host_loop.simps [of P end_at w])
        from "1.IH"(1) [OF True w1 [symmetric] got refl w2 [symmetric] Inr this "1.prems"(2) same_line_on [OF s2 "1.prems"(3)]]
        show ?thesis using sl.trans [OF s2] by blast
      qed
    qed
  qed
qed

lemma drain_outlasts:
  fixes P :: "'d platform"
  assumes "deaf P"
  shows "outlasts n (\<lambda>_. True) (drain_host_rx P n)"
proof (rule outlastsI)
  fix w :: "('d, 'z) tworld_scheme" and r w'
  assume w: "on_line w" and run: "drain_host_rx P n w = (r, w')"
  obtain r1 w1 where l: "drain_host_loop P (now w + n) (w\<lparr>now := Suc (now w)\<rparr>) = (r1, w1)" by fastforce
  from drain_silent [OF l assms] w have s: "same_line (w\<lparr>now := Suc (now w)\<rparr>) w1"
    and r: "case r1 of Inl e \<Rightarrow> e = Cancelled | Inr x \<Rightarrow> now w + n \<le> now w1" by simp_all
  from run l r have "w' = w1" "r = r1"
    by (auto simp: drain_host_rx_def try_except_def bindM_def monotonic_def ret_def split: sum.splits)
  with r sl.trans [OF same_line_tick s]
  show "same_line w w' \<and> (case r of Inl e \<Rightarrow> \<not> is_exception e | Inr x \<Rightarrow> True \<and> now w + n \<le> now w')"
    by (cases r) auto
qed

lemma receive_loop_silent:
  "receive_loop P n deadline w = (r, w') \<Longrightarrow> deaf P \<Longrightarrow> on_line w \<Longrightarrow> rx_buffer w = [] \<Longrightarrow> 0 < n \<Longrightarrow>
     same_line w w' \<and> (case r of Inl e \<Rightarrow> e = Cancelled | Inr x \<Rightarrow> deadline \<le> now w')"
proof (induction rule: receive_loop_run_induct)
  case (failed w e w1)
  note read = receive_silent [OF failed(4) _ failed(3)]
  show ?case using read(1,2) failed(5) sl.trans [OF same_line_tick] by simp
next
  case (cancelled w w1 e w2)
  note read = receive_silent [OF cancelled(5) _ cancelled(3)]
  have "same_line w w1" using sl.trans [OF same_line_tick read(1)] cancelled(6) by simp
  then show ?case using sl.trans [OF _ sleep_same_line [OF cancelled(4)]] sleep_Inl [OF cancelled(4)] by simp
next
  case (idle w w1 u w2 r w')
  note read = receive_silent [OF idle(6) _ idle(3)]
  have "same_line w w1" using sl.trans [OF same_line_tick read(1)] idle(7) by simp
  then have s: "same_line w w2" using sl.trans sleep_same_line [OF idle(4)] by blast
  have "rx_buffer w2 = []" using s idle(8) by (simp add: same_line_def)
  from idle(5) [OF idle(6) same_line_on [OF s idle(7)] this idle(9)] show ?case using sl.trans [OF s] by blast
next
  case (chunk w w1 c r w')
  from receive_silent(2) [OF chunk(6) _ chunk(3)] chunk(4,7) show ?case by simp
qed (auto simp: same_line_tick sl.refl)

lemma receive_exact_outlasts:
  fixes P :: "'d platform"
  assumes "deaf P" and "0 < n"
  shows "outlasts t (\<lambda>b. b = []) (receive_exact P n t)"
proof (rule outlastsI)
  fix w :: "('d, 'z) tworld_scheme" and r w'
  assume w: "on_line w" "rx_buffer w = []" and run: "receive_exact P n t w = (r, w')"
  obtain r1 w1 where l: "receive_loop P n (now w + t) (w\<lparr>now := Suc (now w)\<rparr>) = (r1, w1)" by fastforce
  from receive_loop_silent [OF l assms(1)] w assms(2) have s: "same_line (w\<lparr>now := Suc (now w)\<rparr>) w1"
    and r: "case r1 of Inl e \<Rightarrow> e = Cancelled | Inr x \<Rightarrow> now w + t \<le> now w1" by simp_all
  have "rx_buffer w1 = []" using s w by (simp add: same_line_def)
  with run l r assms(2) have "w' = w1" "r = (case r1 of Inl e \<Rightarrow> Inl e | Inr _ \<Rightarrow> Inr [])"
    by (auto simp: receive_exact_def thenM_def bindM_def monotonic_def take_buffer_def split: sum.splits)
  with r sl.trans [OF same_line_tick s]
  show "same_line w w' \<and> (case r of Inl e \<Rightarrow> \<not> is_exception e | Inr b \<Rightarrow> b = [] \<and> now w + t \<le> now w')"
    by (cases r1) auto
qed

lemma outlasts_try: "outlasts n Q m \<Longrightarrow> outlasts n Q (try_except is_exception m h)"
  unfolding outlasts_def try_except_def by (fastforce split: prod.splits sum.splits if_splits)

lemma receive_message_outlasts:
  assumes "deaf P"
  shows "outlasts t (\<lambda>m. m = None) (receive_main_message P t)"
proof -
  have "outlasts (t + 0) (\<lambda>x. x = None) (read_varint_loop P t (Suc k) acc shift)" for k acc shift
    unfolding read_varint_loop.simps
    by (rule outlasts_bindM [OF receive_exact_outlasts [OF assms]]) (simp_all add: outlasts_ret)
  from this [of 4 0 0] have "outlasts t (\<lambda>x. x = None) (read_varint_loop P t 5 0 0)" by simp
  then have "outlasts t (\<lambda>x. x = None) (read_varint P t)"
    unfolding read_varint_def by (rule outlasts_try)
  then have "outlasts (t + 0) (\<lambda>m. m = None) (receive_main_message P t)"
    unfolding receive_main_message_def by (rule outlasts_try [OF outlasts_bindM]) (simp_all add: outlasts_ret)
  then show ?thesis by simp
qed

section \<open>Negotiating in vain\<close>

text \<open>Whatever becomes of a write, the line stays.\<close>

lemma send_line: "transport_send P data w = (r, w') \<Longrightarrow> same_line w w'"
  by (rule link_same_line, rule keepsD [OF transport_send_link])

text \<open>A probe is never answered; if its write fails it drains the line instead of waiting for the answer.\<close>

lemma probe_outlasts:
  fixes P :: "'d platform"
  assumes "deaf P"
  shows "outlasts (millis 200 + min t (millis 500)) (\<lambda>b. \<not> b) (probe_rpc P t)"
proof (rule outlastsI)
  fix w :: "('d, 'z) tworld_scheme" and r w'
  let ?T = "\<lambda>r w'. same_line w w' \<and>
      (case r of Inl e \<Rightarrow> \<not> is_exception e | Inr b \<Rightarrow> \<not> b \<and> now w + (millis 200 + min t (millis 500)) \<le> now w')"
  assume w: "on_line w" "rx_buffer w = []" and run: "probe_rpc P t w = (r, w')"
  let ?clear = "w\<lparr>rx_buffer := []\<rparr>"
  have c: "?clear = w" using w(2) by simp
  obtain r1 w1 where d: "drain_host_rx P (millis 200) w = (r1, w1)" by fastforce
  note dl = outlasts_line [OF drain_outlasts [OF assms] w d]
  show "?T r w'"
  proof (cases r1)
    case (Inl e)
    with d have e: "\<not> is_exception e" using outlasts_Inl [OF drain_outlasts [OF assms] w] by blast
    with run d Inl c have "r = Inl e" "w' = w1"
      by (simp_all add: probe_rpc_def try_except_def thenM_def bindM_def clear_receive_buffer_def modify_def)
    with dl e show ?thesis by simp
  next
    case (Inr x)
    then have late1: "now w + millis 200 \<le> now w1" using outlasts_Inr [OF drain_outlasts [OF assms] w] d by blast
    let ?msg = "main_request 1 False (Request (PingRequest PROBE))"
    obtain r2 w2 where send: "send_message P ?msg w1 = (r2, w2)" by fastforce
    then have s2: "same_line w1 w2" unfolding send_message_def by (rule send_line)
    then have l2: "on_line w2" "rx_buffer w2 = []" using dl by (auto simp: same_line_def on_line_def)
    let ?late = "\<lambda>m. outlasts (min t (millis 500)) (\<lambda>b. \<not> b) m"
    have ends: "?T r w'" if m: "?late m" and rest: "m w2 = (r, w')" for m
    proof -
      have "same_line w w'" using sl.trans [OF dl(1) sl.trans [OF s2 outlasts_line(1) [OF m l2 rest]]] .
      moreover have "\<not> is_exception e" if "r = Inl e" for e using outlasts_Inl [OF m l2] rest that by blast
      moreover have "\<not> b \<and> now w + (millis 200 + min t (millis 500)) \<le> now w'" if "r = Inr b" for b
      proof -
        have "\<not> b \<and> now w2 + min t (millis 500) \<le> now w'" using outlasts_Inr [OF m l2] rest that by blast
        moreover have "now w1 \<le> now w2" using s2 by (simp add: same_line_def)
        ultimately show ?thesis using late1 by linarith
      qed
      ultimately show ?thesis by (cases r) auto
    qed
    let ?wait = "bindM (receive_main_message P t) (\<lambda>msg. ret (case msg of None \<Rightarrow> False
       | Some m \<Rightarrow> field is_PingResponse ping_data m = Some PROBE))"
    let ?drain = "thenM (drain_host_rx P (millis 500)) (ret False)"
    have "outlasts (t + 0) (\<lambda>b. \<not> b) ?wait"
      by (rule outlasts_bindM [OF receive_message_outlasts [OF assms]]) (simp add: outlasts_ret)
    then have wait: "?late (try_except is_exception ?wait (\<lambda>_. ?drain))"
      by (rule outlasts_mono [OF outlasts_try]) (rule min.cobounded1 [of t, THEN order_trans], simp)
    have "outlasts (millis 500 + 0) (\<lambda>b. \<not> b) ?drain"
      by (rule outlasts_thenM [OF drain_outlasts [OF assms]]) (simp add: outlasts_ret)
    then have drain: "?late ?drain" by (rule outlasts_mono) simp_all
    show ?thesis
    proof (cases r2)
      case (Inl e)
      show ?thesis
      proof (cases "is_exception e")
        case True
        with run d \<open>r1 = Inr x\<close> c send Inl have "?drain w2 = (r, w')"
          by (simp add: probe_rpc_def try_except_def thenM_def bindM_def clear_receive_buffer_def modify_def)
        with drain show ?thesis by (rule ends)
      next
        case False
        with run d \<open>r1 = Inr x\<close> c send Inl have "r = Inl e" "w' = w2"
          by (simp_all add: probe_rpc_def try_except_def thenM_def bindM_def clear_receive_buffer_def modify_def)
        with sl.trans [OF dl(1) s2] False show ?thesis by simp
      qed
    next
      case (Inr y)
      with run d \<open>r1 = Inr x\<close> c send have "try_except is_exception ?wait (\<lambda>_. ?drain) w2 = (r, w')"
        by (simp add: probe_rpc_def try_except_def thenM_def bindM_def clear_receive_buffer_def modify_def)
      with wait show ?thesis by (rule ends)
    qed
  qed
qed

lemma commands_sent: "outlasts 0 (\<lambda>_. True) (try_except is_exception
    (thenM (transport_send P CTRL_C_CR) (transport_send P START_RPC_SESSION)) (\<lambda>_. ret ()))"
proof -
  have "keeps same_line (transport_send P data)" for data by (blast intro: keepsI send_line)
  then have "keeps same_line (thenM (transport_send P CTRL_C_CR) (transport_send P START_RPC_SESSION))"
    by (intro sl.keeps_rules)
  then show ?thesis
    by (intro outlastsI) (auto simp: try_except_def ret_def same_line_def dest!: keepsD split: prod.splits sum.splits if_splits)
qed

lemma start_commands_outlasts:
  assumes "deaf P"
  shows "outlasts (millis 600) (\<lambda>_. True) (start_commands P)"
proof -
  have "outlasts (0 + (millis 400 + (0 + millis 200))) (\<lambda>_. True) (start_commands P)"
    unfolding start_commands_def
    by (rule outlasts_thenM [OF commands_sent outlasts_thenM [OF drain_outlasts [OF assms]
          outlasts_thenM [OF clear_outlasts sleep_outlasts]]])
  then show ?thesis by simp
qed

text \<open>The commands of an attempt end with a pause, which a deadline cuts off.\<close>

lemma start_commands_deadline:
  fixes w :: "('d, 'z) tworld_scheme"
  assumes "deaf P" and "on_line w" and "rx_buffer w = []" and "start_commands P w = (Inr x, w')" and "cancel_at w = Some c"
  shows "now w + millis 600 \<le> c"
proof -
  define front where "front = thenM (try_except is_exception
     (thenM (transport_send P CTRL_C_CR) (transport_send P START_RPC_SESSION)) (\<lambda>_. ret ()))
     (thenM (drain_host_rx P (millis 400)) clear_receive_buffer :: (('d, 'z) tworld_scheme, unit) action)"
  have "outlasts (0 + (millis 400 + 0)) (\<lambda>_. True) front"
    unfolding front_def
    by (rule outlasts_thenM [OF commands_sent outlasts_thenM [OF drain_outlasts [OF assms(1)] clear_outlasts]])
  then have f: "outlasts (millis 400) (\<lambda>_. True) front" by simp
  have "bindM front (\<lambda>_. sleep (millis 200)) w = (Inr x, w')"
    using assms(4) unfolding front_def start_commands_def by (simp add: thenM_def bindM_assoc)
  then obtain y v where v: "front w = (Inr y, v)" and "sleep (millis 200) v = (Inr x, w')"
    by (rule bindM_InrE)
  moreover have "cancel_at v = Some c" using outlasts_line(1) [OF f assms(2,3) v] assms(5) by (simp add: same_line_def)
  ultimately have "now w' \<le> c" by (auto simp: sleep_def intro: await_deadline)
  moreover have "now w + millis 600 \<le> now w'"
    using outlasts_Inr [OF start_commands_outlasts [OF assms(1)] assms(2,3,4)] by blast
  ultimately show ?thesis by simp
qed

lemma attempt_outlasts:
  assumes "deaf P"
  shows "outlasts (millis 1300) (\<lambda>b. \<not> b) (start_session_attempt P)"
proof -
  have "outlasts (millis 600 + (millis 200 + min (millis 1200) (millis 500))) (\<lambda>b. \<not> b) (start_session_attempt P)"
    unfolding start_session_attempt_eq
    by (rule outlasts_thenM [OF start_commands_outlasts [OF assms] probe_outlasts [OF assms]])
  then show ?thesis by simp
qed

section \<open>A negotiation beyond the budget\<close>

text \<open>The run ends in an exception, and the RPC object is as it was: no session, no failure recorded.\<close>

definition cut_short :: "('d, 'z) rworld_scheme \<Rightarrow> (exn + 'a) \<times> ('d, 'z) rworld_scheme \<Rightarrow> bool" where
  "cut_short w out \<longleftrightarrow> (\<exists>e w'. out = (Inl e, w') \<and> r_session_started w' = r_session_started w \<and>
     r_last_failure w' = r_last_failure w)"

lemma cut_short_trans:
  "r_session_started v = r_session_started w \<and> r_last_failure v = r_last_failure w \<Longrightarrow> cut_short v out \<Longrightarrow> cut_short w out"
  unfolding cut_short_def by auto

lemma t_frame_rpc_kept:
  assumes "keeps t_frame m" and "m w = (r, w')"
  shows "r_session_started w' = r_session_started w \<and> r_last_failure w' = r_last_failure w"
  using t_frame_rpc_fields [OF keepsD [OF assms]] by simp

text \<open>A step of the negotiation, after which \<open>k\<close> is cut short.\<close>

lemma cut_short_bindM:
  assumes m: "outlasts n Q m" "keeps t_frame m" and w: "on_line w" "rx_buffer w = []"
    and k: "\<And>x v. Q x \<Longrightarrow> on_line v \<Longrightarrow> rx_buffer v = [] \<Longrightarrow> cancel_at v = cancel_at w \<Longrightarrow> now w + n \<le> now v \<Longrightarrow>
       cut_short v (k x v)"
  shows "cut_short w (bindM m k w)"
proof -
  obtain r v where v: "m w = (r, v)" by fastforce
  note fields = t_frame_rpc_kept [OF m(2) v]
  show ?thesis
  proof (cases r)
    case (Inl e)
    with v fields show ?thesis by (simp add: bindM_def cut_short_def)
  next
    case (Inr x)
    with v have "Q x" "now w + n \<le> now v" using outlasts_Inr [OF m(1) w] by blast+
    moreover have "cancel_at v = cancel_at w" using outlasts_line(1) [OF m(1) w v] by (simp add: same_line_def)
    ultimately have "cut_short v (k x v)" using k outlasts_line(2,3) [OF m(1) w v] by blast
    with v Inr fields show ?thesis by (simp add: bindM_def cut_short_trans)
  qed
qed

lemma start_commands_t: "keeps t_frame (start_commands P)"
  unfolding start_commands_def by (intro t_rules)

lemma attempt_cut_short:
  assumes "deaf P" and w: "on_line w" "rx_buffer w = []" and "cancel_at w = Some c" and "c < now w + millis 600"
  shows "cut_short w (bindM (start_session_attempt P) k w)"
proof -
  obtain r v where v: "start_commands P w = (r, v)" by fastforce
  then obtain e where "r = Inl e" using start_commands_deadline [OF assms(1) w _ assms(4)] assms(5)
    by (cases r) (fastforce dest: not_le_imp_less)+
  with v t_frame_rpc_kept [OF start_commands_t v] show ?thesis
    by (simp add: start_session_attempt_eq thenM_def bindM_def cut_short_def)
qed

lemma negotiate_cut_short:
  fixes P :: "'d platform" and w :: "('d, 'z) rworld_scheme"
  assumes "deaf P" and w: "on_line w" "rx_buffer w = []" and c: "cancel_at w = Some c" "c < now w + millis 3200"
  shows "cut_short w (negotiate P w)"
  unfolding negotiate_def
proof (rule cut_short_bindM [OF attempt_outlasts [OF assms(1)] start_session_attempt_t w])
  fix ok and v :: "('d, 'z) rworld_scheme"
  assume no: "\<not> ok" and v: "on_line v" "rx_buffer v = []" "cancel_at v = cancel_at w" "now w + millis 1300 \<le> now v"
  have "cut_short v (bindM (start_session_attempt P) (\<lambda>ok. bindM (if \<not> ok then start_session_attempt P else ret ok) (\<lambda>ok.
      thenM (set_session ok) (if \<not> ok then record_failure else ret ()))) v)"
  proof (rule cut_short_bindM [OF attempt_outlasts [OF assms(1)] start_session_attempt_t v(1,2)])
    fix ok' and u :: "('d, 'z) rworld_scheme"
    assume "\<not> ok'" and "on_line u" "rx_buffer u = []" "cancel_at u = cancel_at v" "now v + millis 1300 \<le> now u"
    with v c show "cut_short u (bindM (if \<not> ok' then start_session_attempt P else ret ok') (\<lambda>ok.
        thenM (set_session ok) (if \<not> ok then record_failure else ret ())) u)"
      using attempt_cut_short [OF assms(1), of u c] by simp
  qed
  with no show "cut_short v (bindM (if \<not> ok then start_session_attempt P else ret ok) (\<lambda>ok.
      bindM (if \<not> ok then start_session_attempt P else ret ok) (\<lambda>ok.
      thenM (set_session ok) (if \<not> ok then record_failure else ret ()))) v)" by simp
qed

lemma begin_session_cut_short:
  fixes P :: "'d platform" and w :: "('d, 'z) rworld_scheme"
  assumes "deaf P" and "on_line w" and c: "cancel_at w = Some c" "c < now w + millis 3500"
  shows "cut_short w (begin_session P w)"
proof -
  let ?w = "w\<lparr>rx_buffer := []\<rparr>"
  let ?k = "bindM (get is_wifi_transport) (\<lambda>is_wifi.
      if is_wifi then set_session True
      else if \<not> force_start P
      then bindM (probe_rpc P (millis 400)) (\<lambda>answered. if answered then set_session True else negotiate P)
      else negotiate P)"
  have w: "on_line ?w" "rx_buffer ?w = []" using assms(2) by simp_all
  have "cut_short ?w (bindM (sleep (millis 300)) (\<lambda>_. ?k) ?w)"
  proof (rule cut_short_bindM [OF sleep_outlasts sleep_t w])
    fix x :: unit and v :: "('d, 'z) rworld_scheme"
    assume v: "on_line v" "rx_buffer v = []" "cancel_at v = cancel_at ?w" "now ?w + millis 300 \<le> now v"
    have no: "\<not> is_wifi_transport v" using v(1) by (simp add: is_wifi_transport_iff on_line_def)
    have neg: "cut_short u (negotiate P u)"
      if "on_line u" "rx_buffer u = []" "cancel_at u = cancel_at v" "now v \<le> now u" for u :: "('d, 'z) rworld_scheme"
      using negotiate_cut_short [OF assms(1) that(1,2), of c] that v c by simp
    show "cut_short v (?k v)"
    proof (cases "force_start P")
      case True
      with no neg v show ?thesis by (simp add: bindM_def get_def)
    next
      case False
      have "cut_short v (bindM (probe_rpc P (millis 400)) (\<lambda>answered. if answered then set_session True else negotiate P) v)"
        by (rule cut_short_bindM [OF probe_outlasts [OF assms(1)] probe_rpc_t v(1,2)]) (simp add: neg)
      with False no show ?thesis by (simp add: bindM_def [of "get _"] get_def)
    qed
  qed
  moreover have "begin_session P w = bindM (sleep (millis 300)) (\<lambda>_. ?k) ?w"
    unfolding begin_session_def thenM_def by (subst bindM_def) (simp add: clear_receive_buffer_def modify_def)
  ultimately show ?thesis by (simp add: cut_short_def)
qed

section \<open>The calls\<close>

text \<open>A call in a state like this is out of time before its negotiation ends.\<close>

definition hopeless :: "('d, 'z) rworld_scheme \<Rightarrow> bool" where
  "hopeless w \<longleftrightarrow> on_line w \<and> \<not> r_session_started w \<and> r_last_failure w = None \<and>
     (\<exists>c. cancel_at w = Some c \<and> c < now w + millis 3500)"

text \<open>The action has no answer, and the RPC object does not know that it failed.\<close>

definition unanswered :: "'a \<Rightarrow> (('d, 'z) rworld_scheme, 'a) action \<Rightarrow> bool" where
  "unanswered dflt m \<longleftrightarrow> (\<forall>w r w'. hopeless w \<longrightarrow> m w = (r, w') \<longrightarrow>
     (\<forall>x. r = Inr x \<longrightarrow> x = dflt) \<and> \<not> r_session_started w' \<and> r_last_failure w' = None)"

lemma unansweredD:
  assumes "unanswered dflt m" and "hopeless w" and "m w = (r, w')"
  shows "r = Inr x \<Longrightarrow> x = dflt" and "\<not> r_session_started w'" and "r_last_failure w' = None"
  using assms unfolding unanswered_def by blast+

lemma ensure_hopeless:
  assumes "deaf P" and "hopeless w"
  obtains e w' where "ensure_rpc_session_started P w = (Inl e, w')" and "\<not> r_session_started w'" and "r_last_failure w' = None"
proof -
  from assms(2) obtain c where w: "on_line w" "\<not> r_session_started w" "r_last_failure w = None"
    and c: "cancel_at w = Some c" "c < now w + millis 3500" by (auto simp: hopeless_def)
  have "ensure_rpc_session_started P w = begin_session P w"
    using w(2,3) by (simp add: ensure_rpc_session_started_def action_defs)
  with begin_session_cut_short [OF assms(1) w(1) c] w(2,3) show ?thesis by (auto simp: cut_short_def intro: that)
qed

lemma request_unanswered:
  assumes "deaf P"
  shows "unanswered None (request P c t)"
  unfolding unanswered_def
proof (intro allI impI)
  fix w :: "('a, 'b) rworld_scheme" and r w'
  assume "hopeless w" and run: "request P c t w = (r, w')"
  let ?w = "w\<lparr>r_command_id := (r_command_id w + 1) mod 0xFFFFFFFF\<rparr>"
  have "hopeless ?w" using \<open>hopeless w\<close> by (simp add: hopeless_def on_line_def)
  with assms obtain e v where "ensure_rpc_session_started P ?w = (Inl e, v)"
    and v: "\<not> r_session_started v" "r_last_failure v = None" by (rule ensure_hopeless)
  with run have "w' = v \<and> (r = Inr None \<or> r = Inl e)"
    by (auto simp: request_def get_next_command_id_def Let_def send_rpc_message_def try_except_def thenM_def bindM_def
        ret_def split: if_splits)
  with v show "(\<forall>x. r = Inr x \<longrightarrow> x = None) \<and> \<not> r_session_started w' \<and> r_last_failure w' = None" by auto
qed

lemma unanswered_bindM: "unanswered None m \<Longrightarrow> f None = dflt \<Longrightarrow> unanswered dflt (bindM m (\<lambda>r. ret (f r)))"
  unfolding unanswered_def bindM_def ret_def by (fastforce split: prod.splits sum.splits)

lemma unanswered_guarded: "unanswered dflt m \<Longrightarrow> unanswered dflt (guarded dflt m)"
  unfolding unanswered_def guarded_def try_except_def ret_def by (fastforce split: prod.splits sum.splits if_splits)

lemma query_unanswered: "deaf P \<Longrightarrow> unanswered None (query P c t p f)"
  unfolding query_def
  by (intro unanswered_guarded unanswered_bindM [where f = "ok_reply p f"] request_unanswered) (simp_all add: ok_reply_def)

lemma perform_unanswered: "deaf P \<Longrightarrow> unanswered False (perform P c)"
  unfolding perform_def
  by (intro unanswered_guarded unanswered_bindM [where f = is_ok] request_unanswered) (simp_all add: is_ok_def)

text \<open>Three seconds are less than the negotiation needs.\<close>

lemma timed_unanswered:
  assumes m: "unanswered dflt m" and w: "on_line w" "\<not> io_locked w" "\<not> r_session_started w" "r_last_failure w = None"
    and run: "timed (seconds 3) dflt m w = (r, w')"
  shows "(r = Inr dflt \<or> (\<exists>e. r = Inl e \<and> \<not> is_exception e)) \<and> \<not> r_session_started w' \<and> r_last_failure w' = None"
proof -
  define c where "c = (case cancel_at w of None \<Rightarrow> now w + seconds 3 | Some c \<Rightarrow> min c (now w + seconds 3))"
  define v where "v = w\<lparr>io_locked := True, cancel_at := Some c\<rparr>"
  have "c \<le> now w + seconds 3" by (simp add: c_def split: option.split)
  with w have "hopeless v" by (simp add: hopeless_def v_def on_line_def)
  obtain r1 v1 where v1: "m v = (r1, v1)" by fastforce
  note out = unansweredD [OF m \<open>hopeless v\<close> v1]
  have "\<exists>r2. wait_for (seconds 3) m (w\<lparr>io_locked := True\<rparr>) = (r2, v1\<lparr>cancel_at := cancel_at w\<rparr>) \<and>
      (r2 = r1 \<or> (\<exists>e. r2 = Inl e))"
    using v1 by (cases "cancel_at w") (auto simp: wait_for_def Let_def v_def c_def min_def not_less)
  with run w(2) out show ?thesis
    by (auto simp: timed_def with_lock_def try_except_def ret_def split: sum.splits if_splits)
qed

text \<open>The call ends without an answer (with its default, unless something that is no \<^verbatim>\<open>Exception\<close> ends it), leaves
  no session and no failure on record, and so the next one negotiates again, cooldown or not.\<close>

definition gives_up :: "'d platform \<Rightarrow> 'a \<Rightarrow> (exn + 'a) \<times> ('d, 'z) rworld_scheme \<Rightarrow> bool" where
  "gives_up P dflt out \<longleftrightarrow> (case out of (r, w') \<Rightarrow>
     (r = Inr dflt \<or> (\<exists>e. r = Inl e \<and> \<not> is_exception e)) \<and> \<not> r_session_started w' \<and> r_last_failure w' = None \<and>
     ensure_rpc_session_started P w' = begin_session P w')"

lemma timed_gives_up:
  assumes "unanswered dflt m" and "on_line w" "\<not> io_locked w" "\<not> r_session_started w" "r_last_failure w = None"
  shows "gives_up P dflt (timed (seconds 3) dflt m w)"
proof -
  obtain r w' where run: "timed (seconds 3) dflt m w = (r, w')" by fastforce
  from timed_unanswered [OF assms run] run show ?thesis
    by (simp add: gives_up_def ensure_rpc_session_started_def action_defs)
qed

lemma read_unanswered: "unanswered None m \<Longrightarrow> unanswered [] (bindM m (\<lambda>r. ret (case r of None \<Rightarrow> [] | Some b \<Rightarrow> b)))"
  by (rule unanswered_bindM [where f = "case_option [] (\<lambda>b. b)"]) simp_all

text \<open>C33: On a USB line on which the device never answers, each of the nine calls with the three-second budget, made when no
  session runs and no failure is on record, is cut off while it negotiates: it ends without an answer, the failed
  negotiation is not recorded, and the next call negotiates all over again, so the cooldown that is there to prevent
  this never begins.\<close>

theorem short_call_records_no_failure:
  assumes "\<And>d. serial_is_open P d"
    and "\<And>n t lim c d. \<exists>dt d'. serial_read P n t lim c d = (Inr [], dt, d') \<and> t \<le> dt"
    and "t_class w = USBTransport" and "u_serial (t_usb w)" and "\<not> io_locked w"
    and "\<not> r_session_started w" and "r_last_failure w = None"
  shows "gives_up P None (system_protobuf_version P w) \<and> gives_up P None (system_datetime P w) \<and>
         gives_up P [] (storage_read P path w) \<and> gives_up P None (storage_info P path w) \<and>
         gives_up P None (storage_stat P path w) \<and> gives_up P None (storage_timestamp P path w) \<and>
         gives_up P False (storage_mkdir P path w) \<and> gives_up P False (storage_delete P path recursive w) \<and>
         gives_up P False (storage_rename P path path' w)"
proof -
  have P: "deaf P" and w: "on_line w" using assms(1-4) by (simp_all add: deaf_def on_line_def)
  note g = timed_gives_up [OF _ w assms(5-7)]
  note q = query_unanswered [OF P] perform_unanswered [OF P]
  show ?thesis
    unfolding system_protobuf_version_def system_datetime_def storage_read_def storage_info_def storage_stat_def
      storage_timestamp_def storage_mkdir_def storage_delete_def storage_rename_def
    by (intro conjI g read_unanswered q)
qed

text \<open>A port that stays silent, and nothing heard on it.\<close>

definition mute :: "bytes list platform" where
  "mute = silent\<lparr>serial_is_open := \<lambda>d. True, serial_read := \<lambda>n t lim c d. (Inr [], t, d)\<rparr>"

theorem short_call_records_no_failure_witness:
  "gives_up mute None (storage_info mute ''/ext'' (sim_rworld USBTransport None []))"
proof -
  let ?w = "sim_rworld USBTransport None [] :: bytes list rworld"
  have "\<And>d. serial_is_open mute d"
    and "\<And>n t lim c d. \<exists>dt d'. serial_read mute n t lim c d = (Inr [], dt, d') \<and> t \<le> dt"
    by (simp_all add: mute_def)
  moreover have "t_class ?w = USBTransport" "u_serial (t_usb ?w)" "\<not> io_locked ?w" "\<not> r_session_started ?w"
    "r_last_failure ?w = None" by (simp_all add: sim_rworld_def sim_usb_def)
  ultimately show ?thesis
    using short_call_records_no_failure [of mute ?w "''/ext''" True "[]"] by blast
qed

end
