(* ===== verification/Installer_Attempts.thy ===== *)
theory Installer_Attempts
  imports Installer_Properties
begin

text \<open>
  The installer observed at its attempts: an operation is noted when it is attempted, whatever comes of it, an answer or an
  exception.  A calculus of costs (\<open>costs\<close>) bounds how often a file is written and the update is requested.
\<close>

section \<open>Attempts\<close>

datatype attempt =
    Asking
  | Making string
  | Writing string bytes
  | Summing string
  | Sizing string
  | Updating string
  | Restarting
  | Sleeping nat
  | Resyncing

definition tallied :: "'s rpc_like \<Rightarrow> ('s \<times> attempt list) rpc_like" where
  "tallied rpc =
     \<lparr>rl_get_device_info = note_call Asking (rl_get_device_info rpc),
      rl_storage_mkdir = (\<lambda>p. note_call (Making p) (rl_storage_mkdir rpc p)),
      rl_storage_write = (\<lambda>p d. note_call (Writing p d) (rl_storage_write rpc p d)),
      rl_storage_md5sum = (\<lambda>p. note_call (Summing p) (rl_storage_md5sum rpc p)),
      rl_storage_stat = (\<lambda>p. note_call (Sizing p) (rl_storage_stat rpc p)),
      rl_system_update = (\<lambda>p. note_call (Updating p) (rl_system_update rpc p)),
      rl_system_reboot_update = note_call Restarting (rl_system_reboot_update rpc),
      rl_sleep = (\<lambda>t. note_call (Sleeping t) (rl_sleep rpc t))\<rparr>"

definition tallied_resync :: "('s, unit) action option \<Rightarrow> ('s \<times> attempt list, unit) action option" where
  "tallied_resync = map_option (note_call Resyncing)"

interpretation tallied: observed_installer rpc resync "tallied rpc" "tallied_resync resync" for rpc resync
  by unfold_locales (simp_all add: traces_note tallied_def tallied_resync_def option.rel_map option.rel_refl)

fun tries_to_write :: "string \<Rightarrow> attempt \<Rightarrow> bool" where
  "tries_to_write p (Writing q d) \<longleftrightarrow> q = p"
| "tries_to_write p _ \<longleftrightarrow> False"

fun is_updating :: "attempt \<Rightarrow> bool" where
  "is_updating (Updating p) = True"
| "is_updating _ = False"

section \<open>Counting\<close>

text \<open>The action adds to the log, at most \<open>W p\<close> attempts to write \<open>p\<close>, for every \<open>p\<close>, and at most \<open>U\<close> to
  request the update.\<close>

definition costs :: "(string \<Rightarrow> nat) \<Rightarrow> nat \<Rightarrow> ('s \<times> attempt list, 'a) action \<Rightarrow> bool" where
  "costs W U m \<longleftrightarrow> (\<forall>s t. \<exists>r s' log. m (s, t) = (r, (s', t @ log)) \<and>
     (\<forall>p. length (filter (tries_to_write p) log) \<le> W p) \<and> length (filter is_updating log) \<le> U)"

lemma costsE:
  assumes "costs W U m"
  obtains r s' log where "m (s, t) = (r, (s', t @ log))" and "\<forall>p. length (filter (tries_to_write p) log) \<le> W p"
    and "length (filter is_updating log) \<le> U"
  using assms unfolding costs_def by metis

lemma costs_ret: "costs (\<lambda>_. 0) 0 (ret x)" and costs_raise: "costs (\<lambda>_. 0) 0 (raise e)"
  by (simp_all add: costs_def ret_def raise_def)

lemma costs_mono: "costs W U m \<Longrightarrow> (\<And>p. W p \<le> W' p) \<Longrightarrow> U \<le> U' \<Longrightarrow> costs W' U' m"
  unfolding costs_def by (meson order_trans)

lemma costs_note:
  "costs (\<lambda>p. if tries_to_write p a then 1 else 0) (if is_updating a then 1 else 0) (note_call a m)"
  by (auto simp: costs_def note_call_def split: prod.split)

text \<open>A second run from where a first ended that noted \<open>log\<close>.\<close>

lemma costs_step:
  assumes "costs W' U' k" and "\<forall>p. length (filter (tries_to_write p) log) \<le> W p" and "length (filter is_updating log) \<le> U"
  shows "\<exists>r' s' log'. k (s1, t @ log) = (r', (s', t @ log')) \<and>
     (\<forall>p. length (filter (tries_to_write p) log') \<le> W p + W' p) \<and> length (filter is_updating log') \<le> U + U'"
proof -
  obtain r2 s2 log2 where "k (s1, t @ log) = (r2, (s2, (t @ log) @ log2))"
    "\<forall>p. length (filter (tries_to_write p) log2) \<le> W' p" "length (filter is_updating log2) \<le> U'"
    using costsE [OF assms(1), of s1 "t @ log"] .
  with assms(2,3) show ?thesis by (intro exI [of _ r2] exI [of _ s2] exI [of _ "log @ log2"]) (simp add: add_mono)
qed

lemma costs_bindM:
  assumes m: "costs W U m" and k: "\<And>x. costs W' U' (k x)"
  shows "costs (\<lambda>p. W p + W' p) (U + U') (bindM m k)"
  unfolding costs_def
proof (intro allI)
  fix s t
  obtain r s1 log where run: "m (s, t) = (r, (s1, t @ log))" and W: "\<forall>p. length (filter (tries_to_write p) log) \<le> W p"
    and U: "length (filter is_updating log) \<le> U" using costsE [OF m, of s t] .
  show "\<exists>r s' log. bindM m k (s, t) = (r, (s', t @ log)) \<and> (\<forall>p. length (filter (tries_to_write p) log) \<le> W p + W' p) \<and>
      length (filter is_updating log) \<le> U + U'"
  proof (cases r)
    case (Inl e)
    with run W U show ?thesis by (simp add: bindM_def trans_le_add1)
  next
    case (Inr x)
    with costs_step [OF k [of x] W U, of s1 t] run show ?thesis by (simp add: bindM_def)
  qed
qed

lemma costs_thenM: "costs W U m \<Longrightarrow> costs W' U' k \<Longrightarrow> costs (\<lambda>p. W p + W' p) (U + U') (thenM m k)"
  unfolding thenM_def by (rule costs_bindM)

lemma costs_try:
  assumes m: "costs W U m" and h: "\<And>e. costs W' U' (h e)"
  shows "costs (\<lambda>p. W p + W' p) (U + U') (try_except q m h)"
  unfolding costs_def
proof (intro allI)
  fix s t
  obtain r s1 log where run: "m (s, t) = (r, (s1, t @ log))" and W: "\<forall>p. length (filter (tries_to_write p) log) \<le> W p"
    and U: "length (filter is_updating log) \<le> U" using costsE [OF m, of s t] .
  show "\<exists>r s' log. try_except q m h (s, t) = (r, (s', t @ log)) \<and> (\<forall>p. length (filter (tries_to_write p) log) \<le> W p + W' p) \<and>
      length (filter is_updating log) \<le> U + U'"
  proof (cases "\<exists>e. r = Inl e \<and> q e")
    case True
    then obtain e where "r = Inl e" "q e" by blast
    with costs_step [OF h [of e] W U, of s1 t] run show ?thesis by (simp add: try_except_def)
  next
    case False
    with run W U show ?thesis by (cases r) (simp_all add: try_except_def trans_le_add1)
  qed
qed

text \<open>Free actions, with nothing that counts.\<close>

abbreviation free :: "('s \<times> attempt list, 'a) action \<Rightarrow> bool" where
  "free \<equiv> costs (\<lambda>_. 0) 0"

lemma free_note: "(\<And>p. \<not> tries_to_write p a) \<Longrightarrow> \<not> is_updating a \<Longrightarrow> free (note_call a m)"
  using costs_note [of a m] by simp

lemma free_bindM: "free m \<Longrightarrow> (\<And>x. free (k x)) \<Longrightarrow> free (bindM m k)"
  and free_thenM: "free m \<Longrightarrow> free k' \<Longrightarrow> free (thenM m k')"
  and free_try: "free m' \<Longrightarrow> (\<And>e. free (h e)) \<Longrightarrow> free (try_except q m' h)"
  using costs_bindM [of "\<lambda>_. 0" 0 m "\<lambda>_. 0" 0 k] costs_thenM [of "\<lambda>_. 0" 0 m "\<lambda>_. 0" 0 k']
    costs_try [of "\<lambda>_. 0" 0 m' "\<lambda>_. 0" 0 h q] by simp_all

lemma free_if: "free m \<Longrightarrow> free k \<Longrightarrow> free (if b then m else k)"
  by simp

lemma tallied_simps [simp]:
  "rl_get_device_info (tallied rpc) = note_call Asking (rl_get_device_info rpc)"
  "rl_storage_mkdir (tallied rpc) p = note_call (Making p) (rl_storage_mkdir rpc p)"
  "rl_storage_write (tallied rpc) p d = note_call (Writing p d) (rl_storage_write rpc p d)"
  "rl_storage_md5sum (tallied rpc) p = note_call (Summing p) (rl_storage_md5sum rpc p)"
  "rl_storage_stat (tallied rpc) p = note_call (Sizing p) (rl_storage_stat rpc p)"
  "rl_system_update (tallied rpc) p = note_call (Updating p) (rl_system_update rpc p)"
  "rl_system_reboot_update (tallied rpc) = note_call Restarting (rl_system_reboot_update rpc)"
  "rl_sleep (tallied rpc) t = note_call (Sleeping t) (rl_sleep rpc t)"
  by (simp_all add: tallied_def)

lemma free_ops: "free (note_call Asking m)" "free (note_call (Making p) m')" "free (note_call (Summing p) m'')"
  "free (note_call (Sizing p) n)" "free (note_call Restarting n')" "free (note_call (Sleeping t) n'')"
  "free (note_call Resyncing m''')"
  by (simp_all add: free_note)

lemmas free_rules = costs_ret costs_raise free_bindM free_thenM free_try free_if free_ops

section \<open>What the installer's steps cost\<close>

lemma check_md5_free: "free (check_md5_loop (tallied rpc) p h k)"
proof (induction k)
  case 0
  show ?case by (simp add: costs_ret)
next
  case (Suc k)
  show ?case unfolding check_md5_loop.simps tallied_simps by (intro free_rules Suc.IH)
qed

lemma push_verify_free: "free (push_verify (tallied rpc) p d)"
  unfolding push_verify_def verify_written_def check_size_def check_md5_def tallied_simps
  by (intro free_rules check_md5_free)

lemma push_write_cost: "costs (\<lambda>q. if q = p then 1 else 0) 0 (push_write (tallied rpc) p d w)"
proof -
  have "costs (\<lambda>q. (if tries_to_write q (Writing p d) then 1 else 0) + 0) (0 + 0)
      (try_except is_push_error (note_call (Writing p d) (rl_storage_write rpc p d)) (\<lambda>_. ret False))"
    using costs_note [of "Writing p d" "rl_storage_write rpc p d"] by (intro costs_try costs_ret) simp
  then show ?thesis
    unfolding push_write_def tallied_simps by (auto intro: costs_mono [OF costs_ret] elim!: costs_mono)
qed

lemma push_loop_cost:
  "costs (\<lambda>q. if q = p then Suc k else 0) 0 (push_loop (tallied rpc) (tallied_resync resync) p d k w ew st)"
proof (induction k arbitrary: w ew st)
  case 0
  have "costs (\<lambda>q. (if q = p then 1 else 0) + 0) (0 + 0) (push_loop (tallied rpc) (tallied_resync resync) p d 0 w ew st)"
    unfolding push_loop.simps [of "tallied rpc" "tallied_resync resync" p d 0 w ew st]
    by (rule costs_bindM [OF push_write_cost]) (auto intro!: free_rules push_verify_free)
  then show ?case by (rule costs_mono) simp_all
next
  case (Suc k)
  let ?W = "\<lambda>q. if q = p then Suc k else 0"
  have again: "costs ?W 0 (case tallied_resync resync of None \<Rightarrow> raise e
      | Some m \<Rightarrow> thenM m (thenM (rl_sleep (tallied rpc) t)
          (push_loop (tallied rpc) (tallied_resync resync) p d k w' ew' st')))" for e t w' ew' st'
  proof (cases resync)
    case None
    then show ?thesis by (simp add: tallied_resync_def costs_mono [OF costs_raise])
  next
    case (Some m)
    have "costs (\<lambda>q. 0 + (0 + ?W q)) (0 + (0 + 0)) (thenM (note_call Resyncing m) (thenM (rl_sleep (tallied rpc) t)
          (push_loop (tallied rpc) (tallied_resync resync) p d k w' ew' st')))"
      unfolding tallied_simps by (intro costs_thenM free_ops Suc.IH)
    with Some show ?thesis by (simp add: tallied_resync_def)
  qed
  have "costs (\<lambda>q. (if q = p then 1 else 0) + (0 + ?W q)) (0 + (0 + 0))
      (push_loop (tallied rpc) (tallied_resync resync) p d (Suc k) w ew st)"
    unfolding push_loop.simps [of "tallied rpc" "tallied_resync resync" p d "Suc k" w ew st] nat.case prod.case
    by (intro costs_bindM push_write_cost)
      (auto intro!: free_rules push_verify_free again costs_mono [OF costs_ret])
  then show ?case by (rule costs_mono) simp_all
qed

lemma trigger_loop_cost: "costs (\<lambda>_. 0) (Suc k) (trigger_loop (tallied rpc) (tallied_resync resync) p k)"
proof (induction k)
  have update: "costs (\<lambda>_. 0) 1 (try_except is_timeout (rl_system_update (tallied rpc) p) (\<lambda>e. raise (FlashError (f e))))" for f
    using costs_try [OF costs_note costs_raise, of "Updating p" is_timeout "rl_system_update rpc p" "\<lambda>e. FlashError (f e)"]
    by simp
  {
    case 0
    have "costs (\<lambda>_. 0 + (0 + 0)) (0 + (1 + 0)) (trigger_loop (tallied rpc) (tallied_resync resync) p 0)"
      unfolding trigger_loop.simps [of "tallied rpc" _ _ 0] nat.case
      by (intro costs_thenM costs_bindM update) (simp_all add: free_ops free_rules)
    then show ?case by simp
  next
    case (Suc k)
    have re: "free (case tallied_resync resync of Some m \<Rightarrow> m | None \<Rightarrow> ret ())"
      by (cases resync) (simp_all add: tallied_resync_def free_rules)
    have again: "costs (\<lambda>_. 0) (Suc k) (thenM (case tallied_resync resync of Some m \<Rightarrow> m | None \<Rightarrow> ret ())
        (trigger_loop (tallied rpc) (tallied_resync resync) p k))"
      using costs_thenM [OF re Suc.IH] by simp
    have "costs (\<lambda>_. 0 + (0 + 0)) (0 + (1 + Suc k)) (trigger_loop (tallied rpc) (tallied_resync resync) p (Suc k))"
      unfolding trigger_loop.simps [of "tallied rpc" _ _ "Suc k"] nat.case
      by (intro costs_thenM costs_bindM update) (auto simp: free_ops intro: again costs_mono [OF costs_ret] costs_mono [OF costs_raise])
    then show ?case by simp
  }
qed

lemma push_files_cost:
  "costs (\<lambda>q. 3 * length (filter (\<lambda>f. dir @ ''/'' @ fst f = q) fs)) 0
     (push_files (tallied rpc) (tallied_resync resync) dir fs)"
proof (induction fs)
  case Nil
  show ?case by (simp add: costs_ret)
next
  case (Cons f fs)
  obtain rel d where f: "f = (rel, d)" by (cases f)
  let ?dest = "dir @ ''/'' @ rel"
  have "costs (\<lambda>q. 0 + ((if q = ?dest then Suc RESYNC_ATTEMPTS else 0) + 3 * length (filter (\<lambda>f. dir @ ''/'' @ fst f = q) fs)))
      (0 + (0 + 0)) (push_files (tallied rpc) (tallied_resync resync) dir (f # fs))"
    unfolding f push_files.simps Let_def push_file_def tallied_simps
    by (intro costs_thenM push_loop_cost Cons.IH free_rules)
  then show ?case by (rule costs_mono) (simp_all add: f RESYNC_ATTEMPTS_def)
qed

section \<open>The bounds\<close>

lemma install_costs:
  "costs (\<lambda>q. 3 * length (filter (\<lambda>f. dir @ ''/'' @ fst f = q) fs)) 3
     (thenM (rl_storage_mkdir (tallied rpc) root) (thenM (rl_storage_mkdir (tallied rpc) dir)
     (thenM (push_files (tallied rpc) (tallied_resync resync) dir fs)
     (thenM (trigger_update (tallied rpc) (tallied_resync resync) manifest) (rl_system_reboot_update (tallied rpc))))))"
proof -
  have "costs (\<lambda>q. 0 + (0 + (3 * length (filter (\<lambda>f. dir @ ''/'' @ fst f = q) fs) + (0 + 0)))) (0 + (0 + (0 + (Suc RESYNC_ATTEMPTS + 0))))
     (thenM (rl_storage_mkdir (tallied rpc) root) (thenM (rl_storage_mkdir (tallied rpc) dir)
     (thenM (push_files (tallied rpc) (tallied_resync resync) dir fs)
     (thenM (trigger_update (tallied rpc) (tallied_resync resync) manifest) (rl_system_reboot_update (tallied rpc))))))"
    unfolding trigger_update_def tallied_simps by (intro costs_thenM free_ops push_files_cost trigger_loop_cost)
  then show ?thesis by (rule costs_mono) (simp_all add: RESYNC_ATTEMPTS_def)
qed

text \<open>C20: However the device behaves and however the run ends: for every path, the attempts to write it, answered, refused or
  raising, are at most three for each entry of the bundle that goes there, and there are none to write any other path; the update is
  attempted at most three times; and the first thing done to the device is to ask for its information and, unless that was answered
  with the hardware target that the bundle is for, the only one.  Noting the attempts does not change the run.\<close>

theorem install_bounded:
  assumes "install_bundle (tallied rpc) b pkg (tallied_resync resync) (s, []) = (r, (s', log))"
  shows "install_bundle rpc b pkg resync s = (r, s') \<and>
    (\<forall>p. length (filter (\<lambda>a. \<exists>d. a = Writing p d) log) \<le>
       3 * length (filter (\<lambda>f. ''/ext/update/'' @ pkg @ ''/'' @ fst f = p) (bundle_files b))) \<and>
    length (filter (\<lambda>a. \<exists>p. a = Updating p) log) \<le> 3 \<and>
    (\<exists>rest. log = Asking # rest \<and> (rest = [] \<or>
       (\<exists>info s1. rl_get_device_info rpc s = (Inr info, s1) \<and>
          strip (or_empty (map_of info ''hardware_target'')) \<noteq> [] \<and>
          bundle_target b = CHR ''f'' # strip (or_empty (map_of info ''hardware_target'')))))"
proof -
  let ?dir = "UPDATE_ROOT @ ''/'' @ pkg"
  let ?W = "\<lambda>q. 3 * length (filter (\<lambda>f. ?dir @ ''/'' @ fst f = q) (bundle_files b))"
  obtain r1 s1 where info: "rl_get_device_info rpc s = (r1, s1)" by fastforce
  have steps: "\<exists>rest. log = Asking # rest \<and> (\<forall>q. length (filter (tries_to_write q) rest) \<le> ?W q) \<and>
      length (filter is_updating rest) \<le> 3 \<and> (rest = [] \<or> (\<exists>info. r1 = Inr info \<and>
        strip (or_empty (map_of info ''hardware_target'')) \<noteq> [] \<and>
        bundle_target b = CHR ''f'' # strip (or_empty (map_of info ''hardware_target''))))"
  proof (cases "\<exists>info. r1 = Inr info \<and> strip (or_empty (map_of info ''hardware_target'')) \<noteq> [] \<and>
      bundle_target b = CHR ''f'' # strip (or_empty (map_of info ''hardware_target''))")
    case False
    with assms info have "log = [Asking]"
      by (cases r1) (auto simp: install_bundle_def note_call_def bindM_def Let_def raise_def split: if_splits)
    then show ?thesis by simp
  next
    case True
    let ?rest = "thenM (rl_storage_mkdir (tallied rpc) UPDATE_ROOT) (thenM (rl_storage_mkdir (tallied rpc) ?dir)
     (thenM (push_files (tallied rpc) (tallied_resync resync) ?dir (bundle_files b))
     (thenM (trigger_update (tallied rpc) (tallied_resync resync) (?dir @ ''/'' @ manifest_name b))
       (rl_system_reboot_update (tallied rpc)))))"
    have "install_bundle (tallied rpc) b pkg (tallied_resync resync) (s, []) = ?rest (s1, [Asking])"
      using True info by (auto simp: install_bundle_def note_call_def bindM_def [of "note_call _ _"] Let_def)
    with assms have "?rest (s1, [Asking]) = (r, (s', log))" by simp
    moreover obtain r2 s2 rest where "?rest (s1, [Asking]) = (r2, (s2, [Asking] @ rest))"
      "\<forall>q. length (filter (tries_to_write q) rest) \<le> ?W q" "length (filter is_updating rest) \<le> 3"
      using costsE [OF install_costs [where rpc = rpc and resync = resync and root = UPDATE_ROOT and dir = ?dir
          and fs = "bundle_files b" and manifest = "?dir @ ''/'' @ manifest_name b"], of s1 "[Asking]"] .
    ultimately show ?thesis using True by auto
  qed
  then obtain rest where log: "log = Asking # rest" and W: "\<And>q. length (filter (tries_to_write q) rest) \<le> ?W q"
    and U: "length (filter is_updating rest) \<le> 3" and target: "rest = [] \<or> (\<exists>info. r1 = Inr info \<and>
        strip (or_empty (map_of info ''hardware_target'')) \<noteq> [] \<and>
        bundle_target b = CHR ''f'' # strip (or_empty (map_of info ''hardware_target'')))" by blast
  have "(\<lambda>a. \<exists>d. a = Writing p d) = tries_to_write p" for p by (rule ext, case_tac a) auto
  moreover have "(\<lambda>a. \<exists>p. a = Updating p) = is_updating" by (rule ext, case_tac a) auto
  moreover have "install_bundle rpc b pkg resync s = (r, s')" using tracesD [OF tallied.install_traces assms] .
  ultimately show ?thesis using log W U target info by (auto simp: UPDATE_ROOT_def)
qed

text \<open>The witness installs a bundle of one file on the concrete device.\<close>

theorem install_bounded_witness:
  "\<exists>r s' log. install_bundle (tallied sd_device) small_bundle ''p'' (tallied_resync None) (Map.empty, []) = (r, (s', log)) \<and>
     install_bundle sd_device small_bundle ''p'' None Map.empty = (r, s') \<and>
     length (filter (\<lambda>a. \<exists>d. a = Writing ''/ext/update/p/update.fuf'' d) log) \<le> 3"
proof -
  obtain r s' log where run: "install_bundle (tallied sd_device) small_bundle ''p'' (tallied_resync None) (Map.empty, []) = (r, (s', log))"
    by (metis prod.collapse)
  have one: "filter (\<lambda>f. ''/ext/update/'' @ ''p'' @ ''/'' @ fst f = ''/ext/update/p/update.fuf'') (bundle_files small_bundle) = [(''update.fuf'', [1, 2])]"
    by (simp add: small_bundle_def)
  note bounds = install_bounded [OF run]
  have "install_bundle sd_device small_bundle ''p'' None Map.empty = (r, s')" by (rule bounds [THEN conjunct1])
  moreover have "length (filter (\<lambda>a. \<exists>d. a = Writing ''/ext/update/p/update.fuf'' d) log) \<le> 3"
    using bounds [THEN conjunct2, THEN conjunct1, THEN spec [of _ "''/ext/update/p/update.fuf''"]]
    unfolding one by (simp only: list.size mult_1_right One_nat_def [symmetric] add_0)
  ultimately show ?thesis using run by blast
qed

end
