(* ===== verification/Spec2Isabelle.thy ===== *)
theory Spec2Isabelle
  imports Tool_Properties Transfer_Properties Cli_Typed_Properties Client_Properties Lock_Discipline Registry_Properties
    Logging Bridge_Check Short_Calls Installer_Attempts
begin

text \<open>
  A verification development of \<^verbatim>\<open>flipperzero_mcp\<close>, an MCP server through which an agent works with a
  Flipper Zero.  All paths below are relative to \<^verbatim>\<open>src/src/flipperzero_mcp/\<close>,
  but for the bridge check script, which is under \<^verbatim>\<open>src/firmware/tcp_uart_bridge/\<close>.

  \<^bold>\<open>The program.\<close>  A tool call enters at \<^verbatim>\<open>tools/\<close>, is gated by the operator's flags (\<^verbatim>\<open>config.py\<close>), and
  uses the one client of the server (\<^verbatim>\<open>rpc/client.py\<close>).  The client owns a transport (\<^verbatim>\<open>transport/\<close>: USB serial,
  the TCP socket of a WiFi bridge, or the automatic choice of the two) and, while connected, the RPC layer
  (\<^verbatim>\<open>rpc/protobuf_rpc.py\<close>), which frames protobuf messages on the byte stream after moving the device from its
  text shell into an RPC session.  The same link carries text commands, guarded by a classification
  (\<^verbatim>\<open>rpc/cli_risk.py\<close>).  Firmware is flashed by an installer (\<^verbatim>\<open>firmware/installer.py\<close>) from a bundle
  that is read or downloaded and checked (\<^verbatim>\<open>firmware/bundles.py\<close>).  Errors end as \<^verbatim>\<open>ToolError\<close> (\<^verbatim>\<open>errors.py\<close>).  The server
  (\<^verbatim>\<open>server.py\<close>) registers the tools with their hints, the prompts and the resources; the entry point (\<^verbatim>\<open>__main__.py\<close>) sets up
  logging (\<^verbatim>\<open>_logging.py\<close>) and starts it.  A script (\<^verbatim>\<open>check_wifi_bridge.py\<close>) tries out a WiFi bridge with the same layers.

  \<^bold>\<open>Effects.\<close>  Every coroutine is an action on an explicit state that ends in a value or an exception
  (\<open>Flipper_Prelude\<close>).  The state grows by record extension along the layers: the event loop with its clock, lock,
  pending deadline, device and the logs of what was written, and of what was written without the lock (\<open>Platform\<close>), the transport (\<open>Transport\<close>), the RPC
  object (\<open>Rpc_Core\<close>), the client (\<open>Client\<close>).  The clock counts nanoseconds.  A \<^verbatim>\<open>wait_for\<close> sets a deadline,
  and the await that passes it ends in \<open>Cancelled\<close>; the I/O lock is not reentrant, so taking it twice is the value
  \<open>Deadlock\<close>.  What is not code of the repository (pyserial, sockets, the protobuf runtime, files, HTTP, gzip and
  tar, JSON decoding) is a function of the records \<open>platform\<close> and \<open>host\<close> over an arbitrary device state: the
  theorems hold for every device, link and schedule of answers.  Where a property has hypotheses, its witness runs the
  definitions on a concrete device (\<open>Sim_Platform\<close> and the devices beside the properties).

  \<^bold>\<open>The theories.\<close>
  \<^item> \<open>Flipper_Prelude\<close>: bytes, exceptions (\<^verbatim>\<open>errors.py\<close> and those of Python and the libraries), actions, and the
    locale \<open>frame_rel\<close> of reflexive and transitive relations between states, whose rules say of an action what it
    leaves alone.  \<open>Py_Text\<close>, \<open>Py_Json\<close>, \<open>Hashes\<close>: Python's string methods on the code points below 256, JSON values, MD5 and
    SHA-256.
  \<^item> \<open>Transport\<close>: \<^verbatim>\<open>transport/usb.py\<close>, \<^verbatim>\<open>wifi.py\<close>, \<^verbatim>\<open>auto.py\<close> and the class \<^verbatim>\<open>FlipperTransport\<close>; \<open>Transport_Base\<close> states its
    contract as the locale \<open>flipper_transport\<close>, interpreted for the three classes and for the dispatch, and has the exact reads
    of \<^verbatim>\<open>transport/base.py\<close>.
  \<^item> \<open>Proto_Msg\<close>, \<open>Framing\<close>, \<open>Rpc_Core\<close>, \<open>Rpc_Calls\<close>, \<open>Rpc_Storage\<close>: \<^verbatim>\<open>rpc/protobuf_rpc.py\<close>, in the order messages, length
    prefixes, negotiation and one request, system calls, storage calls.  \<open>Rpc_Session\<close>: what a negotiation guarantees.
    Where a property speaks of an answer, a probe or a ping, it is the one of the run in question: \<open>answered\<close> and \<open>probe_answered\<close>
    name the state in which the exchange begins, every step of it, and the state in which it ends.
  \<^item> \<open>Cli_Risk\<close>, \<open>Config\<close>, \<open>Client\<close>: \<^verbatim>\<open>rpc/cli_risk.py\<close>; \<^verbatim>\<open>config.py\<close> with the factory of \<^verbatim>\<open>transport/__init__.py\<close>;
    \<^verbatim>\<open>rpc/client.py\<close>.
  \<^item> \<open>Firmware_Flavor\<close>, \<open>Installer\<close>, \<open>Bundles\<close>: \<^verbatim>\<open>firmware/flavor.py\<close> and \<^verbatim>\<open>codes.py\<close>, \<^verbatim>\<open>installer.py\<close>, \<^verbatim>\<open>bundles.py\<close>.  The
    installer is written against a protocol \<^verbatim>\<open>_RPCLike\<close>, here a record of operations; \<open>Installer_Trace\<close> wraps it so that a
    run notes its events, with the locale \<open>observed_installer\<close> by which an observed run is the run itself, \<open>Installer_Attempts\<close> so
    that it notes its attempts, whatever comes of them, \<open>Installer_Spec\<close> states which sequences of events are a proper installation, the contract
    \<open>rpc_contract\<close> that the RPC layer is proved to satisfy, and \<open>installer_frame\<close>, by which whatever relation the operations
    respect is respected by an installation.
  \<^item> \<open>Tools_Common\<close>, \<open>Tools\<close>, \<open>Cli_Typed\<close>, \<open>Firmware_Tool\<close>: \<^verbatim>\<open>tools/_common.py\<close> and the tools, one definition each.
    \<open>Server\<close>: the lifespan of \<^verbatim>\<open>server.py\<close>, the registered tools of \<^verbatim>\<open>tools/__init__.py\<close> as a datatype of calls, and the
    inductive set of states in which the server waits for a call.
  \<^item> \<open>Confinement\<close> and \<open>Server_Invariant\<close>: two frame relations, on what was written to the link and on what is left between
    calls, carried through every operation from the transports up to the tools; for the installer by interpreting
    \<open>installer_frame\<close>.  \<open>Progress\<close>: that every operation returns, with the lock given back.  \<open>Lock_Discipline\<close>: a third frame
    relation, that nothing is written without the lock.
  \<^item> \<open>Registry\<close>: \<^verbatim>\<open>create_server\<close> of \<^verbatim>\<open>server.py\<close>, \<^verbatim>\<open>register_all_tools\<close> with the decorators of all tools (names, tags,
    hints), \<^verbatim>\<open>prompts.py\<close> and \<^verbatim>\<open>resources_registry.py\<close>.  \<open>Logging\<close>: \<^verbatim>\<open>_logging.py\<close> and \<^verbatim>\<open>__main__.py\<close>, up to
    \<^verbatim>\<open>server.run()\<close>.  \<open>Bridge_Check\<close>: \<^verbatim>\<open>check_wifi_bridge.py\<close>.

  \<^bold>\<open>What is shown.\<close>
  \<^item> Of the server as a whole (\<open>Tool_Properties\<close>): whatever an agent calls, only what the flags allow is written to
    the link; gated tools refuse before doing anything; between calls the lock is free and the client is consistent;
    every call returns and never blocks on its own lock;
    tools fail with \<^verbatim>\<open>ToolError\<close>, and what else may leave them is named; a reported push or pull (\<open>Transfer_Properties\<close>) was verified; flashing needs both flags and
    the device's name.  Everything that is written is written under the lock (\<open>Lock_Discipline\<close>).  Tools announced as read-only
    only read (\<open>Registry_Properties\<close>).
  \<^item> Of flashing (\<open>Installer_Properties\<close>, \<open>Installer_Attempts\<close>, \<open>Bundle_Properties\<close>): an installation that reboots the device refines the specification;
    the attempts to write each file and to request the update are bounded; failures are \<^verbatim>\<open>FlashError\<close>s; downloads have the
    digest listed by the index that was fetched; no bundle has a path that
    leaves its package, and nothing is written outside it.
  \<^item> Of the client (\<open>Client_Properties\<close>): which command lines are refused and what is written for the others, what is
    read up to the prompt, connection, health and cache, classification and configuration.
  \<^item> Of the RPC layer (\<open>Rpc_Properties\<close>, \<open>Wire_Properties\<close>): messages survive framing, and none is taken from an incomplete
    frame; reads are exact and end in time; a session is believed only on an echo, and after a failure the
    line is left alone for a while; writes, listings and digests.  \<open>Short_Calls\<close> adds up how long a negotiation in vain lasts.
  \<^item> Of the parsers (\<open>Cli_Typed_Properties\<close>): a printed scan of the I2C bus is read back exactly.
  \<^item> Of the log (\<open>Logging\<close>) and the script (\<open>Bridge_Check\<close>): each log record is one line of JSON on the standard error
    stream that reads back as the record; the script's exit code says what happened.

  Some properties prove behaviour that the code's own comments exclude: a control byte takes a transmit command past
  the gate, the automatic transport sends text commands over WiFi, the recorded link mode can be wrong, a short call
  is cancelled before its failure is recorded (\<open>Short_Calls\<close>), a local path with a NUL makes a push raise something else than it
  documents, the reading after a flash confirms nothing, a frame left over answers the
  next request (\<open>Transfer_Properties\<close>), and a reconnect closes the link under a call that holds the lock (\<open>Lock_Discipline\<close>).

  \<^bold>\<open>Bounds.\<close>  Loops over a deadline recurse on the time that is left and are proved to terminate, because every
  round of the loop lets time pass; the counted loops keep the source's own limits, which are their only fuel: 100 frames of a
  listing or of device information (\<open>MAX_ITERATIONS\<close>), five bytes of a length prefix, the attempts of a negotiation,
  \<open>RESYNC_ATTEMPTS\<close> and the other attempts of the installer, and \<open>RECONNECT_POLLS\<close>, which is the 600 seconds of the source
  in steps of 5.  Nothing else bounds the model: no definition can run out.

  \<^bold>\<open>Not modelled.\<close>  \<^verbatim>\<open>rpc/protobuf_gen/\<close> is generated and the wire encoding is the protobuf library's: both are parameters,
  with the messages as a datatype.  FastMCP's dispatch and event loop are a library.  The server is modelled as serving one
  call after the other; of two calls at once it is shown that each writes only under the lock and that one which meets
  a held lock leaves the link alone, but their interleaving at the awaits is not modelled.  The formatting of times and
  tracebacks is the logging library's.  The C firmware of the WiFi bridge is another program.
\<close>

end
